(* ===== verification/Prelude.thy ===== *)
theory Prelude
  imports Main "HOL-Library.Word" "HOL-Library.Sublist" "HOL-Library.AList"
begin

text \<open>
  Shared vocabulary of the development: machine integers by width, Rust's
  \<^verbatim>\<open>Result\<close>, the string helpers the code uses (\<^verbatim>\<open>split\<close>, \<^verbatim>\<open>join\<close>, decimal
  \<^verbatim>\<open>to_string\<close>, big-endian \<^verbatim>\<open>u32\<close> bytes) and the generic lemmas about them.
  Nothing in this theory is specific to one component.
\<close>

unbundle bit_operations_syntax

section \<open>Machine integers and results\<close>

type_synonym byte = "8 word"
type_synonym u16 = "16 word"
type_synonym u32 = "32 word"
type_synonym u64 = "64 word"
type_synonym i64 = "64 word"  \<comment> \<open>two's complement, read with \<open>sint\<close>\<close>

datatype ('a, 'e) result = Ok (the_ok: 'a) | Err (the_err: 'e)

text \<open>A stateful fallible call: Rust's \<^verbatim>\<open>fn(&self, ..) -> Result<'a, 'e>\<close> on a shared state.\<close>

type_synonym ('s, 'a, 'e) call = "'s \<Rightarrow> ('a, 'e) result \<times> 's"

fun is_ok :: "('a, 'e) result \<Rightarrow> bool" where
  "is_ok (Ok _) = True"
| "is_ok (Err _) = False"

fun map_err :: "('e \<Rightarrow> 'f) \<Rightarrow> ('a, 'e) result \<Rightarrow> ('a, 'f) result" where
  "map_err f (Ok a) = Ok a"
| "map_err f (Err e) = Err (f e)"

text \<open>Rust's \<^verbatim>\<open>?\<close> on a pure result.\<close>

fun and_then :: "('a, 'e) result \<Rightarrow> ('a \<Rightarrow> ('b, 'e) result) \<Rightarrow> ('b, 'e) result" where
  "and_then (Ok a) f = f a"
| "and_then (Err e) f = Err e"

lemma and_then_Ok_iff: "and_then r f = Ok b \<longleftrightarrow> (\<exists>a. r = Ok a \<and> f a = Ok b)"
  by (cases r) auto

lemma map_err_Ok_iff [simp]: "map_err f r = Ok a \<longleftrightarrow> r = Ok a"
  by (cases r) auto

lemma map_err_Err_iff: "map_err f r = Err e \<longleftrightarrow> (\<exists>e'. r = Err e' \<and> e = f e')"
  by (cases r) auto

lemma unat_of_nat_u64: "n < 2 ^ 64 \<Longrightarrow> unat (of_nat n :: u64) = n"
  by (simp add: unat_of_nat)

lemma unat_of_nat_u32: "n < 2 ^ 32 \<Longrightarrow> unat (of_nat n :: u32) = n"
  by (simp add: unat_of_nat)

named_theorems vfs_step \<open>how one operation of a component changes its state\<close>


section \<open>Splitting and joining\<close>

fun split_on :: "'a \<Rightarrow> 'a list \<Rightarrow> 'a list list" where
  "split_on c [] = [[]]"
| "split_on c (x # xs) =
     (if x = c then [] # split_on c xs
      else (case split_on c xs of [] \<Rightarrow> [[x]] | w # ws \<Rightarrow> (x # w) # ws))"

fun join_with :: "'a list \<Rightarrow> 'a list list \<Rightarrow> 'a list" where
  "join_with sep [] = []"
| "join_with sep [w] = w"
| "join_with sep (w # v # ws) = w @ sep @ join_with sep (v # ws)"

lemma split_on_nonempty [simp]: "split_on c xs \<noteq> []"
  by (induction xs) (auto split: list.splits)

lemma split_on_no_sep: "c \<notin> set w \<Longrightarrow> split_on c w = [w]"
  by (induction w) auto

lemma split_on_append_sep: "split_on c (xs @ c # ys) = split_on c xs @ split_on c ys"
proof (induction xs)
  case Nil
  show ?case by simp
next
  case (Cons x xs)
  then show ?case by (cases "split_on c xs") auto
qed

lemma split_on_no_sep_in_pieces: "w \<in> set (split_on c xs) \<Longrightarrow> c \<notin> set w"
proof (induction xs arbitrary: w)
  case Nil
  then show ?case by simp
next
  case (Cons x xs)
  then show ?case by (cases "split_on c xs") (auto split: if_splits)
qed

lemma split_on_join:
  assumes "ws \<noteq> []" and "\<forall>w\<in>set ws. c \<notin> set w"
  shows "split_on c (join_with [c] ws) = ws"
  using assms by (induction "[c]" ws rule: join_with.induct)
    (auto simp: split_on_no_sep split_on_append_sep)

lemma hd_split_on: "hd (split_on c xs) = takeWhile (\<lambda>x. x \<noteq> c) xs"
proof (induction xs)
  case Nil
  show ?case by simp
next
  case (Cons x xs)
  then show ?case by (cases "split_on c xs") auto
qed


section \<open>Decimal rendering\<close>

function show_nat :: "nat \<Rightarrow> string" where
  "show_nat n =
     (if n < 10 then [char_of (48 + n)] else show_nat (n div 10) @ [char_of (48 + n mod 10)])"
  by pat_completeness auto
termination
  by (relation "measure id") auto

declare show_nat.simps [simp del]

lemma show_nat_nonempty [simp]: "show_nat n \<noteq> []"
  by (subst show_nat.simps) simp

lemma show_nat_no_char:
  assumes "of_char c < (48::nat) \<or> 57 < (of_char c :: nat)"
  shows "c \<notin> set (show_nat n)"
proof (induction n rule: show_nat.induct)
  case (1 n)
  have digit: "c \<noteq> char_of (48 + d)" if "d < 10" for d :: nat
  proof
    assume "c = char_of (48 + d)"
    then have "of_char c = (48 + d) mod 256" by simp
    then show False using assms that by simp
  qed
  show ?case
  proof (cases "n < 10")
    case True
    then show ?thesis using digit[of n] by (subst show_nat.simps) simp
  next
    case False
    then show ?thesis
      using "1.IH" digit[of "n mod 10"] by (subst show_nat.simps) simp
  qed
qed


section \<open>Big-endian bytes of a \<^verbatim>\<open>u32\<close>\<close>

definition to_be_bytes :: "u32 \<Rightarrow> byte list" where
  "to_be_bytes w =
     [ucast (drop_bit 24 w), ucast (drop_bit 16 w), ucast (drop_bit 8 w), ucast w]"

definition from_be_bytes :: "byte list \<Rightarrow> u32" where
  "from_be_bytes bs = foldl (\<lambda>acc b. push_bit 8 acc OR ucast b) 0 bs"

lemma length_to_be_bytes [simp]: "length (to_be_bytes w) = 4"
  by (simp add: to_be_bytes_def)

lemma from_to_be_bytes [simp]: "from_be_bytes (to_be_bytes w) = w"
proof (rule bit_word_eqI)
  fix n assume "n < LENGTH(32)"
  then consider "n < 8" | "8 \<le> n" "n < 16" | "16 \<le> n" "n < 24" | "24 \<le> n" "n < 32"
    by fastforce
  then show "bit (from_be_bytes (to_be_bytes w)) n = bit w n"
    by cases (auto simp: to_be_bytes_def from_be_bytes_def bit_simps less_diff_conv2)
qed

end
