(* ===== verification/Paths.thy ===== *)
theory Paths
  imports Prelude
begin

text \<open>
  The part of \<^verbatim>\<open>std::path\<close> (Unix) the program relies on. A \<^verbatim>\<open>PathBuf\<close> is its byte
  string; comparison, hashing, \<^verbatim>\<open>parent\<close>, \<^verbatim>\<open>file_name\<close>, \<^verbatim>\<open>starts_with\<close> and
  \<^verbatim>\<open>strip_prefix\<close> all go through \<open>components\<close>, as in the standard library, which
  drops repeated and trailing separators and interior \<^verbatim>\<open>.\<close> pieces. Where the library
  returns a slice of the original string (\<^verbatim>\<open>parent\<close>, \<^verbatim>\<open>strip_prefix\<close>) the model
  returns the normal rendering of the same components, an equal \<^verbatim>\<open>Path\<close>.
\<close>

section \<open>Paths and their components\<close>

type_synonym path = string
type_synonym name = string

datatype component = RootDir | CurDir | ParentDir | Normal name

abbreviation slash :: char where
  "slash \<equiv> CHR ''/''"

definition has_root :: "path \<Rightarrow> bool" where
  "has_root p \<longleftrightarrow> (case p of [] \<Rightarrow> False | c # _ \<Rightarrow> c = slash)"

definition classify :: "name \<Rightarrow> component" where
  "classify w = (if w = ''..'' then ParentDir else Normal w)"

definition body_components :: "name list \<Rightarrow> component list" where
  "body_components ws = map classify (filter (\<lambda>w. w \<noteq> [] \<and> w \<noteq> ''.'') ws)"

definition components :: "path \<Rightarrow> component list" where
  "components p =
     (if has_root p then [RootDir]
      else if hd (split_on slash p) = ''.'' then [CurDir] else [])
     @ body_components (split_on slash p)"

fun comp_string :: "component \<Rightarrow> name" where
  "comp_string RootDir = []"
| "comp_string CurDir = ''.''"
| "comp_string ParentDir = ''..''"
| "comp_string (Normal n) = n"

text \<open>The path written with single separators whose components these are.\<close>

fun render :: "component list \<Rightarrow> path" where
  "render [] = []"
| "render [RootDir] = [slash]"
| "render cs = join_with [slash] (map comp_string cs)"

definition path_eq :: "path \<Rightarrow> path \<Rightarrow> bool" where
  "path_eq p q \<longleftrightarrow> components p = components q"

text \<open>\<^verbatim>\<open>Path::join\<close>: an absolute argument replaces the base.\<close>

definition path_join :: "path \<Rightarrow> path \<Rightarrow> path" where
  "path_join p q =
     (if has_root q then q
      else if p = [] \<or> last p = slash then p @ q
      else p @ [slash] @ q)"

definition path_parent :: "path \<Rightarrow> path option" where
  "path_parent p =
     (case rev (components p) of
        [] \<Rightarrow> None
      | RootDir # _ \<Rightarrow> None
      | _ # cs \<Rightarrow> Some (render (rev cs)))"

definition path_file_name :: "path \<Rightarrow> name option" where
  "path_file_name p =
     (case rev (components p) of Normal n # _ \<Rightarrow> Some n | _ \<Rightarrow> None)"

definition path_starts_with :: "path \<Rightarrow> path \<Rightarrow> bool" where
  "path_starts_with p base \<longleftrightarrow> prefix (components base) (components p)"

definition strip_prefix :: "path \<Rightarrow> path \<Rightarrow> path option" where
  "strip_prefix p base =
     (if prefix (components base) (components p)
      then Some (render (drop (length (components base)) (components p)))
      else None)"


section \<open>Normal component lists\<close>

text \<open>A file name: non-empty, without a separator, neither \<^verbatim>\<open>.\<close> nor \<^verbatim>\<open>..\<close>.\<close>

definition name_ok :: "name \<Rightarrow> bool" where
  "name_ok n \<longleftrightarrow> n \<noteq> [] \<and> slash \<notin> set n \<and> n \<noteq> ''.'' \<and> n \<noteq> ''..''"

fun body_ok :: "component \<Rightarrow> bool" where
  "body_ok ParentDir = True"
| "body_ok (Normal n) = name_ok n"
| "body_ok _ = False"

text \<open>What \<open>components\<close> yields: root or \<^verbatim>\<open>.\<close> only in front.\<close>

definition comps_ok :: "component list \<Rightarrow> bool" where
  "comps_ok cs \<longleftrightarrow>
     (case cs of [] \<Rightarrow> True
      | c # ds \<Rightarrow> (c = RootDir \<or> c = CurDir \<or> body_ok c) \<and> list_all body_ok ds)"

lemma body_components_ok:
  "list_all (\<lambda>w. slash \<notin> set w) ws \<Longrightarrow> list_all body_ok (body_components ws)"
  by (induction ws) (auto simp: body_components_def classify_def name_ok_def)

lemma body_components_append [simp]:
  "body_components (xs @ ys) = body_components xs @ body_components ys"
  by (simp add: body_components_def)

lemma body_components_Nil [simp]: "body_components [] = []"
  by (simp add: body_components_def)

lemma body_components_skip [simp]:
  "body_components ([] # ws) = body_components ws"
  "body_components (''.'' # ws) = body_components ws"
  by (simp_all add: body_components_def)

lemma body_components_split_ok [simp]: "list_all body_ok (body_components (split_on slash p))"
  by (rule body_components_ok) (simp add: list_all_iff split_on_no_sep_in_pieces)

lemma comps_ok_components [simp]: "comps_ok (components p)"
proof (cases "body_components (split_on slash p)")
  case Nil
  then show ?thesis by (simp add: components_def comps_ok_def)
next
  case (Cons c cs)
  then show ?thesis using body_components_split_ok[of p]
    by (simp add: components_def comps_ok_def)
qed

lemma comp_string_body [simp]:
  "body_ok c \<Longrightarrow> comp_string c \<noteq> [] \<and> comp_string c \<noteq> ''.'' \<and> slash \<notin> set (comp_string c)"
  by (cases c) (auto simp: name_ok_def)

lemma classify_comp_string [simp]: "body_ok c \<Longrightarrow> classify (comp_string c) = c"
  by (cases c) (auto simp: classify_def name_ok_def)

lemma body_components_strings:
  "list_all body_ok cs \<Longrightarrow> body_components (map comp_string cs) = cs"
  by (induction cs) (auto simp: body_components_def)


lemma first_piece_render:
  assumes "list_all body_ok cs" and "cs \<noteq> []"
  shows "hd (split_on slash (join_with [slash] (map comp_string cs))) = comp_string (hd cs)"
  using assms by (subst split_on_join) (auto simp: list_all_iff hd_map)

lemma has_root_join_strings:
  assumes "list_all body_ok cs"
  shows "\<not> has_root (join_with [slash] (map comp_string cs))"
proof (cases cs)
  case Nil
  then show ?thesis by (simp add: has_root_def)
next
  case (Cons c ds)
  with assms have c: "comp_string c \<noteq> []" "slash \<notin> set (comp_string c)" by auto
  then obtain x xs where x: "comp_string c = x # xs" "x \<noteq> slash" by (cases "comp_string c") auto
  then show ?thesis using Cons by (cases ds) (auto simp: has_root_def)
qed

lemma render_body:
  assumes "list_all body_ok cs"
  shows "render cs = join_with [slash] (map comp_string cs)"
  using assms by (cases cs rule: render.cases) auto

lemma components_body:
  assumes "list_all body_ok cs"
  shows "components (join_with [slash] (map comp_string cs)) = cs"
proof (cases "cs = []")
  case True
  then show ?thesis by (simp add: components_def has_root_def body_components_def)
next
  case False
  have "split_on slash (join_with [slash] (map comp_string cs)) = map comp_string cs"
    using assms False by (subst split_on_join) (auto simp: list_all_iff)
  moreover have "comp_string (hd cs) \<noteq> ''.''"
    using assms False by (cases cs) auto
  ultimately show ?thesis
    using assms False has_root_join_strings[OF assms]
    by (simp add: components_def body_components_strings hd_map)
qed

lemma components_rooted:
  assumes "list_all body_ok cs" and "cs \<noteq> []"
  shows "components (slash # join_with [slash] (map comp_string cs)) = RootDir # cs"
proof -
  have "split_on slash (join_with [slash] (map comp_string cs)) = map comp_string cs"
    using assms by (subst split_on_join) (auto simp: list_all_iff)
  then show ?thesis
    using assms by (simp add: components_def has_root_def body_components_strings)
qed

text \<open>Rendering a normal component list and reading it back loses nothing.\<close>

lemma components_render [simp]:
  assumes "comps_ok cs"
  shows "components (render cs) = cs"
proof (cases cs)
  case Nil
  then show ?thesis by (simp add: components_def has_root_def body_components_def)
next
  case (Cons c ds)
  from assms Cons have ds: "list_all body_ok ds" and c: "c = RootDir \<or> c = CurDir \<or> body_ok c"
    by (auto simp: comps_ok_def)
  consider "c = RootDir" "ds = []" | "c = RootDir" "ds \<noteq> []" | "c = CurDir" | "body_ok c"
    using c by blast
  then show ?thesis
  proof cases
    case 1
    then show ?thesis using Cons
      by (simp add: components_def has_root_def body_components_def)
  next
    case 2
    then obtain d es where "ds = d # es" by (cases ds) auto
    then show ?thesis using 2 Cons components_rooted[OF ds 2(2)] by simp
  next
    case 3
    show ?thesis
    proof (cases "ds = []")
      case True
      then show ?thesis using 3 Cons
        by (simp add: components_def has_root_def body_components_def)
    next
      case False
      have "split_on slash (''.'' @ [slash] @ join_with [slash] (map comp_string ds))
          = ''.'' # map comp_string ds"
        using ds False by (simp add: split_on_join list_all_iff)
      moreover have "render cs = ''.'' @ [slash] @ join_with [slash] (map comp_string ds)"
        using 3 Cons False by (cases ds) auto
      ultimately show ?thesis using 3 Cons ds
        by (simp add: components_def has_root_def body_components_strings)
    qed
  next
    case 4
    then show ?thesis using Cons ds components_body[of cs] render_body[of cs] by simp
  qed
qed


section \<open>Joining, parents and prefixes at component level\<close>

lemma components_Nil [simp]: "components [] = []"
  by (simp add: components_def has_root_def)

lemma components_root [simp]: "components ''/'' = [RootDir]"
  by (simp add: components_def has_root_def)

lemma components_Nil_iff: "components p = [] \<Longrightarrow> \<not> has_root p"
  by (auto simp: components_def)

lemma components_nonempty: "p \<noteq> [] \<Longrightarrow> components p \<noteq> []"
proof
  assume p: "p \<noteq> []" and no: "components p = []"
  then have nr: "\<not> has_root p" and dot: "hd (split_on slash p) \<noteq> ''.''"
    and body: "body_components (split_on slash p) = []"
    by (auto simp: components_def split: if_splits)
  obtain w ws where w: "split_on slash p = w # ws" by (cases "split_on slash p") auto
  then have "w = []" using dot body by (auto simp: body_components_def split: if_splits)
  then have "takeWhile (\<lambda>x. x \<noteq> slash) p = []" using hd_split_on[of slash p] w by simp
  then show False using p nr by (cases p) (auto simp: has_root_def split: if_splits)
qed

lemma has_root_components: "has_root p \<longleftrightarrow> (\<exists>cs. components p = RootDir # cs)"
  using body_components_split_ok[of p]
  by (cases "body_components (split_on slash p)") (auto simp: components_def)

lemma has_root_append [simp]: "p \<noteq> [] \<Longrightarrow> has_root (p @ q) = has_root p"
  by (cases p) (auto simp: has_root_def)

lemma components_join_root [simp]: "has_root q \<Longrightarrow> components (path_join p q) = components q"
  by (simp add: path_join_def)

lemma components_append_sep:
  assumes "p \<noteq> []"
  shows "components (p @ slash # q) = components p @ body_components (split_on slash q)"
  using assms by (simp add: components_def split_on_append_sep)

lemma components_trailing_sep:
  assumes "p \<noteq> []"
  shows "components (p @ [slash]) = components p"
  using components_append_sep[OF assms, of "[]"] by simp

text \<open>Joining a relative path appends its pieces to the components of the base.\<close>

lemma components_join:
  assumes "\<not> has_root q" and "p \<noteq> []"
  shows "components (path_join p q) = components p @ body_components (split_on slash q)"
proof (cases "last p = slash")
  case True
  then obtain p' where p': "p = p' @ [slash]"
    using assms(2) by (metis append_butlast_last_id)
  show ?thesis
  proof (cases "p' = []")
    case True
    then show ?thesis using p' assms
      by (simp add: path_join_def components_def has_root_def)
  next
    case False
    then show ?thesis using p' assms True
      by (simp add: path_join_def components_append_sep components_trailing_sep)
  qed
next
  case False
  then show ?thesis using assms by (simp add: path_join_def components_append_sep)
qed

lemma body_components_name [simp]:
  "name_ok n \<Longrightarrow> body_components (split_on slash n) = [Normal n]"
  by (simp add: split_on_no_sep name_ok_def body_components_def classify_def)

lemma name_ok_not_rooted [simp]: "name_ok n \<Longrightarrow> \<not> has_root n"
  by (cases n) (auto simp: has_root_def name_ok_def)

lemma components_join_name [simp]:
  "name_ok n \<Longrightarrow> p \<noteq> [] \<Longrightarrow> components (path_join p n) = components p @ [Normal n]"
  by (simp add: components_join)

lemma list_all_body_comps_ok: "list_all body_ok cs \<Longrightarrow> comps_ok cs"
  by (cases cs) (auto simp: comps_ok_def)

lemma comps_ok_rooted [simp]: "comps_ok (RootDir # cs) \<longleftrightarrow> list_all body_ok cs"
  by (simp add: comps_ok_def)

lemma comps_ok_snocD: "comps_ok (cs @ [c]) \<Longrightarrow> comps_ok cs"
  by (cases cs) (auto simp: comps_ok_def)

lemma rooted_body:
  "components p = RootDir # cs \<Longrightarrow> list_all body_ok cs"
  using comps_ok_components[of p] by simp

lemma strip_root:
  assumes "components p = RootDir # cs"
  shows "\<exists>r. strip_prefix p ''/'' = Some r \<and> components r = cs \<and> \<not> has_root r"
proof -
  have ok: "list_all body_ok cs" using assms by (rule rooted_body)
  then have "components (render cs) = cs" by (simp add: list_all_body_comps_ok)
  moreover have "\<not> has_root (render cs)"
    using ok by (simp add: render_body has_root_join_strings)
  ultimately show ?thesis using assms by (simp add: strip_prefix_def)
qed

lemma strip_root_relative: "\<not> has_root p \<Longrightarrow> strip_prefix p ''/'' = None"
  by (auto simp: strip_prefix_def has_root_components prefix_def)

lemma components_relative_body:
  assumes "\<not> has_root p" and "list_all body_ok (components p)"
  shows "body_components (split_on slash p) = components p"
  using assms by (cases "hd (split_on slash p) = ''.''") (auto simp: components_def)

lemma path_parent_snoc:
  assumes "components p = cs @ [c]" and "c \<noteq> RootDir"
  shows "\<exists>q. path_parent p = Some q \<and> components q = cs"
proof -
  have "comps_ok cs" using comps_ok_components[of p] assms(1) by (simp add: comps_ok_snocD)
  then show ?thesis using assms by (auto simp: path_parent_def split: component.splits)
qed

lemma path_file_name_snoc:
  "components p = cs @ [Normal n] \<Longrightarrow> path_file_name p = Some n"
  by (simp add: path_file_name_def)

lemma path_parent_root: "components p = [RootDir] \<Longrightarrow> path_parent p = None"
  by (simp add: path_parent_def)


section \<open>Absolute paths of file names\<close>

text \<open>What \<^verbatim>\<open>canonicalize\<close> yields: the root and plain names only.\<close>

definition abs_path :: "name list \<Rightarrow> path" where
  "abs_path ks = render (RootDir # map Normal ks)"

lemma list_all_body_Normal [simp]: "list_all body_ok (map Normal ks) = list_all name_ok ks"
  by (induction ks) auto

lemma components_abs_path [simp]:
  "list_all name_ok ks \<Longrightarrow> components (abs_path ks) = RootDir # map Normal ks"
  by (simp add: abs_path_def)

lemma prefix_map_Normal [simp]: "prefix (map Normal as) (map Normal bs) \<longleftrightarrow> prefix as bs"
  by (induction as bs rule: list_induct2') auto

lemma abs_path_starts_with [simp]:
  "list_all name_ok as \<Longrightarrow> list_all name_ok bs \<Longrightarrow>
     path_starts_with (abs_path bs) (abs_path as) \<longleftrightarrow> prefix as bs"
  by (simp add: path_starts_with_def)

end
