(* ===== verification/Vfs.thy ===== *)
theory Vfs
  imports Paths
begin

text \<open>
  The VFS vocabulary of \<^verbatim>\<open>tokimo-packages-vm-core/src/lib.rs\<close>: entry kinds,
  attributes, directory entries, \<^verbatim>\<open>VfsError\<close> with its messages, and the trait
  \<^verbatim>\<open>TokimoVfs\<close> as a record of its ten methods over an explicit state \<open>'s\<close> (what
  \<^verbatim>\<open>&self\<close> refers to). Two interfaces are stated as locales: what every provider
  promises its clients, and what a provider that never writes promises in addition.
\<close>

section \<open>Entries, attributes, errors\<close>

datatype fs_kind = File | Dir | Symlink

record file_attr =
  fa_size :: u64
  fa_mode :: u32
  fa_kind :: fs_kind
  fa_mtime_secs :: i64
  fa_atime_secs :: i64
  fa_ctime_secs :: i64

record dir_entry =
  de_name :: name
  de_kind :: fs_kind

datatype vfs_error =
    NotFound | PermissionDenied | AlreadyExists | NotADirectory | IsADirectory | Io string

text \<open>The \<^verbatim>\<open>Display\<close> messages of \<^verbatim>\<open>VfsError\<close> (its \<^verbatim>\<open>#[error]\<close> attributes).\<close>

fun vfs_error_msg :: "vfs_error \<Rightarrow> string" where
  "vfs_error_msg NotFound = ''not found''"
| "vfs_error_msg PermissionDenied = ''permission denied''"
| "vfs_error_msg AlreadyExists = ''already exists''"
| "vfs_error_msg NotADirectory = ''not a directory''"
| "vfs_error_msg IsADirectory = ''is a directory''"
| "vfs_error_msg (Io s) = ''io: '' @ s"

type_synonym ('s, 'a) vfs_call = "('s, 'a, vfs_error) call"


section \<open>The trait \<^verbatim>\<open>TokimoVfs\<close>\<close>

record 's tokimo_vfs =
  vfs_stat :: "path \<Rightarrow> ('s, file_attr) vfs_call"
  vfs_list :: "path \<Rightarrow> ('s, dir_entry list) vfs_call"
  vfs_read :: "path \<Rightarrow> u64 \<Rightarrow> u32 \<Rightarrow> ('s, byte list) vfs_call"
  vfs_write :: "path \<Rightarrow> u64 \<Rightarrow> byte list \<Rightarrow> ('s, u32) vfs_call"
  vfs_create :: "path \<Rightarrow> u32 \<Rightarrow> ('s, file_attr) vfs_call"
  vfs_mkdir :: "path \<Rightarrow> u32 \<Rightarrow> ('s, file_attr) vfs_call"
  vfs_remove :: "path \<Rightarrow> ('s, unit) vfs_call"
  vfs_rmdir :: "path \<Rightarrow> ('s, unit) vfs_call"
  vfs_rename :: "path \<Rightarrow> path \<Rightarrow> ('s, unit) vfs_call"
  vfs_truncate :: "path \<Rightarrow> u64 \<Rightarrow> ('s, unit) vfs_call"


section \<open>What a provider promises\<close>

text \<open>
  \<open>inv\<close> is the provider's invariant: every method keeps it. The three query methods
  leave the state alone, a read returns at most the bytes asked for, and a
  successful write reports the length of its data as a \<^verbatim>\<open>u32\<close>.
\<close>

locale vfs_provider =
  fixes V :: "'s tokimo_vfs"
    and inv :: "'s \<Rightarrow> bool"
  assumes stat_query: "snd (vfs_stat V p s) = s"
    and list_query: "snd (vfs_list V p s) = s"
    and read_query: "snd (vfs_read V p off len s) = s"
    and read_bound: "inv s \<Longrightarrow> fst (vfs_read V p off len s) = Ok bs \<Longrightarrow> length bs \<le> unat len"
    and write_count: "fst (vfs_write V p off bs s) = Ok n \<Longrightarrow> n = of_nat (length bs)"
    and write_inv: "inv s \<Longrightarrow> inv (snd (vfs_write V p off bs s))"
    and create_inv: "inv s \<Longrightarrow> inv (snd (vfs_create V p mode s))"
    and mkdir_inv: "inv s \<Longrightarrow> inv (snd (vfs_mkdir V p mode s))"
    and remove_inv: "inv s \<Longrightarrow> inv (snd (vfs_remove V p s))"
    and rmdir_inv: "inv s \<Longrightarrow> inv (snd (vfs_rmdir V p s))"
    and rename_inv: "inv s \<Longrightarrow> inv (snd (vfs_rename V p q s))"
    and truncate_inv: "inv s \<Longrightarrow> inv (snd (vfs_truncate V p sz s))"

text \<open>A provider whose seven mutating methods leave the state alone as well.\<close>

locale readonly_provider = vfs_provider +
  assumes write_ro: "snd (vfs_write V p off bs s) = s"
    and create_ro: "snd (vfs_create V p mode s) = s"
    and mkdir_ro: "snd (vfs_mkdir V p mode s) = s"
    and remove_ro: "snd (vfs_remove V p s) = s"
    and rmdir_ro: "snd (vfs_rmdir V p s) = s"
    and rename_ro: "snd (vfs_rename V p q s) = s"
    and truncate_ro: "snd (vfs_truncate V p sz s) = s"

end
