(* ===== verification/Config.thy ===== *)
theory Config
  imports Vfs
begin

text \<open>
  The rest of \<^verbatim>\<open>tokimo-packages-vm-core/src/lib.rs\<close>: errors, network and image settings,
  the sandbox configuration with its builder, mounts, guest commands and the life-cycle
  states. The VFS of a mount (\<^verbatim>\<open>Arc<dyn TokimoVfs>\<close>) is a value of type \<open>'v\<close>; ids are
  numbers (\<^verbatim>\<open>Uuid::new_v4\<close> is a source of fresh values).
\<close>

section \<open>Errors and states\<close>

datatype error =
    NotStarted
  | AlreadyStarted
  | Unsupported string
  | ConfigError string
  | IoError string
  | Hypervisor string
  | VfsFailed vfs_error
  | OtherError string

fun error_msg :: "error \<Rightarrow> string" where
  "error_msg NotStarted = ''sandbox not started''"
| "error_msg AlreadyStarted = ''sandbox already started''"
| "error_msg (Unsupported s) = ''unsupported on this backend: '' @ s"
| "error_msg (ConfigError s) = ''invalid config: '' @ s"
| "error_msg (IoError s) = ''i/o: '' @ s"
| "error_msg (Hypervisor s) = ''hypervisor: '' @ s"
| "error_msg (VfsFailed e) = ''vfs: '' @ vfs_error_msg e"
| "error_msg (OtherError s) = ''other: '' @ s"

datatype sandbox_state = Created | Starting | Running | Stopping | Stopped | FailedState

type_synonym uid = nat


section \<open>Network and image\<close>

datatype protocol = Tcp | Udp

record port_forward =
  pf_host_port :: u16
  pf_guest_port :: u16
  pf_protocol :: protocol

record network_spec =
  ns_user_mode :: bool
  ns_port_forwards :: "port_forward list"
  ns_dns :: "string list option"

definition network_default :: network_spec where
  "network_default = \<lparr>ns_user_mode = True, ns_port_forwards = [], ns_dns = None\<rparr>"

record image_paths =
  im_kernel :: path
  im_initrd :: path
  im_rootfs :: "path option"

text \<open>What the process sees of its environment: a variable, the working directory, the files.\<close>

record proc_env =
  pe_img_dir :: "path option"  \<comment> \<open>\<^verbatim>\<open>TOKIMO_IMG_DIR\<close>\<close>
  pe_cwd :: "path option"
  pe_temp_dir :: path
  pe_pid :: nat
  pe_exists :: "path \<Rightarrow> bool"

fun flatten_opts :: "'a option list \<Rightarrow> 'a list" where
  "flatten_opts [] = []"
| "flatten_opts (None # xs) = flatten_opts xs"
| "flatten_opts (Some x # xs) = x # flatten_opts xs"

definition image_candidates :: "proc_env \<Rightarrow> path list" where
  "image_candidates env =
     flatten_opts
       [pe_img_dir env,
        map_option (\<lambda>p. path_join p ''img'') (pe_cwd env),
        map_option (\<lambda>p. path_join p ''assets'') (pe_cwd env)]"

fun find_image :: "(path \<Rightarrow> bool) \<Rightarrow> path list \<Rightarrow> image_paths option" where
  "find_image ex [] = None"
| "find_image ex (dir # dirs) =
     (let kernel = path_join dir ''vmlinuz'';
          initrd1 = path_join dir ''initrd.img'';
          initrd2 = path_join dir ''initramfs.img'';
          initrd = (if ex initrd1 then initrd1 else initrd2)
      in if ex kernel \<and> ex initrd then
           (let rootfs = path_join dir ''rootfs.squashfs''
            in Some \<lparr>im_kernel = kernel, im_initrd = initrd,
                     im_rootfs = (if ex rootfs then Some rootfs else None)\<rparr>)
         else find_image ex dirs)"

definition from_env_or_default :: "proc_env \<Rightarrow> image_paths option" where
  "from_env_or_default env = find_image (pe_exists env) (image_candidates env)"


section \<open>Mounts and the configuration\<close>

datatype 'v mount_spec =
    HostDir (ms_guest_path: string) path (ms_read_only: bool) (ms_tag: string)
  | VfsMount (ms_guest_path: string) 'v (ms_read_only: bool) (ms_tag: string)

record 'v sandbox_config =
  sc_name :: string
  sc_vcpus :: u32
  sc_memory_mib :: u32
  sc_runtime_dir :: "path option"
  sc_image :: "image_paths option"
  sc_extra_cmdline :: "string list"
  sc_mounts :: "'v mount_spec list"
  sc_network :: network_spec
  sc_interactive_serial :: bool

definition sandbox_config_new :: "string \<Rightarrow> 'v sandbox_config" where
  "sandbox_config_new name =
     \<lparr>sc_name = name, sc_vcpus = 1, sc_memory_mib = 256, sc_runtime_dir = None, sc_image = None,
      sc_extra_cmdline = [], sc_mounts = [], sc_network = network_default,
      sc_interactive_serial = False\<rparr>"

definition with_vcpus :: "u32 \<Rightarrow> 'v sandbox_config \<Rightarrow> 'v sandbox_config" where
  "with_vcpus n cfg = cfg\<lparr>sc_vcpus := n\<rparr>"

definition with_memory_mib :: "u32 \<Rightarrow> 'v sandbox_config \<Rightarrow> 'v sandbox_config" where
  "with_memory_mib m cfg = cfg\<lparr>sc_memory_mib := m\<rparr>"

definition with_mount :: "'v mount_spec \<Rightarrow> 'v sandbox_config \<Rightarrow> 'v sandbox_config" where
  "with_mount m cfg = cfg\<lparr>sc_mounts := sc_mounts cfg @ [m]\<rparr>"

definition with_image :: "image_paths \<Rightarrow> 'v sandbox_config \<Rightarrow> 'v sandbox_config" where
  "with_image i cfg = cfg\<lparr>sc_image := Some i\<rparr>"

definition with_runtime_dir :: "path \<Rightarrow> 'v sandbox_config \<Rightarrow> 'v sandbox_config" where
  "with_runtime_dir p cfg = cfg\<lparr>sc_runtime_dir := Some p\<rparr>"

definition with_network :: "network_spec \<Rightarrow> 'v sandbox_config \<Rightarrow> 'v sandbox_config" where
  "with_network n cfg = cfg\<lparr>sc_network := n\<rparr>"

definition with_interactive_serial :: "bool \<Rightarrow> 'v sandbox_config \<Rightarrow> 'v sandbox_config" where
  "with_interactive_serial v cfg = cfg\<lparr>sc_interactive_serial := v\<rparr>"


section \<open>Guest commands\<close>

record exec_spec =
  ex_program :: string
  ex_args :: "string list"
  ex_env :: "(string \<times> string) list"
  ex_cwd :: "path option"

definition exec_spec_new :: "string \<Rightarrow> exec_spec" where
  "exec_spec_new program = \<lparr>ex_program = program, ex_args = [], ex_env = [], ex_cwd = None\<rparr>"

definition exec_arg :: "string \<Rightarrow> exec_spec \<Rightarrow> exec_spec" where
  "exec_arg a s = s\<lparr>ex_args := ex_args s @ [a]\<rparr>"

record exec_output =
  eo_id :: uid
  eo_exit_code :: "int option"
  eo_stdout :: "byte list"
  eo_stderr :: "byte list"


section \<open>Which image is taken\<close>

text \<open>A directory holds an image when it has a kernel and one of the two initial ramdisks.\<close>

definition has_image :: "(path \<Rightarrow> bool) \<Rightarrow> path \<Rightarrow> bool" where
  "has_image ex dir \<longleftrightarrow> ex (path_join dir ''vmlinuz'') \<and>
     (ex (path_join dir ''initrd.img'') \<or> ex (path_join dir ''initramfs.img''))"

lemma find_image_None: "find_image ex dirs = None \<longleftrightarrow> (\<forall>d \<in> set dirs. \<not> has_image ex d)"
  by (induction dirs) (auto simp: has_image_def Let_def)

lemma find_image_Some:
  assumes "find_image ex dirs = Some im"
  shows "\<exists>pre d post. dirs = pre @ d # post \<and> (\<forall>d' \<in> set pre. \<not> has_image ex d') \<and> has_image ex d \<and>
    im_kernel im = path_join d ''vmlinuz'' \<and>
    im_initrd im = path_join d (if ex (path_join d ''initrd.img'') then ''initrd.img'' else ''initramfs.img'') \<and>
    im_rootfs im = (if ex (path_join d ''rootfs.squashfs'') then Some (path_join d ''rootfs.squashfs'') else None)"
  using assms
proof (induction dirs)
  case Nil
  then show ?case by simp
next
  case (Cons dir dirs)
  show ?case
  proof (cases "has_image ex dir")
    case True
    then show ?thesis using Cons.prems
      by (intro exI[of _ "[]"] exI[of _ dir] exI[of _ dirs]) (auto simp: has_image_def Let_def)
  next
    case False
    then have "find_image ex dirs = Some im"
      using Cons.prems by (auto simp: has_image_def Let_def split: if_splits)
    from Cons.IH[OF this] obtain pre d post where "dirs = pre @ d # post \<and>
        (\<forall>d' \<in> set pre. \<not> has_image ex d') \<and> has_image ex d \<and>
        im_kernel im = path_join d ''vmlinuz'' \<and>
        im_initrd im = path_join d (if ex (path_join d ''initrd.img'') then ''initrd.img'' else ''initramfs.img'') \<and>
        im_rootfs im = (if ex (path_join d ''rootfs.squashfs'') then Some (path_join d ''rootfs.squashfs'') else None)"
      by blast
    then show ?thesis using False by (intro exI[of _ "dir # pre"]) auto
  qed
qed

text \<open>The image taken is the one in the first of \<^verbatim>\<open>TOKIMO_IMG_DIR\<close>, \<^verbatim>\<open>img\<close> and \<^verbatim>\<open>assets\<close>
  that has a kernel and an initial ramdisk: all its files exist, no earlier directory has
  an image, and without any such directory there is none.\<close>

theorem image_search:
  "(case from_env_or_default env of
      None \<Rightarrow> \<forall>d \<in> set (image_candidates env). \<not> has_image (pe_exists env) d
    | Some im \<Rightarrow>
        pe_exists env (im_kernel im) \<and> pe_exists env (im_initrd im) \<and>
        (\<forall>r. im_rootfs im = Some r \<longrightarrow> pe_exists env r) \<and>
        (\<exists>pre d post. image_candidates env = pre @ d # post \<and> im_kernel im = path_join d ''vmlinuz'' \<and>
           (\<forall>d' \<in> set pre. \<not> has_image (pe_exists env) d')))"
proof (cases "from_env_or_default env")
  case None
  then have "\<forall>d \<in> set (image_candidates env). \<not> has_image (pe_exists env) d"
    by (simp add: from_env_or_default_def find_image_None)
  then show ?thesis using None by simp
next
  case (Some im)
  then have "find_image (pe_exists env) (image_candidates env) = Some im"
    by (simp add: from_env_or_default_def)
  from find_image_Some[OF this] show ?thesis
    using Some by (fastforce simp: has_image_def)
qed

definition sample_env :: proc_env where
  "sample_env = \<lparr>pe_img_dir = None, pe_cwd = Some ''/w'', pe_temp_dir = ''/tmp'', pe_pid = 7,
     pe_exists = (\<lambda>p. p \<in> {''/w/assets/vmlinuz'', ''/w/assets/initramfs.img''})\<rparr>"

theorem image_search_witness:
  "from_env_or_default sample_env =
     Some \<lparr>im_kernel = ''/w/assets/vmlinuz'', im_initrd = ''/w/assets/initramfs.img'', im_rootfs = None\<rparr> \<and>
   pe_exists sample_env ''/w/assets/initramfs.img''"
proof -
  have "from_env_or_default sample_env =
     Some \<lparr>im_kernel = ''/w/assets/vmlinuz'', im_initrd = ''/w/assets/initramfs.img'', im_rootfs = None\<rparr>"
    by code_simp
  then show ?thesis using image_search[of sample_env] by simp
qed

end
