(* ===== verification/Qmp.thy ===== *)
theory Qmp
  imports Config
begin

text \<open>
  The QMP client of the Linux backend (\<^verbatim>\<open>tokimo-packages-vm-linux/src/qmp.rs\<close>). JSON
  (\<^verbatim>\<open>serde_json\<close>) is a parameter: parsing, member lookup, printing and building of
  values. A connection is the lines the peer will send, in order, whether it then closes,
  the lines written, and whether writing still works; \<open>None\<close> is a call that waits for ever.
\<close>

section \<open>The connection\<close>

record 'j json_api =
  js_parse :: "string \<Rightarrow> ('j, string) result"
  js_get :: "'j \<Rightarrow> string \<Rightarrow> 'j option"
  js_show :: "'j \<Rightarrow> string"
  js_request :: "string \<Rightarrow> 'j option \<Rightarrow> 'j"  \<comment> \<open>the request object: the command and its arguments\<close>

record qmp_conn =
  qm_in :: "string list"
  qm_closed :: bool
  qm_out :: "string list"
  qm_broken :: bool

datatype 'a awaited = Done 'a | Pending

definition qmp_read_message :: "'j json_api \<Rightarrow> qmp_conn \<Rightarrow> ('j, string) result awaited \<times> qmp_conn" where
  "qmp_read_message js c =
     (case qm_in c of
        [] \<Rightarrow> (if qm_closed c then Done (Err ''QMP closed'') else Pending, c)
      | line # rest \<Rightarrow> (Done (js_parse js line), c\<lparr>qm_in := rest\<rparr>))"

text \<open>The loop of \<^verbatim>\<open>execute\<close>: events are skipped until a return or an error arrives.\<close>

fun qmp_await :: "'j json_api \<Rightarrow> string list \<Rightarrow> bool \<Rightarrow> ('j, string) result awaited \<times> string list" where
  "qmp_await js [] closed = (if closed then Done (Err ''QMP closed'') else Pending, [])"
| "qmp_await js (line # rest) closed =
     (case js_parse js line of
        Err e \<Rightarrow> (Done (Err e), rest)
      | Ok msg \<Rightarrow>
          (case js_get js msg ''return'' of
             Some r \<Rightarrow> (Done (Ok r), rest)
           | None \<Rightarrow>
               (case js_get js msg ''error'' of
                  Some e \<Rightarrow> (Done (Err (''QMP error: '' @ js_show js e)), rest)
                | None \<Rightarrow> qmp_await js rest closed)))"

definition qmp_execute ::
    "'j json_api \<Rightarrow> string \<Rightarrow> 'j option \<Rightarrow> qmp_conn \<Rightarrow> ('j, string) result awaited \<times> qmp_conn" where
  "qmp_execute js cmd args c =
     (if qm_broken c then (Done (Err ''broken pipe''), c)
      else
        let c1 = c\<lparr>qm_out := qm_out c @ [js_show js (js_request js cmd args)]\<rparr>
        in case qmp_await js (qm_in c1) (qm_closed c1) of
             (r, rest) \<Rightarrow> (r, c1\<lparr>qm_in := rest\<rparr>))"

text \<open>
  The loop of \<^verbatim>\<open>connect\<close>: attempt \<open>k\<close> to reach the socket, when \<open>clock k\<close> milliseconds have
  passed; the error of the first attempt after the deadline is the result. \<open>None\<close>: out of fuel.
\<close>

definition qmp_deadline :: nat where
  "qmp_deadline = 10000"

fun qmp_dial :: "nat \<Rightarrow> (nat \<Rightarrow> (qmp_conn, string) result) \<Rightarrow> (nat \<Rightarrow> nat) \<Rightarrow> nat \<Rightarrow> (qmp_conn, string) result option" where
  "qmp_dial 0 attempt clock k = None"
| "qmp_dial (Suc fuel) attempt clock k =
     (case attempt k of
        Ok c \<Rightarrow> Some (Ok c)
      | Err e \<Rightarrow>
          if clock k < qmp_deadline then qmp_dial fuel attempt clock (k + 1)
          else Some (Err e))"

text \<open>\<^verbatim>\<open>connect\<close>, once the socket has accepted: the greeting, then the capabilities.\<close>

definition qmp_handshake :: "'j json_api \<Rightarrow> qmp_conn \<Rightarrow> (unit, string) result awaited \<times> qmp_conn" where
  "qmp_handshake js c =
     (case qmp_read_message js c of
        (Pending, c1) \<Rightarrow> (Pending, c1)
      | (Done (Err e), c1) \<Rightarrow> (Done (Err e), c1)
      | (Done (Ok _), c1) \<Rightarrow>
          (case qmp_execute js ''qmp_capabilities'' None c1 of
             (Pending, c2) \<Rightarrow> (Pending, c2)
           | (Done (Err e), c2) \<Rightarrow> (Done (Err e), c2)
           | (Done (Ok _), c2) \<Rightarrow> (Done (Ok ()), c2)))"

definition qmp_powerdown :: "'j json_api \<Rightarrow> qmp_conn \<Rightarrow> (unit, string) result awaited \<times> qmp_conn" where
  "qmp_powerdown js c =
     (case qmp_execute js ''system_powerdown'' None c of
        (Pending, c1) \<Rightarrow> (Pending, c1)
      | (Done (Err e), c1) \<Rightarrow> (Done (Err e), c1)
      | (Done (Ok _), c1) \<Rightarrow> (Done (Ok ()), c1))"

definition qmp_quit :: "'j json_api \<Rightarrow> qmp_conn \<Rightarrow> (unit, string) result awaited \<times> qmp_conn" where
  "qmp_quit js c =
     (case qmp_execute js ''quit'' None c of
        (Pending, c1) \<Rightarrow> (Pending, c1)
      | (Done _, c1) \<Rightarrow> (Done (Ok ()), c1))"


section \<open>Events\<close>

definition is_event :: "'j json_api \<Rightarrow> string \<Rightarrow> bool" where
  "is_event js line =
     (case js_parse js line of
        Ok msg \<Rightarrow> js_get js msg ''return'' = None \<and> js_get js msg ''error'' = None
      | Err _ \<Rightarrow> False)"

lemma qmp_await_events: "list_all (is_event js) es \<Longrightarrow> qmp_await js (es @ ls) closed = qmp_await js ls closed"
  by (induction es) (auto simp: is_event_def split: result.splits)

lemma qmp_await_closed: "fst (qmp_await js ls True) \<noteq> Pending"
  by (induction ls) (auto split: result.splits option.splits)

text \<open>The answer to a command is the first message with a return or an error, however
  many events the hypervisor sends before it; the messages after it are left for later.\<close>

theorem qmp_execute_skips_events:
  assumes "list_all (is_event js) es" and "js_parse js line = Ok msg"
    and "qm_in c = es @ line # rest" and "\<not> qm_broken c" and "js_get js msg ''return'' = Some r"
  shows "fst (qmp_execute js cmd args c) = Done (Ok r) \<and> qm_in (snd (qmp_execute js cmd args c)) = rest"
  using assms by (simp add: qmp_execute_def qmp_await_events)

text \<open>A JSON of strings: the message is its line, and it has a member when it starts with it.\<close>

definition sample_json :: "string json_api" where
  "sample_json =
     \<lparr>js_parse = (\<lambda>s. if s = [] then Err ''eof'' else Ok s),
      js_get = (\<lambda>m k. if take (length k) m = k then Some (drop (length k) m) else None),
      js_show = (\<lambda>m. m), js_request = (\<lambda>c a. c)\<rparr>"

theorem qmp_execute_skips_events_witness:
  "fst (qmp_execute sample_json ''stop'' None
      \<lparr>qm_in = [''event-a'', ''event-b'', ''return-ok'', ''event-c''], qm_closed = False, qm_out = [],
       qm_broken = False\<rparr>) = Done (Ok ''-ok'')"
proof -
  let ?c = "\<lparr>qm_in = [''event-a'', ''event-b'', ''return-ok'', ''event-c''], qm_closed = False, qm_out = [],
       qm_broken = False\<rparr>"
  have "list_all (is_event sample_json) [''event-a'', ''event-b'']"
    "js_parse sample_json ''return-ok'' = Ok ''return-ok''"
    "qm_in ?c = [''event-a'', ''event-b''] @ ''return-ok'' # [''event-c'']"
    "\<not> qm_broken ?c" "js_get sample_json ''return-ok'' ''return'' = Some ''-ok''"
    by (simp_all add: is_event_def sample_json_def)
  from qmp_execute_skips_events[OF this] show ?thesis by blast
qed


section \<open>Connecting\<close>

text \<open>Whether an attempt is the last: it connected, or the deadline has passed.\<close>

definition last_attempt :: "(nat \<Rightarrow> (qmp_conn, string) result) \<Rightarrow> (nat \<Rightarrow> nat) \<Rightarrow> nat \<Rightarrow> bool" where
  "last_attempt attempt clock k \<longleftrightarrow> is_ok (attempt k) \<or> qmp_deadline \<le> clock k"

lemma qmp_dial_last:
  "k \<le> n \<Longrightarrow> n < k + fuel \<Longrightarrow> \<forall>j < n. \<not> last_attempt attempt clock j \<Longrightarrow> last_attempt attempt clock n \<Longrightarrow>
     qmp_dial fuel attempt clock k = Some (attempt n)"
proof (induction fuel arbitrary: k)
  case (Suc fuel)
  show ?case
  proof (cases "k = n")
    case True
    then show ?thesis using Suc.prems(4) by (cases "attempt n") (auto simp: last_attempt_def)
  next
    case False
    then have "\<not> last_attempt attempt clock k" using Suc.prems(1,3) by simp
    moreover have "qmp_dial fuel attempt clock (k + 1) = Some (attempt n)"
      using False Suc.prems by (intro Suc.IH) simp_all
    ultimately show ?thesis by (cases "attempt k") (auto simp: last_attempt_def)
  qed
qed simp

text \<open>Connecting to the hypervisor ends: when every attempt but the first comes after a sleep of
  80 milliseconds, 126 attempts are enough, and the result is that of the first attempt that
  connected or came after the deadline.\<close>

theorem qmp_dial_ends:
  assumes "\<forall>j. 80 * j \<le> clock j"
  shows "\<exists>n \<le> 125. qmp_dial 126 attempt clock 0 = Some (attempt n) \<and>
    last_attempt attempt clock n \<and> (\<forall>j < n. \<not> last_attempt attempt clock j)"
proof -
  have late: "last_attempt attempt clock 125"
    using spec[OF assms, of 125] by (simp add: last_attempt_def qmp_deadline_def)
  define n where "n = (LEAST n. last_attempt attempt clock n)"
  have n: "last_attempt attempt clock n" "n \<le> 125" "\<forall>j < n. \<not> last_attempt attempt clock j"
    unfolding n_def using late by (auto intro: LeastI Least_le dest: not_less_Least)
  then show ?thesis using qmp_dial_last[of 0 n 126] by auto
qed

theorem qmp_dial_ends_witness:
  "qmp_dial 126 (\<lambda>k. if k < 3 then Err ''no such file'' else Ok \<lparr>qm_in = [], qm_closed = False, qm_out = [], qm_broken = False\<rparr>)
       (\<lambda>k. 80 * k + 5) 0 = Some (Ok \<lparr>qm_in = [], qm_closed = False, qm_out = [], qm_broken = False\<rparr>)"
proof -
  let ?dials = "\<lambda>k :: nat. if k < 3 then Err ''no such file'' else Ok \<lparr>qm_in = [], qm_closed = False, qm_out = [], qm_broken = False\<rparr>"
  have "\<forall>j. 80 * j \<le> 80 * j + (5 :: nat)" by simp
  from qmp_dial_ends[OF this, of ?dials] obtain n where n: "qmp_dial 126 ?dials (\<lambda>k. 80 * k + 5) 0 = Some (?dials n)"
      "last_attempt ?dials (\<lambda>k. 80 * k + 5) n"
    by blast
  then have "\<not> n < 3" by (auto simp: last_attempt_def qmp_deadline_def)
  then show ?thesis using n(1) by simp
qed

end
