(* ===== verification/Host_Os.thy ===== *)
theory Host_Os
  imports Vfs
begin

text \<open>
  The part of \<^verbatim>\<open>std::fs\<close> (and of \<^verbatim>\<open>tokio::fs\<close>, which documents itself as its
  asynchronous version) that \<^verbatim>\<open>HostFs\<close> calls, on a Unix host: a tree of files,
  directories and symbolic links addressed by absolute name lists, path resolution
  with symbolic links and the kernel's limit of 40 of them, and the system calls.
  Every call may also fail with an error the environment chooses (\<open>os_fault\<close>:
  permissions, media errors). Reads may be short: one call returns at most
  \<open>os_chunk\<close> bytes.
\<close>

section \<open>Errors and nodes\<close>

datatype error_kind =
    EkNotFound | EkPermissionDenied | EkAlreadyExists | EkNotADirectory | EkIsADirectory
  | EkDirectoryNotEmpty | EkInvalidInput | EkFilesystemLoop | EkResourceBusy | EkOther

record io_error =
  ioe_kind :: error_kind
  ioe_msg :: string

definition enoent :: io_error where
  "enoent = \<lparr>ioe_kind = EkNotFound, ioe_msg = ''No such file or directory (os error 2)''\<rparr>"
definition eexist :: io_error where
  "eexist = \<lparr>ioe_kind = EkAlreadyExists, ioe_msg = ''File exists (os error 17)''\<rparr>"
definition enotdir :: io_error where
  "enotdir = \<lparr>ioe_kind = EkNotADirectory, ioe_msg = ''Not a directory (os error 20)''\<rparr>"
definition eisdir :: io_error where
  "eisdir = \<lparr>ioe_kind = EkIsADirectory, ioe_msg = ''Is a directory (os error 21)''\<rparr>"
definition enotempty :: io_error where
  "enotempty =
     \<lparr>ioe_kind = EkDirectoryNotEmpty, ioe_msg = ''Directory not empty (os error 39)''\<rparr>"
definition einval :: io_error where
  "einval = \<lparr>ioe_kind = EkInvalidInput, ioe_msg = ''Invalid argument (os error 22)''\<rparr>"
definition eloop :: io_error where
  "eloop =
     \<lparr>ioe_kind = EkFilesystemLoop, ioe_msg = ''Too many levels of symbolic links (os error 40)''\<rparr>"
definition ebusy :: io_error where
  "ebusy = \<lparr>ioe_kind = EkResourceBusy, ioe_msg = ''Device or resource busy (os error 16)''\<rparr>"

record os_meta =
  om_mode :: u32
  om_modified :: "int option"  \<comment> \<open>seconds since the epoch; \<open>None\<close>: not available\<close>
  om_accessed :: "int option"
  om_ctime :: i64

type_synonym key = "name list"  \<comment> \<open>an absolute location: the names below the root\<close>

datatype os_node = NFile os_meta "byte list" | NDir os_meta u64 | NLink os_meta path

datatype syscall =
    SysCanon | SysLstat | SysReaddir | SysOpen | SysSeek | SysRead | SysWrite
  | SysMkdir | SysUnlink | SysRmdir | SysRename | SysTruncate

record host_os =
  os_nodes :: "(key \<times> os_node) list"
  os_root_meta :: os_meta
  os_cwd :: key
  os_chunk :: nat
  os_fresh :: "bool \<Rightarrow> os_meta"  \<comment> \<open>attributes of a node created now (\<open>True\<close>: directory)\<close>
  os_fault :: "syscall \<Rightarrow> key \<Rightarrow> io_error option"

definition node_at :: "host_os \<Rightarrow> key \<Rightarrow> os_node option" where
  "node_at os k = (if k = [] then Some (NDir (os_root_meta os) 4096) else map_of (os_nodes os) k)"

definition is_dir_at :: "host_os \<Rightarrow> key \<Rightarrow> bool" where
  "is_dir_at os k \<longleftrightarrow> (case node_at os k of Some (NDir _ _) \<Rightarrow> True | _ \<Rightarrow> False)"

definition has_children :: "host_os \<Rightarrow> key \<Rightarrow> bool" where
  "has_children os d \<longleftrightarrow> list_ex (\<lambda>(k, _). k \<noteq> [] \<and> butlast k = d) (os_nodes os)"

definition guarded :: "host_os \<Rightarrow> syscall \<Rightarrow> key \<Rightarrow> ('a, io_error) result \<Rightarrow> ('a, io_error) result" where
  "guarded os sys k r = (case os_fault os sys k of Some e \<Rightarrow> Err e | None \<Rightarrow> r)"


section \<open>Path resolution\<close>

text \<open>
  Walk the components from directory \<open>cur\<close>, following every symbolic link, with fuel
  for the links. The result may name a missing entry only as the last component.
\<close>

fun os_walk :: "host_os \<Rightarrow> nat \<Rightarrow> key \<Rightarrow> component list \<Rightarrow> (key, io_error) result" where
  "os_walk os fuel cur [] = Ok cur"
| "os_walk os fuel cur (RootDir # cs) = os_walk os fuel [] cs"
| "os_walk os fuel cur (CurDir # cs) =
     (if is_dir_at os cur then os_walk os fuel cur cs else Err enotdir)"
| "os_walk os fuel cur (ParentDir # cs) =
     (if is_dir_at os cur then os_walk os fuel (butlast cur) cs else Err enotdir)"
| "os_walk os fuel cur (Normal n # cs) =
     (if is_dir_at os cur then
        (case node_at os (cur @ [n]) of
           None \<Rightarrow> if cs = [] then Ok (cur @ [n]) else Err enoent
         | Some (NLink _ t) \<Rightarrow>
             (case fuel of
                0 \<Rightarrow> Err eloop
              | Suc f \<Rightarrow> if t = [] then Err enoent else os_walk os f cur (components t @ cs))
         | Some _ \<Rightarrow> os_walk os fuel (cur @ [n]) cs)
      else Err enotdir)"

definition symlink_limit :: nat where
  "symlink_limit = 40"

text \<open>Resolution that follows a link in the last component too (\<^verbatim>\<open>open\<close>, \<^verbatim>\<open>readdir\<close>).\<close>

definition os_resolve :: "host_os \<Rightarrow> path \<Rightarrow> (key, io_error) result" where
  "os_resolve os p =
     (if p = [] then Err enoent else os_walk os symlink_limit (os_cwd os) (components p))"

text \<open>
  Resolution that does not (\<^verbatim>\<open>lstat\<close>, \<^verbatim>\<open>mkdir\<close>, \<^verbatim>\<open>unlink\<close>, \<^verbatim>\<open>rmdir\<close>, \<^verbatim>\<open>rename\<close>): the
  containing directory, then the last name as it stands. The flag says whether the
  last component is a name.
\<close>

definition os_locate :: "host_os \<Rightarrow> path \<Rightarrow> (key \<times> bool, io_error) result" where
  "os_locate os p =
     (case rev (components p) of
        [] \<Rightarrow> Err enoent
      | Normal n # rcs \<Rightarrow>
          (case os_walk os symlink_limit (os_cwd os) (rev rcs) of
             Err e \<Rightarrow> Err e
           | Ok d \<Rightarrow>
               (case node_at os d of
                  None \<Rightarrow> Err enoent
                | Some (NDir _ _) \<Rightarrow> Ok (d @ [n], True)
                | Some _ \<Rightarrow> Err enotdir))
      | _ \<Rightarrow>
          (case os_walk os symlink_limit (os_cwd os) (components p) of
             Err e \<Rightarrow> Err e
           | Ok d \<Rightarrow> Ok (d, False)))"


section \<open>System calls\<close>

definition os_canonicalize :: "host_os \<Rightarrow> path \<Rightarrow> (path, io_error) result" where
  "os_canonicalize os p =
     (case os_resolve os p of
        Err e \<Rightarrow> Err e
      | Ok k \<Rightarrow> guarded os SysCanon k
          (case node_at os k of None \<Rightarrow> Err enoent | Some _ \<Rightarrow> Ok (abs_path k)))"

definition os_symlink_metadata :: "host_os \<Rightarrow> path \<Rightarrow> (os_node, io_error) result" where
  "os_symlink_metadata os p =
     (case os_locate os p of
        Err e \<Rightarrow> Err e
      | Ok (k, _) \<Rightarrow> guarded os SysLstat k
          (case node_at os k of None \<Rightarrow> Err enoent | Some nd \<Rightarrow> Ok nd))"

definition dir_children :: "host_os \<Rightarrow> key \<Rightarrow> (name \<times> os_node) list" where
  "dir_children os d =
     map (\<lambda>(k, nd). (last k, nd)) (filter (\<lambda>(k, _). k \<noteq> [] \<and> butlast k = d) (os_nodes os))"

definition os_read_dir :: "host_os \<Rightarrow> path \<Rightarrow> ((name \<times> os_node) list, io_error) result" where
  "os_read_dir os p =
     (case os_resolve os p of
        Err e \<Rightarrow> Err e
      | Ok k \<Rightarrow> guarded os SysReaddir k
          (case node_at os k of
             None \<Rightarrow> Err enoent
           | Some (NDir _ _) \<Rightarrow> Ok (dir_children os k)
           | Some _ \<Rightarrow> Err enotdir))"

text \<open>\<^verbatim>\<open>File::open\<close>: read-only; a directory opens too, its reads fail.\<close>

definition os_open_read :: "host_os \<Rightarrow> path \<Rightarrow> (key, io_error) result" where
  "os_open_read os p =
     (case os_resolve os p of
        Err e \<Rightarrow> Err e
      | Ok k \<Rightarrow> guarded os SysOpen k
          (case node_at os k of None \<Rightarrow> Err enoent | Some _ \<Rightarrow> Ok k))"

definition put_node :: "host_os \<Rightarrow> key \<Rightarrow> os_node \<Rightarrow> host_os" where
  "put_node os k nd = os\<lparr>os_nodes := AList.update k nd (os_nodes os)\<rparr>"

definition drop_node :: "host_os \<Rightarrow> key \<Rightarrow> host_os" where
  "drop_node os k = os\<lparr>os_nodes := filter (\<lambda>(q, _). q \<noteq> k) (os_nodes os)\<rparr>"

text \<open>New content for a file; the modification time becomes the current one.\<close>

definition put_data :: "host_os \<Rightarrow> key \<Rightarrow> os_meta \<Rightarrow> byte list \<Rightarrow> host_os" where
  "put_data os k m d =
     put_node os k (NFile (m\<lparr>om_modified := om_modified (os_fresh os False)\<rparr>) d)"

text \<open>\<^verbatim>\<open>OpenOptions::new().write(true).create(..).truncate(..).open\<close>.\<close>

definition os_open_write :: "host_os \<Rightarrow> bool \<Rightarrow> bool \<Rightarrow> path \<Rightarrow> (key, io_error) result \<times> host_os" where
  "os_open_write os create trunc p =
     (case os_resolve os p of
        Err e \<Rightarrow> (Err e, os)
      | Ok k \<Rightarrow>
          (case os_fault os SysOpen k of
             Some e \<Rightarrow> (Err e, os)
           | None \<Rightarrow>
               (case node_at os k of
                  None \<Rightarrow>
                    if create then (Ok k, put_node os k (NFile (os_fresh os False) []))
                    else (Err enoent, os)
                | Some (NFile m d) \<Rightarrow> (Ok k, if trunc then put_data os k m [] else os)
                | Some (NDir _ _) \<Rightarrow> (Err eisdir, os)
                | Some (NLink _ _) \<Rightarrow> (Err eloop, os))))"

text \<open>\<^verbatim>\<open>lseek\<close> takes a signed offset.\<close>

definition os_seek :: "host_os \<Rightarrow> key \<Rightarrow> u64 \<Rightarrow> (nat, io_error) result" where
  "os_seek os k off =
     guarded os SysSeek k (if unat off < 2 ^ 63 then Ok (unat off) else Err einval)"

definition os_read_at :: "host_os \<Rightarrow> key \<Rightarrow> nat \<Rightarrow> nat \<Rightarrow> (byte list, io_error) result" where
  "os_read_at os k pos n =
     guarded os SysRead k
       (case node_at os k of
          Some (NFile _ d) \<Rightarrow> Ok (take (min n (os_chunk os)) (drop pos d))
        | Some (NDir _ _) \<Rightarrow> Err eisdir
        | _ \<Rightarrow> Err enoent)"

text \<open>Bytes written at a position: a gap before it reads as zeros.\<close>

definition overwrite :: "byte list \<Rightarrow> nat \<Rightarrow> byte list \<Rightarrow> byte list" where
  "overwrite d pos bs =
     take pos (d @ replicate (pos - length d) 0) @ bs @ drop (pos + length bs) d"

definition os_write_all :: "host_os \<Rightarrow> key \<Rightarrow> nat \<Rightarrow> byte list \<Rightarrow> (unit, io_error) result \<times> host_os" where
  "os_write_all os k pos bs =
     (if bs = [] then (Ok (), os)
      else case os_fault os SysWrite k of
        Some e \<Rightarrow> (Err e, os)
      | None \<Rightarrow>
          (case node_at os k of
             Some (NFile m d) \<Rightarrow> (Ok (), put_data os k m (overwrite d pos bs))
           | _ \<Rightarrow> (Err enoent, os)))"

text \<open>\<^verbatim>\<open>File::set_len\<close>: the size must fit a signed offset.\<close>

definition os_set_len :: "host_os \<Rightarrow> key \<Rightarrow> u64 \<Rightarrow> (unit, io_error) result \<times> host_os" where
  "os_set_len os k sz =
     (if 2 ^ 63 \<le> unat sz then (Err einval, os)
      else case os_fault os SysTruncate k of
        Some e \<Rightarrow> (Err e, os)
      | None \<Rightarrow>
          (case node_at os k of
             Some (NFile m d) \<Rightarrow>
               (Ok (), put_data os k m (take (unat sz) (d @ replicate (unat sz - length d) 0)))
           | _ \<Rightarrow> (Err enoent, os)))"

definition os_create_dir :: "host_os \<Rightarrow> path \<Rightarrow> (unit, io_error) result \<times> host_os" where
  "os_create_dir os p =
     (case os_locate os p of
        Err e \<Rightarrow> (Err e, os)
      | Ok (k, named) \<Rightarrow>
          (case os_fault os SysMkdir k of
             Some e \<Rightarrow> (Err e, os)
           | None \<Rightarrow>
               if node_at os k = None
               then (Ok (), put_node os k (NDir (os_fresh os True) 4096))
               else (Err eexist, os)))"

definition os_remove_file :: "host_os \<Rightarrow> path \<Rightarrow> (unit, io_error) result \<times> host_os" where
  "os_remove_file os p =
     (case os_locate os p of
        Err e \<Rightarrow> (Err e, os)
      | Ok (k, named) \<Rightarrow>
          (case os_fault os SysUnlink k of
             Some e \<Rightarrow> (Err e, os)
           | None \<Rightarrow>
               (case node_at os k of
                  None \<Rightarrow> (Err enoent, os)
                | Some (NDir _ _) \<Rightarrow> (Err eisdir, os)
                | Some _ \<Rightarrow> (Ok (), drop_node os k))))"

definition os_remove_dir :: "host_os \<Rightarrow> path \<Rightarrow> (unit, io_error) result \<times> host_os" where
  "os_remove_dir os p =
     (case os_locate os p of
        Err e \<Rightarrow> (Err e, os)
      | Ok (k, named) \<Rightarrow>
          (case os_fault os SysRmdir k of
             Some e \<Rightarrow> (Err e, os)
           | None \<Rightarrow>
               if \<not> named then (Err ebusy, os)
               else (case node_at os k of
                  None \<Rightarrow> (Err enoent, os)
                | Some (NDir _ _) \<Rightarrow>
                    if has_children os k then (Err enotempty, os) else (Ok (), drop_node os k)
                | Some _ \<Rightarrow> (Err enotdir, os))))"

text \<open>Move the subtree at \<open>s\<close> to \<open>d\<close>, replacing the node there.\<close>

definition move_tree :: "host_os \<Rightarrow> key \<Rightarrow> key \<Rightarrow> host_os" where
  "move_tree os s d = os\<lparr>os_nodes :=
     map (\<lambda>(k, nd). (d @ drop (length s) k, nd)) (filter (\<lambda>(k, _). prefix s k) (os_nodes os))
     @ filter (\<lambda>(k, _). \<not> prefix s k \<and> k \<noteq> d) (os_nodes os)\<rparr>"

definition rename_check :: "host_os \<Rightarrow> key \<Rightarrow> key \<Rightarrow> io_error option" where
  "rename_check os s d =
     (case node_at os s of
        None \<Rightarrow> Some enoent
      | Some nd \<Rightarrow>
          if prefix s d then Some einval
          else (case node_at os d of
            None \<Rightarrow> None
          | Some (NDir _ _) \<Rightarrow>
              if \<not> is_dir_at os s then Some eisdir
              else if has_children os d then Some enotempty else None
          | Some _ \<Rightarrow> if is_dir_at os s then Some enotdir else None))"

definition os_rename :: "host_os \<Rightarrow> path \<Rightarrow> path \<Rightarrow> (unit, io_error) result \<times> host_os" where
  "os_rename os p q =
     (case os_locate os p of
        Err e \<Rightarrow> (Err e, os)
      | Ok (s, s_named) \<Rightarrow>
     (case os_locate os q of
        Err e \<Rightarrow> (Err e, os)
      | Ok (d, d_named) \<Rightarrow>
     (case os_fault os SysRename s of
        Some e \<Rightarrow> (Err e, os)
      | None \<Rightarrow>
          if \<not> s_named \<or> \<not> d_named then (Err ebusy, os)
          else if s = d then (if node_at os s = None then (Err enoent, os) else (Ok (), os))
          else (case rename_check os s d of
            Some e \<Rightarrow> (Err e, os)
          | None \<Rightarrow> (Ok (), move_tree os s d)))))"

end
