(* ===== verification/Host_Os_Laws.thy ===== *)
theory Host_Os_Laws
  imports Host_Os
begin

text \<open>
  Facts about the host file system model: what each tree update does to every
  location, the well-formedness invariant and its preservation by every system call,
  and where path resolution can lead.
\<close>

section \<open>Tree updates, location by location\<close>

lemma node_at_root [simp]: "node_at os [] = Some (NDir (os_root_meta os) 4096)"
  by (simp add: node_at_def)

lemma is_dir_at_root [simp]: "is_dir_at os []"
  by (simp add: is_dir_at_def)

lemma is_dir_atD: "is_dir_at os k \<Longrightarrow> \<exists>m n. node_at os k = Some (NDir m n)"
  by (auto simp: is_dir_at_def split: option.splits os_node.splits)

lemma node_at_put [simp]:
  "k \<noteq> [] \<Longrightarrow> node_at (put_node os k nd) q = (if q = k then Some nd else node_at os q)"
  by (auto simp: node_at_def put_node_def update_conv')

lemma map_of_filter_key: "map_of (filter (\<lambda>(k, _). P k) xs) q = (if P q then map_of xs q else None)"
  by (induction xs) auto

lemma node_at_drop [simp]:
  "k \<noteq> [] \<Longrightarrow> node_at (drop_node os k) q = (if q = k then None else node_at os q)"
  by (auto simp: node_at_def drop_node_def map_of_filter_key[of "\<lambda>q. q \<noteq> k"])

lemma node_at_put_data [simp]:
  "k \<noteq> [] \<Longrightarrow> node_at (put_data os k m d) q =
     (if q = k then Some (NFile (m\<lparr>om_modified := om_modified (os_fresh os False)\<rparr>) d)
      else node_at os q)"
  by (simp add: put_data_def)

lemma map_of_moved:
  "map_of (map (\<lambda>(k, nd). (d @ drop (length s) k, nd)) (filter (\<lambda>(k, _). prefix s k) xs)) q =
     (if prefix d q then map_of xs (s @ drop (length d) q) else None)"
proof (induction xs)
  case Nil
  then show ?case by simp
next
  case (Cons x xs)
  obtain k nd where x: "x = (k, nd)" by (cases x)
  have "prefix s k \<and> q = d @ drop (length s) k \<longleftrightarrow> prefix d q \<and> k = s @ drop (length d) q"
    by (auto simp: prefix_def)
  then show ?case using Cons x by auto
qed


section \<open>Well-formed hosts\<close>

text \<open>
  Locations are distinct lists of valid names, every node lives in a directory, and a
  read makes progress.
\<close>

definition os_wf :: "host_os \<Rightarrow> bool" where
  "os_wf os \<longleftrightarrow>
     distinct (map fst (os_nodes os)) \<and>
     list_all (\<lambda>(k, _). k \<noteq> [] \<and> list_all name_ok k \<and> is_dir_at os (butlast k)) (os_nodes os) \<and>
     0 < os_chunk os \<and> list_all name_ok (os_cwd os)"

lemma os_wf_node:
  assumes "os_wf os" and "node_at os k = Some nd"
  shows "list_all name_ok k" and "k \<noteq> [] \<Longrightarrow> is_dir_at os (butlast k)"
proof -
  have "k \<noteq> [] \<Longrightarrow> (k, nd) \<in> set (os_nodes os)"
    using assms(2) by (simp add: node_at_def map_of_SomeD)
  then have all: "k \<noteq> [] \<Longrightarrow> list_all name_ok k \<and> is_dir_at os (butlast k)"
    using assms(1) by (auto simp: os_wf_def list_all_iff)
  then show "list_all name_ok k" by (cases "k = []") auto
  show "k \<noteq> [] \<Longrightarrow> is_dir_at os (butlast k)" using all by blast
qed

lemma os_wf_chunk [dest]: "os_wf os \<Longrightarrow> 0 < os_chunk os"
  by (simp add: os_wf_def)

lemma map_of_nodes_iff:
  "os_wf os \<Longrightarrow> k \<noteq> [] \<Longrightarrow> node_at os k = Some nd \<longleftrightarrow> (k, nd) \<in> set (os_nodes os)"
  by (simp add: os_wf_def node_at_def)

lemma has_children_iff:
  assumes "os_wf os"
  shows "has_children os d \<longleftrightarrow> (\<exists>n. node_at os (d @ [n]) \<noteq> None)"
proof
  assume "has_children os d"
  then obtain k nd where k: "(k, nd) \<in> set (os_nodes os)" "k \<noteq> []" "butlast k = d"
    by (auto simp: has_children_def list_ex_iff)
  then have "k = d @ [last k]" by (metis append_butlast_last_id)
  then show "\<exists>n. node_at os (d @ [n]) \<noteq> None"
    using k(1,2) map_of_nodes_iff[OF assms, of k nd] by (metis option.distinct(1))
next
  assume "\<exists>n. node_at os (d @ [n]) \<noteq> None"
  then obtain n nd where "node_at os (d @ [n]) = Some nd" by auto
  then have "(d @ [n], nd) \<in> set (os_nodes os)" by (simp add: map_of_nodes_iff assms)
  then show "has_children os d" by (force simp: has_children_def list_ex_iff)
qed

lemma node_below_dir:
  assumes "os_wf os" and "node_at os (d @ r) = Some nd" and "r \<noteq> []"
  shows "is_dir_at os d"
  using assms(2,3)
proof (induction r arbitrary: nd rule: rev_induct)
  case Nil
  then show ?case by simp
next
  case (snoc x xs)
  have "is_dir_at os (d @ xs)"
    using os_wf_node(2)[OF assms(1) snoc.prems(1)] by (simp add: butlast_append)
  then show ?case using snoc.IH by (cases "xs = []") (auto dest: is_dir_atD)
qed

lemma no_node_below:
  assumes "os_wf os" and "\<not> has_children os d" and "r \<noteq> []"
  shows "node_at os (d @ r) = None"
proof (rule ccontr)
  assume "node_at os (d @ r) \<noteq> None"
  then obtain nd where nd: "node_at os (d @ r) = Some nd" by auto
  obtain n r' where r: "r = n # r'" using assms(3) by (cases r) auto
  have "node_at os (d @ [n]) \<noteq> None"
  proof (cases "r' = []")
    case True
    then show ?thesis using nd r by simp
  next
    case False
    then have "is_dir_at os (d @ [n])" using node_below_dir[OF assms(1), of "d @ [n]" r'] nd r by simp
    then show ?thesis by (auto dest: is_dir_atD)
  qed
  then show False using assms(1,2) by (auto simp: has_children_iff)
qed

text \<open>After a move, the tree below \<open>d\<close> is the tree that was below \<open>s\<close>, and \<open>s\<close> is gone.\<close>

lemma node_at_move:
  assumes "os_wf os" and "s \<noteq> []" and "d \<noteq> []" and "\<not> has_children os d"
  shows "node_at (move_tree os s d) q =
    (if prefix d q then node_at os (s @ drop (length d) q)
     else if prefix s q then None else node_at os q)"
proof (cases "q = []")
  case True
  then show ?thesis using assms(2,3) by (auto simp: move_tree_def node_at_def)
next
  case False
  have split: "map_of (os_nodes (move_tree os s d)) q =
      (case (if prefix d q then map_of (os_nodes os) (s @ drop (length d) q) else None) of
         Some nd \<Rightarrow> Some nd
       | None \<Rightarrow> (if \<not> prefix s q \<and> q \<noteq> d then map_of (os_nodes os) q else None))"
    by (simp add: move_tree_def map_of_append map_of_moved map_add_def
        map_of_filter_key[of "\<lambda>k. \<not> prefix s k \<and> k \<noteq> d"] split: option.splits)
  have "map_of (os_nodes os) q = None" if "prefix d q" "q \<noteq> d"
    using no_node_below[OF assms(1,4), of "drop (length d) q"] that False
    by (auto simp: prefix_def node_at_def)
  then show ?thesis using split False assms(2) by (auto simp: node_at_def split: option.splits)
qed


lemma os_wfI:
  assumes "distinct (map fst (os_nodes os))" and "[] \<notin> fst ` set (os_nodes os)"
    and "\<And>k nd. node_at os k = Some nd \<Longrightarrow> k \<noteq> [] \<Longrightarrow>
           list_all name_ok k \<and> is_dir_at os (butlast k)"
    and "0 < os_chunk os" and "list_all name_ok (os_cwd os)"
  shows "os_wf os"
proof -
  have "k \<noteq> [] \<and> list_all name_ok k \<and> is_dir_at os (butlast k)"
    if "(k, nd) \<in> set (os_nodes os)" for k nd
  proof -
    have "k \<noteq> []" using that assms(2) by force
    moreover have "node_at os k = Some nd"
      using that \<open>k \<noteq> []\<close> assms(1) by (simp add: node_at_def)
    ultimately show ?thesis using assms(3) by blast
  qed
  then show ?thesis using assms by (auto simp: os_wf_def list_all_iff)
qed

lemma os_wf_distinct: "os_wf os \<Longrightarrow> distinct (map fst (os_nodes os))"
  by (simp add: os_wf_def)

lemma os_wf_no_root: "os_wf os \<Longrightarrow> [] \<notin> fst ` set (os_nodes os)"
  by (auto simp: os_wf_def list_all_iff)

lemma is_dir_at_put:
  "k \<noteq> [] \<Longrightarrow> is_dir_at (put_node os k nd) q =
     (if q = k then (\<exists>m n. nd = NDir m n) else is_dir_at os q)"
  by (cases nd) (auto simp: is_dir_at_def)

lemma os_wf_put:
  assumes "os_wf os" and "k \<noteq> []" and "list_all name_ok k" and "is_dir_at os (butlast k)"
    and "is_dir_at os k \<Longrightarrow> \<exists>m n. nd = NDir m n"
  shows "os_wf (put_node os k nd)"
proof (rule os_wfI)
  show "distinct (map fst (os_nodes (put_node os k nd)))"
    using os_wf_distinct[OF assms(1)] by (simp add: put_node_def distinct_update)
  show "[] \<notin> fst ` set (os_nodes (put_node os k nd))"
    using os_wf_no_root[OF assms(1)] assms(2) by (simp add: put_node_def dom_update)
  show "list_all name_ok q \<and> is_dir_at (put_node os k nd) (butlast q)"
    if "node_at (put_node os k nd) q = Some nd'" "q \<noteq> []" for q nd'
  proof -
    have "list_all name_ok q \<and> is_dir_at os (butlast q)"
      using that assms os_wf_node[OF assms(1), of q] by (auto split: if_splits)
    then show ?thesis using assms(2,5) by (auto simp: is_dir_at_put)
  qed
  show "0 < os_chunk (put_node os k nd)" and "list_all name_ok (os_cwd (put_node os k nd))"
    using assms(1) by (auto simp: put_node_def os_wf_def)
qed

lemma os_wf_put_data:
  assumes "os_wf os" and "node_at os k = Some (NFile m' d')"
  shows "os_wf (put_data os k m d)"
proof -
  have "k \<noteq> []" using assms(2) by auto
  then show ?thesis using assms os_wf_node[OF assms]
    by (auto simp: put_data_def is_dir_at_def intro!: os_wf_put)
qed

lemma os_wf_drop:
  assumes "os_wf os" and "k \<noteq> []" and "\<not> has_children os k"
  shows "os_wf (drop_node os k)"
proof (rule os_wfI)
  show "distinct (map fst (os_nodes (drop_node os k)))"
    using os_wf_distinct[OF assms(1)] by (simp add: drop_node_def distinct_map_filter)
  show "[] \<notin> fst ` set (os_nodes (drop_node os k))"
    using os_wf_no_root[OF assms(1)] by (auto simp: drop_node_def)
  show "list_all name_ok q \<and> is_dir_at (drop_node os k) (butlast q)"
    if "node_at (drop_node os k) q = Some nd" "q \<noteq> []" for q nd
  proof -
    have q: "node_at os q = Some nd" "q \<noteq> k" using that assms(2) by (auto split: if_splits)
    have "butlast q \<noteq> k"
    proof
      assume "butlast q = k"
      then have "q = k @ [last q]" using that(2) by (metis append_butlast_last_id)
      then have "node_at os (k @ [last q]) \<noteq> None" using q(1) by simp
      then show False using assms(1,3) by (auto simp: has_children_iff)
    qed
    then show ?thesis using os_wf_node[OF assms(1) q(1)] that(2) assms(2)
      by (simp add: is_dir_at_def)
  qed
  show "0 < os_chunk (drop_node os k)" and "list_all name_ok (os_cwd (drop_node os k))"
    using assms(1) by (auto simp: drop_node_def os_wf_def)
qed

lemma move_tree_distinct:
  assumes "os_wf os" and "d \<noteq> []" and "\<not> has_children os d"
  shows "distinct (map fst (os_nodes (move_tree os s d)))"
proof -
  let ?in = "filter (\<lambda>(k, _). prefix s k) (os_nodes os)"
  let ?out = "filter (\<lambda>(k, _). \<not> prefix s k \<and> k \<noteq> d) (os_nodes os)"
  have d: "distinct (map fst ?in)" "distinct (map fst ?out)"
    using os_wf_distinct[OF assms(1)] by (simp_all add: distinct_map_filter)
  have "map fst (map (\<lambda>(k, nd). (d @ drop (length s) k, nd)) ?in)
      = map (\<lambda>k. d @ drop (length s) k) (map fst ?in)"
    by (simp add: case_prod_beta comp_def)
  moreover have "inj_on (\<lambda>k. d @ drop (length s) k) (fst ` set ?in)"
    by (auto simp: inj_on_def prefix_def)
  ultimately have moved: "distinct (map fst (map (\<lambda>(k, nd). (d @ drop (length s) k, nd)) ?in))"
    using d(1) by (simp add: distinct_map del: map_map)
  have "k \<noteq> d @ r" if "(k, nd) \<in> set ?out" for k nd r
  proof
    assume k: "k = d @ r"
    have mem: "(k, nd) \<in> set (os_nodes os)" and "r \<noteq> []" using that k by auto
    moreover have "k \<noteq> []" using k assms(2) by simp
    ultimately have "node_at os (d @ r) = Some nd" using k map_of_nodes_iff[OF assms(1)] by blast
    then show False using no_node_below[OF assms(1,3) \<open>r \<noteq> []\<close>] by simp
  qed
  then show ?thesis using moved d(2) by (fastforce simp: move_tree_def)
qed


lemma prefix_butlast: "prefix s (butlast q) \<Longrightarrow> prefix s q"
  by (meson prefix_order.trans prefixeq_butlast)

lemma not_prefix_butlast: "d \<noteq> [] \<Longrightarrow> \<not> prefix d (butlast d)"
  using prefix_length_le[of d "butlast d"] by (cases d) auto

lemma os_wf_move:
  assumes wf: "os_wf os" and "s \<noteq> []" and d: "d \<noteq> []" "list_all name_ok d" "is_dir_at os (butlast d)"
    and "\<not> prefix s d" and "\<not> has_children os d"
  shows "os_wf (move_tree os s d)"
proof (rule os_wfI)
  note at = node_at_move[OF wf assms(2) d(1) assms(7)]
  have dir: "is_dir_at (move_tree os s d) q =
      (if prefix d q then is_dir_at os (s @ drop (length d) q)
       else if prefix s q then False else is_dir_at os q)" for q
    by (simp add: is_dir_at_def at)
  show "distinct (map fst (os_nodes (move_tree os s d)))"
    using wf d(1) assms(7) by (rule move_tree_distinct)
  show "[] \<notin> fst ` set (os_nodes (move_tree os s d))"
    using os_wf_no_root[OF wf] d(1) by (auto simp: move_tree_def)
  show "list_all name_ok q \<and> is_dir_at (move_tree os s d) (butlast q)"
    if "node_at (move_tree os s d) q = Some nd" "q \<noteq> []" for q nd
  proof (cases "prefix d q")
    case True
    then obtain x where q: "q = d @ x" by (auto simp: prefix_def)
    then have nd: "node_at os (s @ x) = Some nd" using that(1) by (simp add: at)
    show ?thesis
    proof (cases "x = []")
      case True
      then show ?thesis using q d assms(6) not_prefix_butlast[OF d(1)]
        by (auto simp: dir dest: prefix_butlast)
    next
      case False
      then have "is_dir_at os (s @ butlast x)"
        using os_wf_node(2)[OF wf nd] by (simp add: butlast_append)
      then show ?thesis using False q d os_wf_node(1)[OF wf nd]
        by (simp add: dir butlast_append)
    qed
  next
    case False
    then have "node_at os q = Some nd" "\<not> prefix s q" using that(1) by (auto simp: at split: if_splits)
    then show ?thesis using os_wf_node[OF wf] that(2) False by (auto simp: dir dest: prefix_butlast)
  qed
  show "0 < os_chunk (move_tree os s d)" and "list_all name_ok (os_cwd (move_tree os s d))"
    using wf by (auto simp: move_tree_def os_wf_def)
qed


section \<open>Where path resolution leads\<close>

fun comp_valid :: "component \<Rightarrow> bool" where
  "comp_valid (Normal n) = name_ok n"
| "comp_valid _ = True"

lemma body_ok_comp_valid: "body_ok c \<Longrightarrow> comp_valid c"
  by (cases c) auto

lemma components_valid [simp]: "list_all comp_valid (components p)"
  using comps_ok_components[of p]
  by (auto simp: comps_ok_def list_all_iff body_ok_comp_valid split: list.splits)

text \<open>An existing node that is not a link, or a free name in a directory.\<close>

definition settled :: "host_os \<Rightarrow> key \<Rightarrow> bool" where
  "settled os k \<longleftrightarrow> list_all name_ok k \<and>
     (case node_at os k of
        None \<Rightarrow> k \<noteq> [] \<and> is_dir_at os (butlast k)
      | Some (NLink _ _) \<Rightarrow> False
      | Some _ \<Rightarrow> True)"

lemma settled_root [simp]: "settled os []"
  by (simp add: settled_def)

lemma settled_dir: "os_wf os \<Longrightarrow> is_dir_at os k \<Longrightarrow> settled os k"
  using os_wf_node(1) by (fastforce simp: settled_def dest!: is_dir_atD)

lemma settled_parent:
  assumes "os_wf os" and "is_dir_at os k"
  shows "is_dir_at os (butlast k)"
  using assms os_wf_node(2) by (cases "k = []") (auto dest!: is_dir_atD)

lemma os_walk_settled:
  assumes "os_wf os" and "list_all comp_valid cs" and "cs = [] \<Longrightarrow> settled os cur"
    and "os_walk os fuel cur cs = Ok k"
  shows "settled os k"
  using assms
proof (induction os fuel cur cs rule: os_walk.induct)
  case (4 os fuel cur cs)
  then have dir: "is_dir_at os cur" by (auto split: if_splits)
  then have "settled os (butlast cur)" using "4.prems"(1) by (simp add: settled_dir settled_parent)
  then show ?case using 4 dir by simp
next
  case (5 os fuel cur n cs)
  then have dir: "is_dir_at os cur" by (auto split: if_splits)
  then have names: "list_all name_ok (cur @ [n])"
    using settled_dir "5.prems"(1,2) by (auto simp: settled_def)
  show ?case
  proof (cases "node_at os (cur @ [n])")
    case None
    then show ?thesis using "5.prems" dir names by (auto simp: settled_def split: if_splits)
  next
    case (Some nd)
    show ?thesis
    proof (cases nd)
      case (NLink m t)
      have "settled os cur" using "5.prems"(1) dir by (rule settled_dir)
      then show ?thesis using 5 dir Some NLink by (auto split: nat.splits if_splits)
    qed (use 5 dir names Some in \<open>auto simp: settled_def\<close>)
  qed
qed (auto split: if_splits intro: settled_dir)


lemma os_resolve_settled:
  assumes "os_wf os" and "os_resolve os p = Ok k"
  shows "settled os k"
proof -
  have "components p \<noteq> []" using assms(2) components_nonempty[of p]
    by (auto simp: os_resolve_def split: if_splits)
  then show ?thesis using assms os_walk_settled[OF assms(1) components_valid]
    by (auto simp: os_resolve_def split: if_splits)
qed

text \<open>A walk through \<open>cs @ ds\<close> is a walk through \<open>cs\<close>, then one through \<open>ds\<close>.\<close>

lemma os_walk_append:
  assumes "os_walk os fuel cur (cs @ ds) = Ok k" and "ds \<noteq> []"
  shows "\<exists>d f. os_walk os fuel cur cs = Ok d \<and> os_walk os f d ds = Ok k"
  using assms
proof (induction os fuel cur cs rule: os_walk.induct)
  case (5 os fuel cur n cs)
  then show ?case
    by (auto split: if_splits option.splits os_node.splits nat.splits)
qed (auto split: if_splits)

lemma os_walk_snoc_name:
  assumes "os_walk os fuel cur (cs @ [Normal n]) = Ok k"
    and "\<And>d. os_walk os fuel cur cs = Ok d \<Longrightarrow> \<forall>m t. node_at os (d @ [n]) \<noteq> Some (NLink m t)"
  shows "\<exists>d. os_walk os fuel cur cs = Ok d \<and> is_dir_at os d \<and> k = d @ [n]"
proof -
  obtain d f where d: "os_walk os fuel cur cs = Ok d" "os_walk os f d [Normal n] = Ok k"
    using os_walk_append[OF assms(1)] by auto
  then show ?thesis using assms(2)[OF d(1)]
    by (auto split: if_splits option.splits os_node.splits nat.splits)
qed

lemma os_walk_snoc_other:
  assumes "os_wf os" and "os_walk os fuel cur (cs @ [c]) = Ok k" and "\<forall>n. c \<noteq> Normal n"
  shows "is_dir_at os k"
proof -
  obtain d f where d: "os_walk os fuel cur cs = Ok d" "os_walk os f d [c] = Ok k"
    using os_walk_append[OF assms(2)] by auto
  then show ?thesis using assms(3) settled_parent[OF assms(1)]
    by (cases c) (auto split: if_splits)
qed


lemma os_locate_named:
  assumes "os_wf os" and "os_locate os p = Ok (k, True)"
  shows "\<exists>cs n d. components p = cs @ [Normal n] \<and>
           os_walk os symlink_limit (os_cwd os) cs = Ok d \<and> is_dir_at os d \<and> k = d @ [n] \<and>
           list_all name_ok k"
proof -
  obtain cs n d m l where p: "components p = cs @ [Normal n]"
    and d: "os_walk os symlink_limit (os_cwd os) cs = Ok d" "k = d @ [n]"
    and dir: "node_at os d = Some (NDir m l)"
    using assms(2)
    by (auto simp: os_locate_def
        split: list.splits component.splits result.splits option.splits os_node.splits)
  from dir have isdir: "is_dir_at os d" by (simp add: is_dir_at_def)
  have "name_ok n" using components_valid[of p] p by simp
  moreover have "list_all name_ok d" using settled_dir[OF assms(1) isdir] by (simp add: settled_def)
  ultimately show ?thesis using p d isdir by auto
qed

lemma os_locate_unnamed:
  assumes "os_wf os" and "os_locate os p = Ok (k, False)"
  shows "is_dir_at os k"
proof -
  obtain c rcs where c: "rev (components p) = c # rcs" "\<forall>n. c \<noteq> Normal n"
      "os_walk os symlink_limit (os_cwd os) (components p) = Ok k"
    using assms(2)
    by (auto simp: os_locate_def
        split: list.splits component.splits result.splits option.splits os_node.splits)
  then have "components p = rev rcs @ [c]" by (metis rev.simps(2) rev_rev_ident)
  then show ?thesis using os_walk_snoc_other[OF assms(1)] c(2,3) by metis
qed

lemma os_locate_key:
  assumes "os_wf os" and "os_locate os p = Ok (k, nm)"
  shows "is_dir_at os k \<or> (nm \<and> k \<noteq> [] \<and> list_all name_ok k \<and> is_dir_at os (butlast k))"
proof (cases nm)
  case True
  then show ?thesis using os_locate_named[OF assms(1)] assms(2) by fastforce
next
  case False
  then show ?thesis using os_locate_unnamed[OF assms(1)] assms(2) by simp
qed


section \<open>What the system calls can do to the tree\<close>

text \<open>
  One change of the tree at locations of a region \<open>A\<close>. Every mutating call is a
  sequence of such changes, so the three facts every proof needs (well-formedness,
  nothing outside the region, no new links) are proved once, on this relation.
\<close>

inductive host_step :: "(key \<Rightarrow> bool) \<Rightarrow> host_os \<Rightarrow> host_os \<Rightarrow> bool" for A where
  put: "A k \<Longrightarrow> k \<noteq> [] \<Longrightarrow> list_all name_ok k \<Longrightarrow> is_dir_at os (butlast k) \<Longrightarrow>
     (is_dir_at os k \<Longrightarrow> \<exists>m n. nd = NDir m n) \<Longrightarrow> (\<forall>m t. nd \<noteq> NLink m t) \<Longrightarrow>
     host_step A os (put_node os k nd)"
| remove: "A k \<Longrightarrow> k \<noteq> [] \<Longrightarrow> \<not> has_children os k \<Longrightarrow> host_step A os (drop_node os k)"
| move: "A s \<Longrightarrow> A d \<Longrightarrow> s \<noteq> [] \<Longrightarrow> d \<noteq> [] \<Longrightarrow> list_all name_ok d \<Longrightarrow> is_dir_at os (butlast d) \<Longrightarrow>
     \<not> prefix s d \<Longrightarrow> \<not> has_children os d \<Longrightarrow> host_step A os (move_tree os s d)"

abbreviation host_steps :: "(key \<Rightarrow> bool) \<Rightarrow> host_os \<Rightarrow> host_os \<Rightarrow> bool" where
  "host_steps A \<equiv> (host_step A)\<^sup>*\<^sup>*"

lemma host_step_wf: "host_step A os os' \<Longrightarrow> os_wf os \<Longrightarrow> os_wf os'"
  by (induction rule: host_step.induct) (blast intro: os_wf_put os_wf_drop os_wf_move)+

lemma host_steps_wf: "host_steps A os os' \<Longrightarrow> os_wf os \<Longrightarrow> os_wf os'"
  by (induction rule: rtranclp_induct) (auto dest: host_step_wf)

text \<open>The environment of the tree (clock, faults, working directory) is not the calls' to change.\<close>

lemma host_step_env:
  "host_step A os os' \<Longrightarrow>
     os_fault os' = os_fault os \<and> os_cwd os' = os_cwd os \<and> os_chunk os' = os_chunk os"
  by (induction rule: host_step.induct) (auto simp: put_node_def drop_node_def move_tree_def)

lemma host_steps_env:
  "host_steps A os os' \<Longrightarrow>
     os_fault os' = os_fault os \<and> os_cwd os' = os_cwd os \<and> os_chunk os' = os_chunk os"
  by (induction rule: rtranclp_induct) (auto dest: host_step_env)

abbreviation below :: "key \<Rightarrow> key \<Rightarrow> bool" where
  "below r k \<equiv> strict_prefix r k"

lemma below_prefix: "below r s \<Longrightarrow> prefix s q \<Longrightarrow> below r q"
  by (simp add: prefix_order.less_le_trans)

lemma host_step_outside:
  assumes "host_step (below r) os os'" and "os_wf os" and "\<not> below r q"
  shows "node_at os' q = node_at os q"
  using assms
proof (induction rule: host_step.induct)
  case (move s d os)
  then show ?case using below_prefix by (auto simp: node_at_move)
qed auto

lemma host_steps_outside:
  assumes "host_steps (below r) os os'" and "os_wf os" and "\<not> below r q"
  shows "node_at os' q = node_at os q"
  using assms
proof (induction rule: rtranclp_induct)
  case (step os1 os2)
  then show ?case using host_step_outside host_steps_wf by metis
qed simp

text \<open>No symbolic links at or below a location.\<close>

definition link_free :: "host_os \<Rightarrow> key \<Rightarrow> bool" where
  "link_free os r \<longleftrightarrow>
     list_all (\<lambda>(k, nd). prefix r k \<longrightarrow> (case nd of NLink _ _ \<Rightarrow> False | _ \<Rightarrow> True)) (os_nodes os)"

lemma link_free_iff:
  assumes "os_wf os"
  shows "link_free os r \<longleftrightarrow> (\<forall>k m t. prefix r k \<longrightarrow> node_at os k \<noteq> Some (NLink m t))"
proof
  assume lf: "link_free os r"
  show "\<forall>k m t. prefix r k \<longrightarrow> node_at os k \<noteq> Some (NLink m t)"
  proof (intro allI impI notI)
    fix k m t assume "prefix r k" "node_at os k = Some (NLink m t)"
    then have "(k, NLink m t) \<in> set (os_nodes os)"
      using map_of_nodes_iff[OF assms, of k] by (cases "k = []") auto
    then show False using lf \<open>prefix r k\<close> by (auto simp: link_free_def list_all_iff)
  qed
next
  assume no: "\<forall>k m t. prefix r k \<longrightarrow> node_at os k \<noteq> Some (NLink m t)"
  have "k \<noteq> []" if "(k, nd) \<in> set (os_nodes os)" for k nd
    using that os_wf_no_root[OF assms] by force
  then show "link_free os r"
    using no map_of_nodes_iff[OF assms]
    by (fastforce simp: link_free_def list_all_iff split: os_node.splits)
qed

lemma host_step_link_free:
  assumes "host_step (below r) os os'" and "os_wf os" and "link_free os r"
  shows "link_free os' r"
proof -
  have wf': "os_wf os'" using assms(1,2) by (rule host_step_wf)
  have "\<forall>k m t. prefix r k \<longrightarrow> node_at os' k \<noteq> Some (NLink m t)"
    using assms(1) assms(2,3)
  proof (induction rule: host_step.induct)
    case (move s d os)
    have "prefix r (s @ x)" for x using move.hyps(1) by (auto simp: strict_prefix_def)
    then show ?case using move by (auto simp: node_at_move link_free_iff)
  qed (auto simp: link_free_iff)
  then show ?thesis using wf' by (simp add: link_free_iff)
qed

lemma host_steps_link_free:
  assumes "host_steps (below r) os os'" and "os_wf os" and "link_free os r"
  shows "link_free os' r"
  using assms
proof (induction rule: rtranclp_induct)
  case (step os1 os2)
  then show ?case using host_step_link_free host_steps_wf by metis
qed simp


section \<open>The mutating system calls as changes of a region\<close>

lemma settled_missing:
  "settled os k \<Longrightarrow> node_at os k = None \<Longrightarrow> k \<noteq> [] \<and> list_all name_ok k \<and> is_dir_at os (butlast k)"
  by (simp add: settled_def)

lemma is_dir_at_node: "is_dir_at os k \<longleftrightarrow> (\<exists>m n. node_at os k = Some (NDir m n))"
  by (auto simp: is_dir_at_def split: option.splits os_node.splits)

lemma host_step_put_data:
  assumes "os_wf os" and "A k" and "node_at os k = Some (NFile m' d')"
  shows "host_step A os (put_data os k m d)"
proof -
  have "k \<noteq> []" using assms(3) by auto
  then show ?thesis unfolding put_data_def
    using assms os_wf_node[OF assms(1,3)] by (intro host_step.put) (auto simp: is_dir_at_node)
qed

lemma os_open_write_steps:
  assumes "os_wf os" and "\<And>k. os_resolve os p = Ok k \<Longrightarrow> \<not> is_dir_at os k \<Longrightarrow> A k"
  shows "host_steps A os (snd (os_open_write os create trunc p))"
proof (cases "os_resolve os p")
  case (Ok k)
  have st: "settled os k" using assms(1) Ok by (rule os_resolve_settled)
  show ?thesis
  proof (cases "node_at os k")
    case None
    then have "A k" using assms(2)[OF Ok] by (simp add: is_dir_at_node)
    then have "host_step A os (put_node os k (NFile (os_fresh os False) []))"
      using settled_missing[OF st None] None by (intro host_step.put) (auto simp: is_dir_at_node)
    then show ?thesis using Ok None by (auto simp: os_open_write_def split: option.splits)
  next
    case (Some nd)
    then show ?thesis using Ok assms(2)[OF Ok] host_step_put_data[OF assms(1), of A k]
      by (auto simp: os_open_write_def is_dir_at_node r_into_rtranclp
          split: option.splits os_node.splits)
  qed
qed (simp add: os_open_write_def)

lemma os_open_write_ok:
  assumes "os_wf os" and "os_open_write os create trunc p = (Ok k, os')"
  shows "os_resolve os p = Ok k" and "\<not> is_dir_at os k"
    and "\<exists>m d. node_at os' k = Some (NFile m d) \<and> (trunc \<longrightarrow> d = [])"
proof -
  from assms(2) show r: "os_resolve os p = Ok k"
    by (auto simp: os_open_write_def split: result.splits option.splits os_node.splits if_splits)
  from assms(2) r show "\<not> is_dir_at os k"
    by (auto simp: os_open_write_def is_dir_at_node
        split: result.splits option.splits os_node.splits if_splits)
  have st: "settled os k" using assms(1) r by (rule os_resolve_settled)
  show "\<exists>m d. node_at os' k = Some (NFile m d) \<and> (trunc \<longrightarrow> d = [])"
  proof (cases "node_at os k")
    case None
    then show ?thesis using assms(2) r settled_missing[OF st None]
      by (auto simp: os_open_write_def split: option.splits if_splits)
  next
    case (Some nd)
    then have "k \<noteq> []" if "nd = NFile m d" for m d using that by auto
    then show ?thesis using assms(2) r Some
      by (auto simp: os_open_write_def split: option.splits os_node.splits if_splits)
  qed
qed

lemma os_write_all_steps:
  assumes "os_wf os" and "A k"
  shows "host_steps A os (snd (os_write_all os k pos bs))"
  using host_step_put_data[OF assms(1), of A k] assms(2)
  by (auto simp: os_write_all_def r_into_rtranclp split: option.splits os_node.splits)

lemma os_set_len_steps:
  assumes "os_wf os" and "A k"
  shows "host_steps A os (snd (os_set_len os k sz))"
  using host_step_put_data[OF assms(1), of A k] assms(2)
  by (auto simp: os_set_len_def r_into_rtranclp split: option.splits os_node.splits)

lemma os_locate_named_key:
  assumes "os_wf os" and "os_locate os p = Ok (k, nm)" and "\<not> is_dir_at os k \<or> nm"
  shows "nm" and "k \<noteq> []" and "list_all name_ok k" and "is_dir_at os (butlast k)"
proof -
  show nm using assms os_locate_key[OF assms(1,2)] by blast
  then show "k \<noteq> []" "list_all name_ok k" "is_dir_at os (butlast k)"
    using os_locate_named[OF assms(1)] assms(2) by fastforce+
qed

lemma os_create_dir_steps:
  assumes "os_wf os" and "\<And>k. os_locate os p = Ok (k, True) \<Longrightarrow> A k"
  shows "host_steps A os (snd (os_create_dir os p))"
proof (cases "\<exists>k nm. os_locate os p = Ok (k, nm) \<and> node_at os k = None")
  case True
  then obtain k nm where k: "os_locate os p = Ok (k, nm)" "node_at os k = None" by blast
  then have nd: "\<not> is_dir_at os k" by (simp add: is_dir_at_node)
  note key = os_locate_named_key[OF assms(1) k(1) disjI1[OF nd]]
  have "host_step A os (put_node os k (NDir (os_fresh os True) 4096))"
    using key k assms(2) nd by (intro host_step.put) auto
  then show ?thesis using k by (auto simp: os_create_dir_def split: option.splits)
qed (auto simp: os_create_dir_def split: result.splits option.splits)

lemma os_remove_file_steps:
  assumes "os_wf os" and "\<And>k. os_locate os p = Ok (k, True) \<Longrightarrow> A k"
  shows "host_steps A os (snd (os_remove_file os p))"
proof (cases "\<exists>k nm. os_locate os p = Ok (k, nm) \<and> node_at os k \<noteq> None \<and> \<not> is_dir_at os k")
  case True
  then obtain k nm where k: "os_locate os p = Ok (k, nm)" "node_at os k \<noteq> None" "\<not> is_dir_at os k"
    by blast
  note key = os_locate_named_key[OF assms(1) k(1) disjI1[OF k(3)]]
  have "\<not> has_children os k"
    using k(3) node_below_dir[OF assms(1)] by (force simp: has_children_iff[OF assms(1)])
  then have "host_step A os (drop_node os k)"
    using key k assms(2) by (intro host_step.remove) auto
  then show ?thesis using k by (auto simp: os_remove_file_def split: option.splits os_node.splits)
qed (auto simp: os_remove_file_def is_dir_at_node split: result.splits option.splits os_node.splits)

lemma os_remove_dir_steps:
  assumes "os_wf os" and "\<And>k. os_locate os p = Ok (k, True) \<Longrightarrow> A k"
  shows "host_steps A os (snd (os_remove_dir os p))"
proof (cases "\<exists>k. os_locate os p = Ok (k, True) \<and> \<not> has_children os k")
  case True
  then obtain k where k: "os_locate os p = Ok (k, True)" "\<not> has_children os k" by blast
  then have "host_step A os (drop_node os k)"
    using os_locate_named_key[OF assms(1) k(1)] assms(2) by (intro host_step.remove) auto
  then show ?thesis using k by (auto simp: os_remove_dir_def split: option.splits os_node.splits)
qed (auto simp: os_remove_dir_def split: result.splits option.splits os_node.splits)

lemma rename_check_None:
  assumes "os_wf os" and "rename_check os s d = None"
  shows "\<not> prefix s d" and "\<not> has_children os d"
proof -
  show "\<not> prefix s d" using assms(2) by (auto simp: rename_check_def split: option.splits if_splits)
  show "\<not> has_children os d"
  proof (cases "is_dir_at os d")
    case True
    then show ?thesis using assms(2)
      by (auto simp: rename_check_def is_dir_at_node split: option.splits if_splits)
  next
    case False
    then show ?thesis using node_below_dir[OF assms(1)] by (force simp: has_children_iff[OF assms(1)])
  qed
qed

lemma os_rename_steps:
  assumes "os_wf os" and "\<And>k. os_locate os p = Ok (k, True) \<Longrightarrow> A k"
    and "\<And>k. os_locate os q = Ok (k, True) \<Longrightarrow> A k"
  shows "host_steps A os (snd (os_rename os p q))"
proof (cases "\<exists>s d. os_locate os p = Ok (s, True) \<and> os_locate os q = Ok (d, True) \<and> rename_check os s d = None")
  case True
  then obtain s d where sd: "os_locate os p = Ok (s, True)" "os_locate os q = Ok (d, True)"
      "rename_check os s d = None" by blast
  note s = os_locate_named_key[OF assms(1) sd(1) disjI2[OF TrueI]]
  note d = os_locate_named_key[OF assms(1) sd(2) disjI2[OF TrueI]]
  have "host_step A os (move_tree os s d)"
    using s d sd assms(2,3) rename_check_None[OF assms(1) sd(3)] by (intro host_step.move) auto
  then show ?thesis using sd by (auto simp: os_rename_def split: option.splits)
qed (auto simp: os_rename_def split: result.splits option.splits)

end
