(* ===== verification/Rust_Text.thy ===== *)
theory Rust_Text
  imports Prelude
begin

text \<open>
  What the backends use of Rust's strings: lossy decoding of UTF-16 and UTF-8, checking and
  printing paths as UTF-8, \<^verbatim>\<open>lines\<close> and \<^verbatim>\<open>trim\<close>. Decoded text is a list of code
  points; a string of the model is its bytes in UTF-8.
\<close>

section \<open>Lossy decoding\<close>

type_synonym codes = "nat list"

definition replacement :: nat where
  "replacement = 0xFFFD"

text \<open>\<^verbatim>\<open>u16::from_le_bytes\<close> on each pair of bytes.\<close>

fun u16s_le :: "byte list \<Rightarrow> nat list" where
  "u16s_le (a # b # bs) = (unat a + 256 * unat b) # u16s_le bs"
| "u16s_le _ = []"

fun utf16_lossy :: "nat list \<Rightarrow> codes" where
  "utf16_lossy [] = []"
| "utf16_lossy (u # us) =
     (if u < 0xD800 \<or> 0xE000 \<le> u then u # utf16_lossy us
      else if 0xDC00 \<le> u then replacement # utf16_lossy us
      else (case us of
              [] \<Rightarrow> [replacement]
            | v # vs \<Rightarrow>
                if 0xDC00 \<le> v \<and> v < 0xE000
                then (0x10000 + 0x400 * (u - 0xD800) + (v - 0xDC00)) # utf16_lossy vs
                else replacement # utf16_lossy us))"

definition cont :: "byte \<Rightarrow> bool" where
  "cont b \<longleftrightarrow> 0x80 \<le> unat b \<and> unat b < 0xC0"

definition cont3 :: "byte \<Rightarrow> byte \<Rightarrow> bool" where
  "cont3 a b \<longleftrightarrow> cont b \<and> (unat a = 0xE0 \<longrightarrow> 0xA0 \<le> unat b) \<and> (unat a = 0xED \<longrightarrow> unat b < 0xA0)"

definition cont4 :: "byte \<Rightarrow> byte \<Rightarrow> bool" where
  "cont4 a b \<longleftrightarrow> cont b \<and> (unat a = 0xF0 \<longrightarrow> 0x90 \<le> unat b) \<and> (unat a = 0xF4 \<longrightarrow> unat b < 0x90)"

text \<open>Each maximal ill-formed part becomes one replacement character.\<close>

fun utf8_lossy :: "byte list \<Rightarrow> codes" where
  "utf8_lossy [] = []"
| "utf8_lossy (a # bs) =
     (if unat a < 0x80 then unat a # utf8_lossy bs
      else if 0xC2 \<le> unat a \<and> unat a < 0xE0 then
        (case bs of
           b # r \<Rightarrow> if cont b then (0x40 * (unat a - 0xC0) + (unat b - 0x80)) # utf8_lossy r
                    else replacement # utf8_lossy bs
         | [] \<Rightarrow> [replacement])
      else if 0xE0 \<le> unat a \<and> unat a < 0xF0 then
        (case bs of
           b # r \<Rightarrow> if \<not> cont3 a b then replacement # utf8_lossy bs
                    else (case r of
                      c # q \<Rightarrow> if cont c
                        then (0x1000 * (unat a - 0xE0) + 0x40 * (unat b - 0x80) + (unat c - 0x80)) # utf8_lossy q
                        else replacement # utf8_lossy r
                    | [] \<Rightarrow> [replacement])
         | [] \<Rightarrow> [replacement])
      else if 0xF0 \<le> unat a \<and> unat a < 0xF5 then
        (case bs of
           b # r \<Rightarrow> if \<not> cont4 a b then replacement # utf8_lossy bs
                    else (case r of
                      c # q \<Rightarrow> if \<not> cont c then replacement # utf8_lossy r
                        else (case q of
                          d # z \<Rightarrow> if cont d
                            then (0x40000 * (unat a - 0xF0) + 0x1000 * (unat b - 0x80) +
                                  0x40 * (unat c - 0x80) + (unat d - 0x80)) # utf8_lossy z
                            else replacement # utf8_lossy q
                        | [] \<Rightarrow> [replacement])
                    | [] \<Rightarrow> [replacement])
         | [] \<Rightarrow> [replacement])
      else replacement # utf8_lossy bs)"


text \<open>\<^verbatim>\<open>str::from_utf8\<close> succeeds.\<close>

fun utf8_valid :: "byte list \<Rightarrow> bool" where
  "utf8_valid [] = True"
| "utf8_valid (a # bs) =
     (if unat a < 0x80 then utf8_valid bs
      else if 0xC2 \<le> unat a \<and> unat a < 0xE0 then
        (case bs of b # r \<Rightarrow> cont b \<and> utf8_valid r | _ \<Rightarrow> False)
      else if 0xE0 \<le> unat a \<and> unat a < 0xF0 then
        (case bs of b # c # r \<Rightarrow> cont3 a b \<and> cont c \<and> utf8_valid r | _ \<Rightarrow> False)
      else if 0xF0 \<le> unat a \<and> unat a < 0xF5 then
        (case bs of b # c # d # r \<Rightarrow> cont4 a b \<and> cont c \<and> cont d \<and> utf8_valid r | _ \<Rightarrow> False)
      else False)"

definition utf8_encode :: "nat \<Rightarrow> string" where
  "utf8_encode u =
     map char_of
       (if u < 0x80 then [u]
        else if u < 0x800 then [0xC0 + u div 0x40, 0x80 + u mod 0x40]
        else if u < 0x10000 then [0xE0 + u div 0x1000, 0x80 + u div 0x40 mod 0x40, 0x80 + u mod 0x40]
        else [0xF0 + u div 0x40000, 0x80 + u div 0x1000 mod 0x40, 0x80 + u div 0x40 mod 0x40, 0x80 + u mod 0x40])"

definition string_bytes :: "string \<Rightarrow> byte list" where
  "string_bytes s = map of_char s"

text \<open>The code points of a Rust string.\<close>

definition points :: "string \<Rightarrow> codes" where
  "points s = utf8_lossy (string_bytes s)"

text \<open>\<^verbatim>\<open>Path::display\<close>\<close>

definition display_path :: "string \<Rightarrow> string" where
  "display_path p = concat (map utf8_encode (points p))"


section \<open>Lines\<close>

definition strip_cr :: "codes \<Rightarrow> codes" where
  "strip_cr l = (if l \<noteq> [] \<and> last l = 13 then butlast l else l)"

text \<open>\<^verbatim>\<open>str::lines\<close>: a final line ending does not start a line.\<close>

definition text_lines :: "codes \<Rightarrow> codes list" where
  "text_lines t =
     (let ps = split_on 10 t; ls = map strip_cr (butlast ps)
      in if last ps = [] then ls else ls @ [last ps])"

definition white_space :: "nat \<Rightarrow> bool" where
  "white_space c \<longleftrightarrow> 9 \<le> c \<and> c \<le> 13 \<or> c = 32 \<or> c = 0x85 \<or> c = 0xA0 \<or> c = 0x1680 \<or>
     0x2000 \<le> c \<and> c \<le> 0x200A \<or> c = 0x2028 \<or> c = 0x2029 \<or> c = 0x202F \<or> c = 0x205F \<or> c = 0x3000"

definition trim :: "codes \<Rightarrow> codes" where
  "trim t = rev (dropWhile white_space (rev (dropWhile white_space t)))"

end
