(* ===== verification/Host_Fs.thy ===== *)
theory Host_Fs
  imports Host_Os_Laws Rust_Text
begin

text \<open>
  \<^verbatim>\<open>HostFs\<close> (\<^verbatim>\<open>tokimo-packages-vm-core/src/lib.rs\<close>): the VFS provider backed by a host
  directory. Its state is the host itself; the struct holds the root and the
  read-only flag. Every method resolves the guest path (\<open>resolve\<close>, the jail check),
  the mutating ones after \<open>check_rw\<close>, and maps the errors of the system calls with
  \<open>map_io\<close>.
\<close>

section \<open>The struct, \<^verbatim>\<open>resolve\<close> and the conversions\<close>

record host_fs =
  hf_root :: path
  hf_read_only :: bool

definition host_fs_new :: "path \<Rightarrow> bool \<Rightarrow> host_fs" where
  "host_fs_new root ro = \<lparr>hf_root = root, hf_read_only = ro\<rparr>"

definition resolve :: "host_fs \<Rightarrow> host_os \<Rightarrow> path \<Rightarrow> (path, vfs_error) result" where
  "resolve h os p =
     (let rel = (case strip_prefix p ''/'' of Some r \<Rightarrow> r | None \<Rightarrow> p);
          joined = path_join (hf_root h) rel
      in case os_canonicalize os (hf_root h) of
           Err e \<Rightarrow> Err (Io (ioe_msg e))
         | Ok canon_root \<Rightarrow>
             let probe = (case path_parent joined of Some q \<Rightarrow> q | None \<Rightarrow> joined);
                 canon_parent = (case os_canonicalize os probe of Ok c \<Rightarrow> c | Err _ \<Rightarrow> probe)
             in if \<not> path_starts_with canon_parent canon_root then Err PermissionDenied
                else Ok joined)"

definition map_io :: "io_error \<Rightarrow> vfs_error" where
  "map_io e =
     (case ioe_kind e of
        EkNotFound \<Rightarrow> NotFound
      | EkPermissionDenied \<Rightarrow> PermissionDenied
      | EkAlreadyExists \<Rightarrow> AlreadyExists
      | _ \<Rightarrow> Io (ioe_msg e))"

definition check_rw :: "host_fs \<Rightarrow> (unit, vfs_error) result" where
  "check_rw h = (if hf_read_only h then Err PermissionDenied else Ok ())"

fun kind_of :: "os_node \<Rightarrow> fs_kind" where
  "kind_of (NDir _ _) = Dir"
| "kind_of (NLink _ _) = Symlink"
| "kind_of (NFile _ _) = File"

fun len_of :: "os_node \<Rightarrow> u64" where
  "len_of (NDir _ n) = n"
| "len_of (NLink _ t) = of_nat (length t)"
| "len_of (NFile _ d) = of_nat (length d)"

fun meta_of :: "os_node \<Rightarrow> os_meta" where
  "meta_of (NDir m _) = m"
| "meta_of (NLink m _) = m"
| "meta_of (NFile m _) = m"

text \<open>Seconds since the epoch; 0 where the time is missing or before it.\<close>

definition to_secs :: "int option \<Rightarrow> i64" where
  "to_secs t = (case t of None \<Rightarrow> 0 | Some v \<Rightarrow> if v < 0 then 0 else of_int v)"

definition attr_from_meta :: "os_node \<Rightarrow> file_attr" where
  "attr_from_meta nd =
     \<lparr>fa_size = len_of nd, fa_mode = om_mode (meta_of nd), fa_kind = kind_of nd,
      fa_mtime_secs = to_secs (om_modified (meta_of nd)),
      fa_atime_secs = to_secs (om_accessed (meta_of nd)),
      fa_ctime_secs = om_ctime (meta_of nd)\<rparr>"


section \<open>The ten methods\<close>

definition hfs_lstat :: "path \<Rightarrow> (host_os, file_attr) vfs_call" where
  "hfs_lstat q os =
     (case os_symlink_metadata os q of
        Err e \<Rightarrow> (Err (map_io e), os)
      | Ok nd \<Rightarrow> (Ok (attr_from_meta nd), os))"

definition hfs_stat :: "host_fs \<Rightarrow> path \<Rightarrow> (host_os, file_attr) vfs_call" where
  "hfs_stat h p os =
     (case resolve h os p of Err e \<Rightarrow> (Err e, os) | Ok q \<Rightarrow> hfs_lstat q os)"

text \<open>A name is listed as \<^verbatim>\<open>to_string_lossy\<close> gives it.\<close>

definition hfs_list :: "host_fs \<Rightarrow> path \<Rightarrow> (host_os, dir_entry list) vfs_call" where
  "hfs_list h p os =
     (case resolve h os p of
        Err e \<Rightarrow> (Err e, os)
      | Ok q \<Rightarrow>
          (case os_read_dir os q of
             Err e \<Rightarrow> (Err (map_io e), os)
           | Ok es \<Rightarrow> (Ok (map (\<lambda>(n, nd). \<lparr>de_name = display_path n, de_kind = kind_of nd\<rparr>) es), os)))"

text \<open>The loop of \<^verbatim>\<open>read\<close>: fill the buffer, one short read at a time, until the end of file.\<close>

function hfs_read_loop ::
    "host_os \<Rightarrow> key \<Rightarrow> nat \<Rightarrow> nat \<Rightarrow> byte list \<Rightarrow> (byte list, vfs_error) result" where
  "hfs_read_loop os k pos len buf =
     (if length buf < len then
        (case os_read_at os k (pos + length buf) (len - length buf) of
           Err e \<Rightarrow> Err (map_io e)
         | Ok bs \<Rightarrow> if bs = [] then Ok buf else hfs_read_loop os k pos len (buf @ bs))
      else Ok buf)"
  by pat_completeness auto
termination
  by (relation "measure (\<lambda>(os, k, pos, len, buf). len - length buf)")
    (auto simp: length_greater_0_conv[symmetric] simp del: length_greater_0_conv)

declare hfs_read_loop.simps [simp del]

definition hfs_read :: "host_fs \<Rightarrow> path \<Rightarrow> u64 \<Rightarrow> u32 \<Rightarrow> (host_os, byte list) vfs_call" where
  "hfs_read h p off len os =
     (case resolve h os p of
        Err e \<Rightarrow> (Err e, os)
      | Ok q \<Rightarrow>
     (case os_open_read os q of
        Err e \<Rightarrow> (Err (map_io e), os)
      | Ok k \<Rightarrow>
     (case os_seek os k off of
        Err e \<Rightarrow> (Err (map_io e), os)
      | Ok pos \<Rightarrow> (hfs_read_loop os k pos (unat len) [], os))))"

definition hfs_write :: "host_fs \<Rightarrow> path \<Rightarrow> u64 \<Rightarrow> byte list \<Rightarrow> (host_os, u32) vfs_call" where
  "hfs_write h p off data os =
     (case check_rw h of
        Err e \<Rightarrow> (Err e, os)
      | Ok _ \<Rightarrow>
     (case resolve h os p of
        Err e \<Rightarrow> (Err e, os)
      | Ok q \<Rightarrow>
     (case os_open_write os True True q of
        (Err e, os1) \<Rightarrow> (Err (map_io e), os1)
      | (Ok k, os1) \<Rightarrow>
     (case os_seek os1 k off of
        Err e \<Rightarrow> (Err (map_io e), os1)
      | Ok pos \<Rightarrow>
     (case os_write_all os1 k pos data of
        (Err e, os2) \<Rightarrow> (Err (map_io e), os2)
      | (Ok _, os2) \<Rightarrow> (Ok (of_nat (length data)), os2))))))"

definition hfs_create :: "host_fs \<Rightarrow> path \<Rightarrow> u32 \<Rightarrow> (host_os, file_attr) vfs_call" where
  "hfs_create h p mode os =
     (case check_rw h of
        Err e \<Rightarrow> (Err e, os)
      | Ok _ \<Rightarrow>
     (case resolve h os p of
        Err e \<Rightarrow> (Err e, os)
      | Ok q \<Rightarrow>
     (case os_open_write os True True q of
        (Err e, os1) \<Rightarrow> (Err (map_io e), os1)
      | (Ok _, os1) \<Rightarrow> hfs_lstat q os1)))"

definition hfs_mkdir :: "host_fs \<Rightarrow> path \<Rightarrow> u32 \<Rightarrow> (host_os, file_attr) vfs_call" where
  "hfs_mkdir h p mode os =
     (case check_rw h of
        Err e \<Rightarrow> (Err e, os)
      | Ok _ \<Rightarrow>
     (case resolve h os p of
        Err e \<Rightarrow> (Err e, os)
      | Ok q \<Rightarrow>
     (case os_create_dir os q of
        (Err e, os1) \<Rightarrow> (Err (map_io e), os1)
      | (Ok _, os1) \<Rightarrow> hfs_lstat q os1)))"

text \<open>The tail shared by the methods that return what one system call returns.\<close>

fun io_result :: "('a, io_error) result \<times> host_os \<Rightarrow> ('a, vfs_error) result \<times> host_os" where
  "io_result (r, os) = (map_err map_io r, os)"

definition hfs_remove :: "host_fs \<Rightarrow> path \<Rightarrow> (host_os, unit) vfs_call" where
  "hfs_remove h p os =
     (case check_rw h of
        Err e \<Rightarrow> (Err e, os)
      | Ok _ \<Rightarrow>
     (case resolve h os p of
        Err e \<Rightarrow> (Err e, os)
      | Ok q \<Rightarrow> io_result (os_remove_file os q)))"

definition hfs_rmdir :: "host_fs \<Rightarrow> path \<Rightarrow> (host_os, unit) vfs_call" where
  "hfs_rmdir h p os =
     (case check_rw h of
        Err e \<Rightarrow> (Err e, os)
      | Ok _ \<Rightarrow>
     (case resolve h os p of
        Err e \<Rightarrow> (Err e, os)
      | Ok q \<Rightarrow> io_result (os_remove_dir os q)))"

definition hfs_rename :: "host_fs \<Rightarrow> path \<Rightarrow> path \<Rightarrow> (host_os, unit) vfs_call" where
  "hfs_rename h p p' os =
     (case check_rw h of
        Err e \<Rightarrow> (Err e, os)
      | Ok _ \<Rightarrow>
     (case resolve h os p of
        Err e \<Rightarrow> (Err e, os)
      | Ok f \<Rightarrow>
     (case resolve h os p' of
        Err e \<Rightarrow> (Err e, os)
      | Ok t \<Rightarrow> io_result (os_rename os f t))))"

definition hfs_truncate :: "host_fs \<Rightarrow> path \<Rightarrow> u64 \<Rightarrow> (host_os, unit) vfs_call" where
  "hfs_truncate h p sz os =
     (case check_rw h of
        Err e \<Rightarrow> (Err e, os)
      | Ok _ \<Rightarrow>
     (case resolve h os p of
        Err e \<Rightarrow> (Err e, os)
      | Ok q \<Rightarrow>
     (case os_open_write os False False q of
        (Err e, os1) \<Rightarrow> (Err (map_io e), os1)
      | (Ok k, os1) \<Rightarrow> io_result (os_set_len os1 k sz))))"

definition host_fs_vfs :: "host_fs \<Rightarrow> host_os tokimo_vfs" where
  "host_fs_vfs h =
     \<lparr>vfs_stat = hfs_stat h, vfs_list = hfs_list h, vfs_read = hfs_read h,
      vfs_write = hfs_write h, vfs_create = hfs_create h, vfs_mkdir = hfs_mkdir h,
      vfs_remove = hfs_remove h, vfs_rmdir = hfs_rmdir h, vfs_rename = hfs_rename h,
      vfs_truncate = hfs_truncate h\<rparr>"

end
