(* ===== verification/Sandbox.thy ===== *)
theory Sandbox
  imports Qmp Host_Fs
begin

text \<open>
  The trait \<^verbatim>\<open>Sandbox\<close> as an interface: the three life-cycle operations of a backend on
  its state, and what a backend promises about \<^verbatim>\<open>SandboxState\<close>. The lemma proved
  once from it: however the operations are called, at most one start succeeds.
\<close>

type_synonym 's life_call = "'s \<Rightarrow> (unit, error) result awaited \<times> 's"

locale sandbox_life =
  fixes start :: "'s life_call"
    and stop :: "'s life_call"
    and wait :: "'s life_call"
    and st :: "'s \<Rightarrow> sandbox_state"
  assumes no_restart: "st s \<noteq> Created \<Longrightarrow> fst (start s) \<noteq> Done (Ok ()) \<and> st (snd (start s)) \<noteq> Created"
    and start_runs: "fst (start s) = Done (Ok ()) \<Longrightarrow> st (snd (start s)) = Running"
    and stop_stays: "st s \<noteq> Created \<Longrightarrow> st (snd (stop s)) \<noteq> Created"
    and stop_stops: "st s \<in> {Running, Starting} \<Longrightarrow> fst (stop s) = Done (Ok ()) \<Longrightarrow>
      st (snd (stop s)) = Stopped"
    and wait_stays: "st s \<noteq> Created \<Longrightarrow> st (snd (wait s)) \<noteq> Created"

text \<open>A backend that is there on its host: any start uses the sandbox up.\<close>

locale sandbox_backend = sandbox_life +
  assumes start_again: "st s \<noteq> Created \<Longrightarrow> start s = (Done (Err AlreadyStarted), s)"
    and start_leaves: "st (snd (start s)) \<noteq> Created"
begin

lemma start_twice: "start (snd (start s)) = (Done (Err AlreadyStarted), snd (start s))"
  by (rule start_again[OF start_leaves])

end

text \<open>A history: operations of the owner and changes of the world around the sandbox.\<close>

datatype 's life_op = LStart | LStop | LWait | LWorld "'s \<Rightarrow> 's"

fun life_step :: "'s life_call \<Rightarrow> 's life_call \<Rightarrow> 's life_call \<Rightarrow> 's life_op \<Rightarrow> 's life_call" where
  "life_step start stop wait LStart s = start s"
| "life_step start stop wait LStop s = stop s"
| "life_step start stop wait LWait s = wait s"
| "life_step start stop wait (LWorld g) s = (Done (Ok ()), g s)"

fun life_run :: "'s life_call \<Rightarrow> 's life_call \<Rightarrow> 's life_call \<Rightarrow> 's life_op list \<Rightarrow> 's \<Rightarrow> 's" where
  "life_run start stop wait [] s = s"
| "life_run start stop wait (op # ops) s = life_run start stop wait ops (snd (life_step start stop wait op s))"

text \<open>How many starts of a history succeeded.\<close>

fun starts_ok :: "'s life_call \<Rightarrow> 's life_call \<Rightarrow> 's life_call \<Rightarrow> 's life_op list \<Rightarrow> 's \<Rightarrow> nat" where
  "starts_ok start stop wait [] s = 0"
| "starts_ok start stop wait (op # ops) s =
     (case life_step start stop wait op s of
        (r, s1) \<Rightarrow>
          (case op of LStart \<Rightarrow> if r = Done (Ok ()) then 1 else 0 | _ \<Rightarrow> 0) +
          starts_ok start stop wait ops s1)"

text \<open>The world does not touch the state the owner sees.\<close>

fun owner_only :: "('s \<Rightarrow> sandbox_state) \<Rightarrow> 's life_op list \<Rightarrow> bool" where
  "owner_only st [] \<longleftrightarrow> True"
| "owner_only st (LWorld g # ops) \<longleftrightarrow> (\<forall>s. st (g s) = st s) \<and> owner_only st ops"
| "owner_only st (_ # ops) \<longleftrightarrow> owner_only st ops"

context sandbox_life
begin

lemma no_more_starts:
  "owner_only st ops \<Longrightarrow> st s \<noteq> Created \<Longrightarrow> starts_ok start stop wait ops s = 0"
proof (induction ops arbitrary: s)
  case Nil
  show ?case by simp
next
  case (Cons op ops)
  show ?case
  proof (cases op)
    case LStart
    then show ?thesis using Cons no_restart[of s] by (simp add: split_beta)
  next
    case LStop
    then show ?thesis using Cons stop_stays[of s] by (simp add: split_beta)
  next
    case LWait
    then show ?thesis using Cons wait_stays[of s] by (simp add: split_beta)
  next
    case (LWorld g)
    then show ?thesis using Cons by simp
  qed
qed

lemma one_start: "owner_only st ops \<Longrightarrow> starts_ok start stop wait ops s \<le> 1"
proof (induction ops arbitrary: s)
  case Nil
  show ?case by simp
next
  case (Cons op ops)
  show ?case
  proof (cases op)
    case LStart
    then show ?thesis using no_more_starts[of ops "snd (start s)"] start_runs[of s] Cons
      by (simp add: split_beta)
  next
    case LStop
    then show ?thesis using Cons by (simp add: split_beta)
  next
    case LWait
    then show ?thesis using Cons by (simp add: split_beta)
  next
    case (LWorld g)
    then show ?thesis using Cons by simp
  qed
qed

end


section \<open>What a mount is served by\<close>

text \<open>Every backend serves a mount by the built-in adapter for a host directory, or by the
  user's VFS.\<close>

datatype 'v served = ServeHost host_fs | ServeVfs 'v

fun mount_provider :: "'v mount_spec \<Rightarrow> 'v served" where
  "mount_provider (HostDir _ host_path read_only _) = ServeHost (host_fs_new host_path read_only)"
| "mount_provider (VfsMount _ vfs _ _) = ServeVfs vfs"

end
