(* ===== verification/Cmdline.thy ===== *)
theory Cmdline
  imports Prelude
begin

text \<open>
  The kernel command line: how the Linux and macOS backends build it, and how the guest's
  init (\<^verbatim>\<open>scripts/image/build.sh\<close>, \<^verbatim>\<open>tokimo-init\<close>) reads it back. The shell's word and
  field splitting is written out; words with pathname patterns are not considered.
\<close>

section \<open>Building\<close>

definition script_key :: string where
  "script_key = ''tokimo.script=''"

definition mounts_key :: string where
  "mounts_key = ''tokimo.mounts=''"

definition mount_arg :: "string \<times> string \<Rightarrow> string" where
  "mount_arg m = fst m @ '':'' @ snd m"

definition build_parts :: "string \<Rightarrow> string list \<Rightarrow> (string \<times> string) list \<Rightarrow> bool \<Rightarrow> string list" where
  "build_parts console extra mounts has_rootfs =
     [console, ''panic=-1'', ''quiet'', ''loglevel=3''] @
     (if has_rootfs then [''root=/dev/vda'', ''rootfstype=squashfs'', ''ro''] else []) @
     (if mounts \<noteq> [] then [mounts_key @ join_with '','' (map mount_arg mounts)] else []) @
     filter (\<lambda>s. \<not> prefix script_key s) extra @
     filter (prefix script_key) extra"

definition linux_build_cmdline :: "string list \<Rightarrow> (string \<times> string) list \<Rightarrow> bool \<Rightarrow> string" where
  "linux_build_cmdline extra mounts has_rootfs =
     join_with '' '' (build_parts ''console=ttyS0'' extra mounts has_rootfs)"

definition mac_build_cmdline :: "string list \<Rightarrow> (string \<times> string) list \<Rightarrow> bool \<Rightarrow> string" where
  "mac_build_cmdline extra mounts has_rootfs =
     join_with '' '' (build_parts ''console=hvc0'' extra mounts has_rootfs)"

text \<open>What the Linux backend passes on: an interactive console adds a flag at the end.\<close>

definition linux_kernel_cmdline :: "string list \<Rightarrow> (string \<times> string) list \<Rightarrow> bool \<Rightarrow> bool \<Rightarrow> string" where
  "linux_kernel_cmdline extra mounts has_rootfs interactive =
     (let cmdline = linux_build_cmdline extra mounts has_rootfs
      in if interactive then cmdline @ '' tokimo.shell=1'' else cmdline)"


section \<open>Reading in the guest\<close>

definition is_blank :: "char \<Rightarrow> bool" where
  "is_blank c \<longleftrightarrow> c = CHR '' '' \<or> c = CHR 0x09 \<or> c = CHR 0x0A"

text \<open>\<^verbatim>\<open>for w in $(cat /proc/cmdline)\<close>\<close>

definition guest_words :: "string \<Rightarrow> string list" where
  "guest_words line =
     filter (\<lambda>w. w \<noteq> []) (split_on CHR '' '' (map (\<lambda>c. if is_blank c then CHR '' '' else c) line))"

definition guest_mounts_arg :: "string list \<Rightarrow> string" where
  "guest_mounts_arg ws =
     foldl (\<lambda>acc w. if prefix mounts_key w then drop (length mounts_key) w else acc) [] ws"

definition guest_shell :: "string \<Rightarrow> bool" where
  "guest_shell line = list_ex (\<lambda>w. w = ''tokimo.shell=1'') (guest_words line)"

text \<open>An unquoted expansion split at commas: a trailing empty field is no field.\<close>

definition comma_fields :: "string \<Rightarrow> string list" where
  "comma_fields s =
     (let fs = split_on CHR '','' s in if last fs = [] then butlast fs else fs)"

text \<open>\<^verbatim>\<open>IFS=":" read -r tag mpath rest\<close>\<close>

definition read_pair :: "string \<Rightarrow> string \<times> string" where
  "read_pair s =
     (case split_on CHR '':'' s of
        t # p # _ \<Rightarrow> (t, p)
      | [t] \<Rightarrow> (t, [])
      | [] \<Rightarrow> ([], []))"

definition guest_mounts :: "string \<Rightarrow> (string \<times> string) list" where
  "guest_mounts line = map read_pair (comma_fields (guest_mounts_arg (guest_words line)))"

text \<open>
  \<^verbatim>\<open>sed -n 's/.*tokimo\.script=\(.*\)$/\1/p'\<close>: the pattern is greedy, so this is what
  follows the last occurrence of the key.
\<close>

fun last_after :: "string \<Rightarrow> string \<Rightarrow> string option" where
  "last_after key [] = None"
| "last_after key (c # cs) =
     (case last_after key cs of
        Some r \<Rightarrow> Some r
      | None \<Rightarrow> if prefix key (c # cs) then Some (drop (length key) (c # cs)) else None)"

definition guest_script :: "string \<Rightarrow> string option" where
  "guest_script line = last_after script_key line"


section \<open>Words\<close>

lemma guest_words_sep:
  "guest_words (xs @ CHR '' '' # ys) = guest_words xs @ guest_words ys"
  by (simp add: guest_words_def is_blank_def split_on_append_sep)

lemma guest_words_nil [simp]: "guest_words [] = []"
  by (simp add: guest_words_def)

lemma guest_words_join: "guest_words (join_with '' '' parts) = concat (map guest_words parts)"
  by (induction "'' ''" parts rule: join_with.induct) (simp_all add: guest_words_sep)

lemma guest_words_plain:
  assumes "w \<noteq> []" and "\<forall>c \<in> set w. \<not> is_blank c"
  shows "guest_words w = [w]"
proof -
  have "map (\<lambda>c. if is_blank c then CHR '' '' else c) w = w"
    using assms(2) by (simp add: map_idI)
  moreover have "CHR '' '' \<notin> set w" using assms(2) by (auto simp: is_blank_def)
  ultimately show ?thesis using assms(1) by (simp add: guest_words_def split_on_no_sep)
qed

lemma guest_mounts_arg_append:
  "\<forall>w \<in> set after. \<not> prefix mounts_key w \<Longrightarrow>
     guest_mounts_arg (before @ (mounts_key @ s) # after) = s"
proof -
  have skip: "\<forall>w \<in> set ws. \<not> prefix mounts_key w \<Longrightarrow>
      foldl (\<lambda>acc w. if prefix mounts_key w then drop (length mounts_key) w else acc) a ws = a" for ws a
    by (induction ws) auto
  assume "\<forall>w \<in> set after. \<not> prefix mounts_key w"
  then show ?thesis by (simp add: guest_mounts_arg_def skip)
qed

lemma guest_mounts_arg_none:
  "\<forall>w \<in> set ws. \<not> prefix mounts_key w \<Longrightarrow> guest_mounts_arg ws = []"
  unfolding guest_mounts_arg_def by (induction ws) auto

text \<open>Tags and guest paths that survive the encoding.\<close>

definition plain_mount :: "string \<times> string \<Rightarrow> bool" where
  "plain_mount m \<longleftrightarrow> list_all (\<lambda>c. \<not> is_blank c \<and> c \<noteq> CHR '','' \<and> c \<noteq> CHR '':'') (fst m @ snd m)"

lemma read_pair_arg:
  assumes "plain_mount m"
  shows "read_pair (mount_arg m) = m"
proof -
  have "CHR '':'' \<notin> set (fst m)" "CHR '':'' \<notin> set (snd m)"
    using assms by (auto simp: plain_mount_def list_all_iff)
  then have "split_on CHR '':'' (fst m @ CHR '':'' # snd m) = [fst m, snd m]"
    by (simp add: split_on_append_sep split_on_no_sep)
  then show ?thesis by (simp add: read_pair_def mount_arg_def)
qed

lemma plain_no_comma: "plain_mount m \<Longrightarrow> CHR '','' \<notin> set (mount_arg m)"
  by (auto simp: mount_arg_def plain_mount_def list_all_iff)

lemma set_join_with: "set (join_with sep ws) \<subseteq> \<Union> (set ` set ws) \<union> set sep"
  by (induction sep ws rule: join_with.induct) auto

lemma comma_fields_join:
  assumes "list_all plain_mount ms" and "ms \<noteq> []"
  shows "comma_fields (join_with '','' (map mount_arg ms)) = map mount_arg ms"
proof -
  have "split_on CHR '','' (join_with '','' (map mount_arg ms)) = map mount_arg ms"
    using assms plain_no_comma by (intro split_on_join) (auto simp: list_all_iff)
  moreover have "last (map mount_arg ms) \<noteq> []"
    using assms(2) by (simp add: last_map mount_arg_def)
  ultimately show ?thesis by (simp add: comma_fields_def)
qed

lemma map_read_pair: "list_all plain_mount ms \<Longrightarrow> map read_pair (map mount_arg ms) = ms"
  by (induction ms) (simp_all add: read_pair_arg)

definition no_mount_words :: "string \<Rightarrow> bool" where
  "no_mount_words e \<longleftrightarrow> list_all (\<lambda>w. \<not> prefix mounts_key w) (guest_words e)"

text \<open>The words of a command line around its mounts argument.\<close>

lemma fixed_words:
  "guest_words ''console=ttyS0'' = [''console=ttyS0'']" "guest_words ''console=hvc0'' = [''console=hvc0'']"
  "guest_words ''panic=-1'' = [''panic=-1'']" "guest_words ''quiet'' = [''quiet'']"
  "guest_words ''loglevel=3'' = [''loglevel=3'']" "guest_words ''root=/dev/vda'' = [''root=/dev/vda'']"
  "guest_words ''rootfstype=squashfs'' = [''rootfstype=squashfs'']" "guest_words ''ro'' = [''ro'']"
  "guest_words ''tokimo.shell=1'' = [''tokimo.shell=1'']"
  by code_simp+

lemma guest_mounts_parts:
  assumes "list_all plain_mount ms" and "list_all no_mount_words extra" and "no_mount_words console"
    and "no_mount_words tl_part"
  shows "guest_mounts (join_with '' '' (build_parts console extra ms has_rootfs @ [tl_part])) = ms"
proof -
  let ?pre = "[console, ''panic=-1'', ''quiet'', ''loglevel=3''] @
     (if has_rootfs then [''root=/dev/vda'', ''rootfstype=squashfs'', ''ro''] else [])"
  let ?post = "filter (\<lambda>s. \<not> prefix script_key s) extra @ filter (prefix script_key) extra @ [tl_part]"
  let ?arg = "mounts_key @ join_with '','' (map mount_arg ms)"
  have post: "\<forall>w \<in> set (concat (map guest_words ?post)). \<not> prefix mounts_key w"
    using assms(2,4) by (auto simp: list_all_iff no_mount_words_def)
  have pre: "\<forall>w \<in> set (concat (map guest_words ?pre)). \<not> prefix mounts_key w"
    using assms(3) by (auto simp: list_all_iff no_mount_words_def fixed_words mounts_key_def)
  show ?thesis
  proof (cases "ms = []")
    case True
    then have parts: "build_parts console extra ms has_rootfs @ [tl_part] = ?pre @ ?post"
      by (simp only: build_parts_def append_assoc if_False append_Nil simp_thms)
    have "guest_mounts_arg (concat (map guest_words (?pre @ ?post))) = []"
      using pre post by (intro guest_mounts_arg_none) auto
    then have "guest_mounts_arg (guest_words (join_with '' '' (?pre @ ?post))) = []"
      by (simp only: guest_words_join)
    then show ?thesis unfolding parts guest_mounts_def using True by (simp add: comma_fields_def)
  next
    case False
    have "\<forall>c \<in> set ?arg. \<not> is_blank c"
    proof
      fix c assume "c \<in> set ?arg"
      then consider "c \<in> set mounts_key" | m where "m \<in> set ms" "c \<in> set (mount_arg m)" | "c = CHR '',''"
        using set_join_with[of "'',''" "map mount_arg ms"] by auto
      then show "\<not> is_blank c"
        using assms(1)
        by cases (auto simp: mounts_key_def is_blank_def mount_arg_def list_all_iff plain_mount_def)
    qed
    then have "guest_words ?arg = [?arg]" by (intro guest_words_plain) (simp_all add: mounts_key_def)
    then have words: "concat (map guest_words (?pre @ [?arg] @ ?post)) =
        concat (map guest_words ?pre) @ ?arg # concat (map guest_words ?post)"
      by (simp only: map_append concat_append list.map concat.simps append_Nil2 append_Cons append_Nil append_assoc)
    have parts: "build_parts console extra ms has_rootfs @ [tl_part] = ?pre @ [?arg] @ ?post"
      using False by (simp only: build_parts_def append_assoc if_True simp_thms)
    have "guest_mounts_arg (guest_words (join_with '' '' (build_parts console extra ms has_rootfs @ [tl_part]))) =
        join_with '','' (map mount_arg ms)"
      unfolding parts guest_words_join words by (rule guest_mounts_arg_append[OF post])
    then show ?thesis
      by (simp only: guest_mounts_def comma_fields_join[OF assms(1) False] map_read_pair[OF assms(1)])
  qed
qed

lemma join_with_snoc: "ws \<noteq> [] \<Longrightarrow> join_with sep (ws @ [w]) = join_with sep ws @ sep @ w"
  by (induction sep ws rule: join_with.induct) auto

lemma build_parts_nonempty: "build_parts console extra ms has_rootfs \<noteq> []"
  by (simp add: build_parts_def)

text \<open>A trailing empty part adds nothing but a blank at the end.\<close>

lemma guest_mounts_blank: "guest_mounts (line @ '' '' @ []) = guest_mounts line"
  using guest_words_sep[of line "[]"] by (simp add: guest_mounts_def)


section \<open>The script\<close>

lemma last_after_append: "last_after key s = Some r \<Longrightarrow> last_after key (x @ s) = Some r"
  by (induction x) auto

lemma last_after_key: "last_after script_key b = None \<Longrightarrow> last_after script_key (script_key @ b) = Some b"
  by (simp add: script_key_def)

lemma prefix_before_sep: "prefix k (xs @ c # ys) \<Longrightarrow> c \<notin> set k \<Longrightarrow> prefix k xs"
proof -
  assume p: "prefix k (xs @ c # ys)" and c: "c \<notin> set k"
  have "\<not> length xs < length k"
  proof
    assume l: "length xs < length k"
    obtain zs where "xs @ c # ys = k @ zs" using p by (auto simp: prefix_def)
    then have "k ! length xs = (xs @ c # ys) ! length xs" using l by (simp add: nth_append)
    then have "k ! length xs = c" by simp
    then show False using c l nth_mem by metis
  qed
  then show "prefix k xs" using p by (auto simp: prefix_def append_eq_append_conv2)
qed

lemma last_after_sep:
  "last_after key b = None \<Longrightarrow> last_after key (c # ys) = None \<Longrightarrow> c \<notin> set key \<Longrightarrow>
     last_after key (b @ c # ys) = None"
proof (induction b)
  case Nil
  then show ?case by simp
next
  case (Cons d b)
  have "\<not> prefix key (d # b)" "last_after key b = None"
    using Cons.prems(1) by (auto split: option.splits if_splits)
  moreover from this have "\<not> prefix key ((d # b) @ c # ys)"
    using prefix_before_sep[of key "d # b" c ys] Cons.prems(3) by blast
  ultimately show ?case using Cons.IH Cons.prems(2,3) by simp
qed


section \<open>The mounts\<close>

lemma cmdline_mounts_rt:
  assumes "list_all plain_mount ms" and "list_all no_mount_words extra"
  shows "guest_mounts (linux_kernel_cmdline extra ms has_rootfs interactive) = ms \<and>
         guest_mounts (mac_build_cmdline extra ms has_rootfs) = ms"
proof -
  have console: "no_mount_words ''console=ttyS0''" "no_mount_words ''console=hvc0''"
    and tails: "no_mount_words []" "no_mount_words ''tokimo.shell=1''"
    by code_simp+
  note split = join_with_snoc[OF build_parts_nonempty]
  have plain: "guest_mounts (join_with '' '' (build_parts con extra ms has_rootfs)) = ms"
    if "no_mount_words con" for con
    using guest_mounts_parts[OF assms that tails(1)] by (simp only: split guest_mounts_blank)
  have "guest_mounts (linux_build_cmdline extra ms has_rootfs @ '' '' @ ''tokimo.shell=1'') = ms"
    unfolding linux_build_cmdline_def using guest_mounts_parts[OF assms console(1) tails(2)]
    by (simp only: split)
  then show ?thesis using plain[OF console(1)] plain[OF console(2)]
    by (cases interactive) (simp_all add: linux_kernel_cmdline_def linux_build_cmdline_def mac_build_cmdline_def)
qed


section \<open>Properties\<close>

text \<open>C16: the guest mounts what the host configured: for tags and guest paths without blanks,
  commas and colons, parsing the command line in the guest yields the configured mounts,
  in order, whatever else is on it (with no argument of its own for mounts), with or
  without the interactive console.\<close>

theorem cmdline_mounts_round_trip:
  assumes "list_all plain_mount ms" and "list_all no_mount_words extra"
  shows "guest_mounts (linux_kernel_cmdline extra ms has_rootfs interactive) = ms \<and>
         guest_mounts (mac_build_cmdline extra ms has_rootfs) = ms"
  using cmdline_mounts_rt[OF assms] .

theorem cmdline_mounts_round_trip_witness:
  "guest_mounts (linux_kernel_cmdline [''tokimo.script=ls -l''] [(''mem'', ''/mnt/mem''), (''h'', ''/h'')] True True) =
     [(''mem'', ''/mnt/mem''), (''h'', ''/h'')]"
proof -
  have "list_all plain_mount [(''mem'', ''/mnt/mem''), (''h'', ''/h'')]"
    "list_all no_mount_words [''tokimo.script=ls -l'']"
    by code_simp+
  from cmdline_mounts_round_trip[OF this] show ?thesis by blast
qed

lemma cmdline_script_rt:
  assumes "filter (prefix script_key) extra = [script_key @ b]" and "last_after script_key b = None"
  shows "guest_script (linux_kernel_cmdline extra ms has_rootfs False) = Some b \<and>
         guest_script (linux_kernel_cmdline extra ms has_rootfs True) = Some (b @ '' tokimo.shell=1'')"
proof -
  let ?ps = "[''console=ttyS0'', ''panic=-1'', ''quiet'', ''loglevel=3''] @
     (if has_rootfs then [''root=/dev/vda'', ''rootfstype=squashfs'', ''ro''] else []) @
     (if ms \<noteq> [] then [mounts_key @ join_with '','' (map mount_arg ms)] else []) @
     filter (\<lambda>s. \<not> prefix script_key s) extra"
  have ne: "?ps \<noteq> []" by simp
  have parts: "build_parts ''console=ttyS0'' extra ms has_rootfs = ?ps @ [script_key @ b]"
    by (simp only: build_parts_def assms(1) append_assoc)
  have "linux_build_cmdline extra ms has_rootfs = (join_with '' '' ?ps @ '' '') @ script_key @ b"
    using join_with_snoc[OF ne, of "'' ''" "script_key @ b"]
    by (simp only: linux_build_cmdline_def parts append_assoc)
  then obtain x where line: "linux_build_cmdline extra ms has_rootfs = x @ script_key @ b"
    by (rule that)
  have "last_after script_key '' tokimo.shell=1'' = None" "CHR '' '' \<notin> set script_key" by code_simp+
  then have long: "last_after script_key (b @ '' tokimo.shell=1'') = None"
    using last_after_sep[OF assms(2)] by blast
  show ?thesis
    using line last_after_append[OF last_after_key[OF assms(2)]]
      last_after_append[OF last_after_key[OF long]]
    by (simp add: guest_script_def linux_kernel_cmdline_def)
qed

text \<open>The script reaches the guest verbatim on a plain console, but with the interactive
  console the flag that the Linux backend appends after it becomes part of the script.\<close>

theorem cmdline_script:
  assumes "filter (prefix script_key) extra = [script_key @ b]" and "last_after script_key b = None"
  shows "guest_script (linux_kernel_cmdline extra ms has_rootfs False) = Some b \<and>
         guest_script (linux_kernel_cmdline extra ms has_rootfs True) = Some (b @ '' tokimo.shell=1'')"
  by (rule cmdline_script_rt[OF assms])

theorem cmdline_script_witness:
  "guest_script (linux_kernel_cmdline [''tokimo.script=ls'', ''debug''] [] False True) =
     Some ''ls tokimo.shell=1''"
proof -
  have "filter (prefix script_key) [''tokimo.script=ls'', ''debug''] = [script_key @ ''ls'']"
    "last_after script_key ''ls'' = None"
    by code_simp+
  from cmdline_script[OF this] show ?thesis by simp
qed

end
