(* ===== verification/Qemu.thy ===== *)
theory Qemu
  imports Config Cmdline
begin

text \<open>
  The QEMU command line (\<^verbatim>\<open>tokimo-packages-vm-linux/src/qemu.rs\<close>) and the runtime
  directory (\<^verbatim>\<open>runtime.rs\<close>). \<^verbatim>\<open>build_command\<close> is a list of arguments; the working
  directory and the file standard error goes to complete the command.
\<close>

section \<open>The runtime directory\<close>

record runtime =
  rt_root :: path
  rt_serial_log :: path
  rt_serial_sock :: path
  rt_qmp_sock :: path
  rt_monitor_sock :: path

definition runtime_at :: "path \<Rightarrow> runtime" where
  "runtime_at root =
     \<lparr>rt_root = root, rt_serial_log = path_join root ''serial.log'',
      rt_serial_sock = path_join root ''serial.sock'', rt_qmp_sock = path_join root ''qmp.sock'',
      rt_monitor_sock = path_join root ''monitor.sock''\<rparr>"

definition default_runtime_root :: "proc_env \<Rightarrow> string \<Rightarrow> path" where
  "default_runtime_root env name =
     path_join (pe_temp_dir env) (''tokimo-'' @ name @ ''-'' @ show_nat (pe_pid env))"


section \<open>The command\<close>

definition qemu_default :: path where
  "qemu_default = ''/usr/bin/qemu-system-x86_64''"

record serial_port =
  sp_chardev_id :: string
  sp_port_name :: string
  sp_socket_path :: path

record qemu_spec =
  qs_bin :: path
  qs_vcpus :: u32
  qs_memory_mib :: u32
  qs_kernel :: path
  qs_initrd :: path
  qs_rootfs :: "path option"
  qs_cmdline :: string
  qs_serial_ports :: "serial_port list"
  qs_network :: network_spec
  qs_qmp_socket :: path
  qs_serial_log :: path
  qs_serial_socket :: "path option"
  qs_monitor_socket :: path
  qs_runtime_dir :: path

record qemu_command =
  qc_bin :: path
  qc_args :: "string list"
  qc_dir :: path
  qc_stderr :: "path option"

definition console_args :: "qemu_spec \<Rightarrow> string list" where
  "console_args spec =
     (case qs_serial_socket spec of
        Some sp \<Rightarrow> [''-chardev'', ''socket,id=sercon,path='' @ sp @ '',server=on,wait=off'']
      | None \<Rightarrow> [''-chardev'', ''file,id=sercon,path='' @ qs_serial_log spec @ '',append=on'']) @
     [''-serial'', ''chardev:sercon'']"

definition rootfs_args :: "qemu_spec \<Rightarrow> string list" where
  "rootfs_args spec =
     (case qs_rootfs spec of
        None \<Rightarrow> []
      | Some r \<Rightarrow>
          [''-drive'', ''file='' @ r @ '',if=none,readonly=on,id=rootfs,format=raw'',
           ''-device'', ''virtio-blk-pci,drive=rootfs,bootindex=1''])"

definition port_args :: "serial_port \<Rightarrow> string list" where
  "port_args p =
     [''-chardev'', ''socket,id='' @ sp_chardev_id p @ '',path='' @ sp_socket_path p @ '',server=off,reconnect=1'',
      ''-device'', ''virtserialport,chardev='' @ sp_chardev_id p @ '',bus=vser0.0,name='' @ sp_port_name p]"

definition serial_args :: "qemu_spec \<Rightarrow> string list" where
  "serial_args spec =
     (if qs_serial_ports spec = [] then []
      else [''-device'', ''virtio-serial-pci,id=vser0''] @ concat (map port_args (qs_serial_ports spec)))"

definition forward_arg :: "port_forward \<Rightarrow> string" where
  "forward_arg pf =
     '',hostfwd='' @ (case pf_protocol pf of Tcp \<Rightarrow> ''tcp'' | Udp \<Rightarrow> ''udp'') @ ''::'' @
     show_nat (unat (pf_host_port pf)) @ ''-:'' @ show_nat (unat (pf_guest_port pf))"

definition network_args :: "qemu_spec \<Rightarrow> string list" where
  "network_args spec =
     (if ns_user_mode (qs_network spec) then
        [''-netdev'', ''user,id=net0'' @ concat (map forward_arg (ns_port_forwards (qs_network spec))),
         ''-device'', ''virtio-net-pci,netdev=net0'']
      else [])"

definition qemu_args :: "qemu_spec \<Rightarrow> string list" where
  "qemu_args spec =
     [''-enable-kvm'', ''-machine'', ''q35,accel=kvm'', ''-cpu'', ''host'',
      ''-smp'', show_nat (unat (qs_vcpus spec)),
      ''-m'', show_nat (unat (qs_memory_mib spec)) @ ''M'',
      ''-kernel'', qs_kernel spec, ''-initrd'', qs_initrd spec, ''-append'', qs_cmdline spec,
      ''-display'', ''none'', ''-nodefaults'', ''-no-reboot''] @
     console_args spec @
     [''-qmp'', ''unix:'' @ qs_qmp_socket spec @ '',server=on,wait=off'',
      ''-monitor'', ''unix:'' @ qs_monitor_socket spec @ '',server=on,wait=off''] @
     rootfs_args spec @ serial_args spec @ network_args spec"

text \<open>\<open>log_opens\<close>: whether the log for standard error can be opened.\<close>

definition build_command :: "qemu_spec \<Rightarrow> bool \<Rightarrow> qemu_command" where
  "build_command spec log_opens =
     \<lparr>qc_bin = qs_bin spec, qc_args = qemu_args spec, qc_dir = qs_runtime_dir spec,
      qc_stderr = (if log_opens then Some (path_join (qs_runtime_dir spec) ''qemu.stderr.log'') else None)\<rparr>"


section \<open>What the command says\<close>

text \<open>\<open>args\<close> holds \<open>opts\<close> as consecutive arguments.\<close>

definition passes :: "string list \<Rightarrow> string list \<Rightarrow> bool" where
  "passes args opts = sublist opts args"

lemma passes_here: "passes (opts @ b) opts"
  unfolding passes_def by (rule sublist_append_rightI)

lemma passes_skip: "passes b opts \<Longrightarrow> passes (a @ b) opts"
  unfolding passes_def by (metis append_assoc sublist_def)

lemma passes_early: "passes a opts \<Longrightarrow> passes (a @ b) opts"
  unfolding passes_def by (metis append_assoc sublist_def)

lemma passes_port:
  assumes "p \<in> set (qs_serial_ports spec)"
  shows "passes (qemu_args spec) (port_args p)"
proof -
  obtain xs ys where ps: "qs_serial_ports spec = xs @ p # ys" using assms by (meson split_list)
  have "concat (map port_args (qs_serial_ports spec)) =
      concat (map port_args xs) @ port_args p @ concat (map port_args ys)" using ps by simp
  then have "passes (concat (map port_args (qs_serial_ports spec))) (port_args p)"
    using passes_skip[OF passes_here] by simp
  then have "passes (serial_args spec) (port_args p)"
    using ps unfolding serial_args_def by (simp only: append_is_Nil_conv list.distinct if_False passes_skip simp_thms)
  then show ?thesis unfolding qemu_args_def by (intro passes_skip passes_early)
qed

lemma passes_append_line: "passes (qemu_args spec) [''-append'', qs_cmdline spec]"
proof -
  have "qemu_args spec =
    [''-enable-kvm'', ''-machine'', ''q35,accel=kvm'', ''-cpu'', ''host'',
      ''-smp'', show_nat (unat (qs_vcpus spec)),
      ''-m'', show_nat (unat (qs_memory_mib spec)) @ ''M'',
      ''-kernel'', qs_kernel spec, ''-initrd'', qs_initrd spec] @
    [''-append'', qs_cmdline spec] @ drop 15 (qemu_args spec)"
    by (simp add: qemu_args_def)
  then show ?thesis using passes_skip[OF passes_here] by metis
qed

end
