(* ===== verification/Linux_Backend.thy ===== *)
theory Linux_Backend
  imports Sandbox Qemu
begin

text \<open>
  The Linux backend (\<^verbatim>\<open>tokimo-packages-vm-linux/src/lib.rs\<close>): one Unix socket with an
  accept task per mount, a QEMU process, a QMP connection. The world holds the files and
  sockets, the live accept tasks with what they serve, the processes, and the outcome of
  every call that can fail. The set-up of a connection by an accept task is \<open>serve\<close>.
\<close>

section \<open>The world\<close>

record 'v linux_world =
  lw_files :: "path list"
  lw_listeners :: "(nat \<times> path \<times> 'v served) list"
  lw_procs :: "(nat \<times> qemu_command) list"
  lw_next :: nat  \<comment> \<open>the next task, process or mount id\<close>
  lw_env :: proc_env
  lw_mkdir_fails :: "path \<Rightarrow> string option"
  lw_create_fails :: "path \<Rightarrow> string option"
  lw_bind_fails :: "path \<Rightarrow> string option"
  lw_spawn_fails :: "qemu_command \<Rightarrow> string option"
  lw_qmp :: "path \<Rightarrow> (qmp_conn, string) result"  \<comment> \<open>connecting, within ten seconds\<close>
  lw_said :: "string list"  \<comment> \<open>what was written on the control connections given up since\<close>

definition add_file :: "path \<Rightarrow> 'v linux_world \<Rightarrow> 'v linux_world" where
  "add_file p w = w\<lparr>lw_files := p # removeAll p (lw_files w)\<rparr>"

definition remove_file :: "path \<Rightarrow> 'v linux_world \<Rightarrow> 'v linux_world" where
  "remove_file p w = w\<lparr>lw_files := removeAll p (lw_files w)\<rparr>"


section \<open>The sandbox\<close>

record vfs_server =
  vs_tag :: string
  vs_guest_path :: string
  vs_socket_path :: path
  vs_task :: nat

record 'v qemu_sandbox =
  qx_config :: "'v sandbox_config"
  qx_state :: sandbox_state
  qx_runtime :: "runtime option"
  qx_child :: "nat option"
  qx_qmp :: "qmp_conn option"
  qx_servers :: "vfs_server list"
  qx_mount_ids :: "(uid \<times> string) list"
  qx_bin :: path

definition qemu_sandbox_new :: "'v sandbox_config \<Rightarrow> 'v qemu_sandbox" where
  "qemu_sandbox_new cfg =
     \<lparr>qx_config = cfg, qx_state = Created, qx_runtime = None, qx_child = None, qx_qmp = None,
      qx_servers = [], qx_mount_ids = [], qx_bin = qemu_default\<rparr>"

definition with_qemu_bin :: "path \<Rightarrow> 'v qemu_sandbox \<Rightarrow> 'v qemu_sandbox" where
  "with_qemu_bin p s = s\<lparr>qx_bin := p\<rparr>"

type_synonym 'v linux = "'v qemu_sandbox \<times> 'v linux_world"

text \<open>\<^verbatim>\<open>Runtime::new\<close>: the directory, an empty serial log, no stale sockets.\<close>

definition runtime_new :: "path \<Rightarrow> 'v linux_world \<Rightarrow> (runtime, string) result \<times> 'v linux_world" where
  "runtime_new root w =
     (case lw_mkdir_fails w root of
        Some e \<Rightarrow> (Err e, w)
      | None \<Rightarrow>
          let rt = runtime_at root; w1 = add_file root w in
          (case lw_create_fails w1 (rt_serial_log rt) of
             Some e \<Rightarrow> (Err e, w1)
           | None \<Rightarrow>
               (Ok rt, remove_file (rt_monitor_sock rt) (remove_file (rt_qmp_sock rt)
                  (remove_file (rt_serial_sock rt) (add_file (rt_serial_log rt) w1))))))"

definition ensure_runtime :: "'v linux \<Rightarrow> (runtime, error) result \<times> 'v linux" where
  "ensure_runtime = (\<lambda>(s, w).
     case qx_runtime s of
       Some rt \<Rightarrow> (Ok rt, s, w)
     | None \<Rightarrow>
         let root = (case sc_runtime_dir (qx_config s) of
                       Some r \<Rightarrow> r
                     | None \<Rightarrow> default_runtime_root (lw_env w) (sc_name (qx_config s)))
         in (case runtime_new root w of
               (Err e, w1) \<Rightarrow> (Err (IoError e), s, w1)
             | (Ok rt, w1) \<Rightarrow> (Ok rt, s\<lparr>qx_runtime := Some rt\<rparr>, w1)))"

definition rpc_socket :: "path \<Rightarrow> nat \<Rightarrow> path" where
  "rpc_socket root i = path_join root (''rpc'' @ show_nat i @ ''.sock'')"

definition port_for :: "path \<Rightarrow> nat \<Rightarrow> 'v mount_spec \<Rightarrow> serial_port" where
  "port_for root i m =
     \<lparr>sp_chardev_id = ''rpc'' @ show_nat i, sp_port_name = ''tokimo.rpc.'' @ ms_tag m,
      sp_socket_path = rpc_socket root i\<rparr>"

text \<open>
  The loop over the mounts: bind the socket of each, start its accept task and record the
  server. On a failure the servers started so far stay. The result: the ports, the
  mounts for the command line, the mount ids.
\<close>

type_synonym bound = "serial_port list \<times> (string \<times> string) list \<times> (uid \<times> string) list"

fun bind_mounts :: "path \<Rightarrow> nat \<Rightarrow> 'v mount_spec list \<Rightarrow> bound \<Rightarrow> 'v linux \<Rightarrow> (bound, error) result \<times> 'v linux" where
  "bind_mounts root i [] acc sw = (Ok acc, sw)"
| "bind_mounts root i (m # ms) (ports, mounts, ids) (s, w) =
     (let sock = rpc_socket root i;
          ids1 = ids @ [(lw_next w, ms_tag m)];
          w1 = remove_file sock (w\<lparr>lw_next := lw_next w + 1\<rparr>)
      in case lw_bind_fails w1 sock of
           Some e \<Rightarrow> (Err (Hypervisor (''rpc bind '' @ sock @ '': '' @ e)), s, w1)
         | None \<Rightarrow>
             let task = lw_next w1;
                 w2 = add_file sock (w1\<lparr>lw_next := task + 1,
                        lw_listeners := lw_listeners w1 @ [(task, sock, mount_provider m)]\<rparr>);
                 s1 = s\<lparr>qx_servers := qx_servers s @
                        [\<lparr>vs_tag = ms_tag m, vs_guest_path = ms_guest_path m, vs_socket_path = sock,
                          vs_task = task\<rparr>]\<rparr>
             in bind_mounts root (i + 1) ms
                  (ports @ [port_for root i m], mounts @ [(ms_tag m, ms_guest_path m)], ids1) (s1, w2))"

definition linux_spec :: "'v qemu_sandbox \<Rightarrow> runtime \<Rightarrow> image_paths \<Rightarrow> serial_port list \<Rightarrow> (string \<times> string) list \<Rightarrow> qemu_spec" where
  "linux_spec s rt img ports mounts =
     \<lparr>qs_bin = qx_bin s, qs_vcpus = sc_vcpus (qx_config s), qs_memory_mib = sc_memory_mib (qx_config s),
      qs_kernel = im_kernel img, qs_initrd = im_initrd img, qs_rootfs = im_rootfs img,
      qs_cmdline = linux_kernel_cmdline (sc_extra_cmdline (qx_config s)) mounts
        (im_rootfs img \<noteq> None) (sc_interactive_serial (qx_config s)),
      qs_serial_ports = ports, qs_network = sc_network (qx_config s), qs_qmp_socket = rt_qmp_sock rt,
      qs_serial_log = rt_serial_log rt,
      qs_serial_socket = (if sc_interactive_serial (qx_config s) then Some (rt_serial_sock rt) else None),
      qs_monitor_socket = rt_monitor_sock rt, qs_runtime_dir = rt_root rt\<rparr>"

text \<open>The process and its control connection.\<close>

definition launch :: "'j json_api \<Rightarrow> qemu_spec \<Rightarrow> 'v linux \<Rightarrow> (unit, error) result awaited \<times> 'v linux" where
  "launch js spec = (\<lambda>(s, w).
     let log = path_join (qs_runtime_dir spec) ''qemu.stderr.log'';
         opens = (lw_create_fails w log = None);
         cmd = build_command spec opens;
         w1 = (if opens then add_file log w else w)
     in case lw_spawn_fails w1 cmd of
          Some e \<Rightarrow> (Done (Err (Hypervisor (''qemu spawn: '' @ e))), s, w1)
        | None \<Rightarrow>
            let pid = lw_next w1;
                w2 = w1\<lparr>lw_next := pid + 1, lw_procs := (pid, cmd) # lw_procs w1\<rparr>;
                s1 = s\<lparr>qx_child := Some pid\<rparr>
            in (case lw_qmp w2 (qs_qmp_socket spec) of
                  Err e \<Rightarrow> (Done (Err (Hypervisor (''qmp connect: '' @ e))), s1, w2)
                | Ok c \<Rightarrow>
                    (case qmp_handshake js c of
                       (Pending, _) \<Rightarrow> (Pending, s1, w2)
                     | (Done (Err e), _) \<Rightarrow> (Done (Err (Hypervisor (''qmp connect: '' @ e))), s1, w2)
                     | (Done (Ok _), c1) \<Rightarrow> (Done (Ok ()), s1\<lparr>qx_qmp := Some c1\<rparr>, w2))))"

definition no_image_msg :: string where
  "no_image_msg = ''no image configured; run scripts/image/build.sh or set TOKIMO_IMG_DIR''"

definition linux_start :: "'j json_api \<Rightarrow> 'v linux life_call" where
  "linux_start js = (\<lambda>(s, w).
     if qx_state s \<noteq> Created then (Done (Err AlreadyStarted), s, w)
     else
       case ensure_runtime (s\<lparr>qx_state := Starting\<rparr>, w) of
         (Err e, sw1) \<Rightarrow> (Done (Err e), sw1)
       | (Ok rt, s1, w1) \<Rightarrow>
           (case (case sc_image (qx_config s1) of
                    Some im \<Rightarrow> Some im
                  | None \<Rightarrow> from_env_or_default (lw_env w1)) of
              None \<Rightarrow> (Done (Err (ConfigError no_image_msg)), s1, w1)
            | Some img \<Rightarrow>
                (case bind_mounts (rt_root rt) 0 (sc_mounts (qx_config s1)) ([], [], []) (s1, w1) of
                   (Err e, sw2) \<Rightarrow> (Done (Err e), sw2)
                 | (Ok (ports, mounts, ids), s2, w2) \<Rightarrow>
                     (case launch js (linux_spec s2 rt img ports mounts) (s2, w2) of
                        (Done (Ok _), s3, w3) \<Rightarrow>
                          (Done (Ok ()), s3\<lparr>qx_mount_ids := ids, qx_state := Running\<rparr>, w3)
                      | (r, sw3) \<Rightarrow> (r, sw3)))))"

definition kill_proc :: "nat \<Rightarrow> 'v linux_world \<Rightarrow> 'v linux_world" where
  "kill_proc pid w = w\<lparr>lw_procs := filter (\<lambda>(p, _). p \<noteq> pid) (lw_procs w)\<rparr>"

definition abort_server :: "vfs_server \<Rightarrow> 'v linux_world \<Rightarrow> 'v linux_world" where
  "abort_server v w =
     remove_file (vs_socket_path v)
       (w\<lparr>lw_listeners := filter (\<lambda>(t, _). t \<noteq> vs_task v) (lw_listeners w)\<rparr>)"

text \<open>\<^verbatim>\<open>stop\<close>: the power-down request has no time-out, the others do; their results are ignored.\<close>

definition linux_stop :: "'j json_api \<Rightarrow> 'v linux life_call" where
  "linux_stop js = (\<lambda>(s, w).
     if qx_state s \<noteq> Running \<and> qx_state s \<noteq> Starting then (Done (Ok ()), s, w)
     else
       let s1 = s\<lparr>qx_state := Stopping\<rparr>;
           finish = (\<lambda>(s2, w0).
             let w1 = (case qx_child s2 of None \<Rightarrow> w0 | Some pid \<Rightarrow> kill_proc pid w0);
                 w2 = fold abort_server (qx_servers s2) w1
             in (Done (Ok ()), s2\<lparr>qx_child := None, qx_servers := [], qx_state := Stopped\<rparr>, w2))
       in case qx_qmp s1 of
            None \<Rightarrow> finish (s1, w)
          | Some c \<Rightarrow>
              (case qmp_powerdown js c of
                 (Pending, c1) \<Rightarrow> (Pending, s1\<lparr>qx_qmp := None\<rparr>, w\<lparr>lw_said := lw_said w @ qm_out c1\<rparr>)
               | (Done _, c1) \<Rightarrow>
                   (case qmp_quit js c1 of
                      (_, c2) \<Rightarrow> finish (s1\<lparr>qx_qmp := None\<rparr>, w\<lparr>lw_said := lw_said w @ qm_out c2\<rparr>))))"

text \<open>\<^verbatim>\<open>wait\<close> returns when the process has ended.\<close>

definition linux_wait :: "'v linux life_call" where
  "linux_wait = (\<lambda>(s, w).
     case qx_child s of
       None \<Rightarrow> (Done (Ok ()), s, w)
     | Some pid \<Rightarrow>
         if map_of (lw_procs w) pid \<noteq> None then (Pending, s, w)
         else (Done (Ok ()), s\<lparr>qx_state := Stopped\<rparr>, w))"

definition linux_add_mount :: "'v mount_spec \<Rightarrow> 'v linux \<Rightarrow> (uid, error) result \<times> 'v linux" where
  "linux_add_mount m sw = (Err (Unsupported ''hot add_mount not implemented''), sw)"

definition linux_remove_mount :: "uid \<Rightarrow> 'v linux \<Rightarrow> (unit, error) result \<times> 'v linux" where
  "linux_remove_mount i sw = (Err (Unsupported ''hot remove_mount not implemented''), sw)"

definition linux_exec :: "exec_spec \<Rightarrow> 'v linux \<Rightarrow> (exec_output, error) result \<times> 'v linux" where
  "linux_exec e sw = (Err (Unsupported ''guest exec not wired in this build''), sw)"

definition linux_serial_log_path :: "'v qemu_sandbox \<Rightarrow> path option" where
  "linux_serial_log_path s = map_option rt_serial_log (qx_runtime s)"

definition linux_serial_socket_path :: "'v qemu_sandbox \<Rightarrow> path option" where
  "linux_serial_socket_path s =
     (if sc_interactive_serial (qx_config s) then map_option rt_serial_sock (qx_runtime s) else None)"

text \<open>\<^verbatim>\<open>Drop\<close>.\<close>

definition linux_drop :: "'v linux \<Rightarrow> 'v linux_world" where
  "linux_drop = (\<lambda>(s, w).
     fold abort_server (qx_servers s) (case qx_child s of None \<Rightarrow> w | Some pid \<Rightarrow> kill_proc pid w))"

end
