(* ===== verification/Linux_Props.thy ===== *)
theory Linux_Props
  imports Linux_Laws
begin

text \<open>
  The properties of the Linux backend: what a successful \<^verbatim>\<open>start\<close> has wired together,
  what \<^verbatim>\<open>stop\<close> and \<^verbatim>\<open>Drop\<close> take away, also after a failed start, and the two ways in
  which \<^verbatim>\<open>stop\<close> does not clean up. The backend is an instance of the life-cycle interface.
\<close>

section \<open>Taking the servers away\<close>

lemma abort_server_simps [simp]:
  "lw_listeners (abort_server v w) = filter (\<lambda>(t, _). t \<noteq> vs_task v) (lw_listeners w)"
  "lw_files (abort_server v w) = filter (\<lambda>p. p \<noteq> vs_socket_path v) (lw_files w)"
  "lw_procs (abort_server v w) = lw_procs w" "lw_next (abort_server v w) = lw_next w"
  by (auto simp: abort_server_def remove_file_def removeAll_filter_not_eq intro: filter_cong)

lemma abort_servers:
  "lw_listeners (fold abort_server vs w) = filter (\<lambda>(t, _). t \<notin> vs_task ` set vs) (lw_listeners w) \<and>
   lw_files (fold abort_server vs w) = filter (\<lambda>p. p \<notin> vs_socket_path ` set vs) (lw_files w) \<and>
   lw_procs (fold abort_server vs w) = lw_procs w \<and> lw_next (fold abort_server vs w) = lw_next w"
proof (induction vs arbitrary: w)
  case Nil
  show ?case by (simp add: filter_True split_beta)
next
  case (Cons v vs)
  show ?case
    using Cons[of "abort_server v w"] by (simp add: split_beta conj_commute)
qed

lemma kill_proc_world [simp]:
  "lw_listeners (kill_proc pid w) = lw_listeners w" "lw_files (kill_proc pid w) = lw_files w"
  by (simp_all add: kill_proc_def)

text \<open>The ids in use are below the next one.\<close>

definition fresh_ids :: "'v linux_world \<Rightarrow> bool" where
  "fresh_ids w \<longleftrightarrow> list_all (\<lambda>(t, _). t < lw_next w) (lw_listeners w) \<and>
     list_all (\<lambda>(p, _). p < lw_next w) (lw_procs w)"

lemma drop_new_tasks:
  assumes "list_all (\<lambda>(t, _). t < n) old" and "new_tasks n vs ls"
  shows "filter (\<lambda>(t, _). t \<notin> vs_task ` set vs) (old @ ls) = old"
proof -
  have tasks: "vs_task ` set vs = fst ` set ls"
  proof -
    have "map fst (map (\<lambda>v. (vs_task v, vs_socket_path v)) vs) = map fst (map (\<lambda>(t, p, _). (t, p)) ls)"
      using assms(2) by (simp add: new_tasks_def)
    then have "map vs_task vs = map fst ls" by (simp add: comp_def split_beta)
    then show ?thesis by (metis list.set_map)
  qed
  have "filter (\<lambda>(t, _). t \<notin> vs_task ` set vs) old = old"
    using assms tasks by (fastforce simp: filter_id_conv list_all_iff new_tasks_def split_beta)
  moreover have "filter (\<lambda>(t, _). t \<notin> vs_task ` set vs) ls = []"
    unfolding tasks by (auto simp: filter_empty_conv split_beta)
  ultimately show ?thesis by simp
qed

text \<open>What a \<^verbatim>\<open>stop\<close> that returns leaves, for a sandbox that has been started.\<close>

lemma linux_stop_effect:
  assumes "linux_stop js (s, w) = (Done r, s', w')" and "qx_state s = Running \<or> qx_state s = Starting"
  shows "r = Ok () \<and> qx_state s' = Stopped \<and> qx_servers s' = [] \<and> qx_child s' = None \<and>
    lw_listeners w' = filter (\<lambda>(t, _). t \<notin> vs_task ` set (qx_servers s)) (lw_listeners w) \<and>
    lw_files w' = filter (\<lambda>p. p \<notin> vs_socket_path ` set (qx_servers s)) (lw_files w) \<and>
    lw_procs w' = (case qx_child s of None \<Rightarrow> lw_procs w | Some pid \<Rightarrow> filter (\<lambda>(p, _). p \<noteq> pid) (lw_procs w))"
  using assms
  by (auto simp: linux_stop_def Let_def abort_servers kill_proc_def
      split: option.splits prod.splits awaited.splits)


lemma linux_stop_idle:
  "qx_state s \<noteq> Running \<Longrightarrow> qx_state s \<noteq> Starting \<Longrightarrow> linux_stop js (s, w) = (Done (Ok ()), s, w)"
  by (simp add: linux_stop_def)

lemma linux_stop_state:
  "qx_state s = Running \<or> qx_state s = Starting \<Longrightarrow>
     qx_state (fst (snd (linux_stop js (s, w)))) \<in> {Stopping, Stopped}"
  by (auto simp: linux_stop_def Let_def split: option.splits prod.splits awaited.splits)

text \<open>\<^verbatim>\<open>stop\<close> never fails; it waits for ever only on the power-down request.\<close>

lemma linux_stop_pending:
  "fst (linux_stop js (s, w)) = Pending \<longleftrightarrow> (qx_state s = Running \<or> qx_state s = Starting) \<and>
     (\<exists>c. qx_qmp s = Some c \<and> fst (qmp_powerdown js c) = Pending)"
  by (auto simp: linux_stop_def Let_def split: option.splits prod.splits awaited.splits)


section \<open>The life cycle\<close>

interpretation linux: sandbox_backend "linux_start js" "linux_stop js" linux_wait "qx_state \<circ> fst" for js
proof
  fix sw :: "'v linux"
  obtain s w where sw: "sw = (s, w)" by (cases sw)
  show again: "(qx_state \<circ> fst) sw \<noteq> Created \<Longrightarrow> linux_start js sw = (Done (Err AlreadyStarted), sw)"
    by (simp add: sw linux_start_def)
  then show "(qx_state \<circ> fst) sw \<noteq> Created \<Longrightarrow> fst (linux_start js sw) \<noteq> Done (Ok ()) \<and>
      (qx_state \<circ> fst) (snd (linux_start js sw)) \<noteq> Created"
    by simp
  have start: "qx_state (fst (snd (linux_start js (s, w)))) =
      (if fst (linux_start js (s, w)) = Done (Ok ()) then Running else Starting)" if "qx_state s = Created"
    using linux_start_effect[of js s w] that by (cases "linux_start js (s, w)") force
  show "(qx_state \<circ> fst) (snd (linux_start js sw)) \<noteq> Created"
    using start by (cases "qx_state s = Created") (simp_all add: sw linux_start_def)
  show "fst (linux_start js sw) = Done (Ok ()) \<Longrightarrow> (qx_state \<circ> fst) (snd (linux_start js sw)) = Running"
    using start by (cases "qx_state s = Created") (simp_all add: sw linux_start_def)
  show "(qx_state \<circ> fst) (snd (linux_stop js sw)) \<noteq> Created" if "(qx_state \<circ> fst) sw \<noteq> Created"
    using that linux_stop_idle[of s js w] linux_stop_state[of s js w]
    by (cases "qx_state s = Running \<or> qx_state s = Starting") (auto simp: sw)
  show "(qx_state \<circ> fst) (snd (linux_stop js sw)) = Stopped"
    if st: "(qx_state \<circ> fst) sw \<in> {Running, Starting}" and ok: "fst (linux_stop js sw) = Done (Ok ())"
  proof -
    obtain s' w' where "linux_stop js (s, w) = (Done (Ok ()), s', w')"
      using ok by (cases "linux_stop js (s, w)") (simp add: sw)
    from linux_stop_effect[OF this] st show ?thesis by (simp add: sw \<open>linux_stop js (s, w) = (Done (Ok ()), s', w')\<close>)
  qed
  show "(qx_state \<circ> fst) (snd (linux_wait sw)) \<noteq> Created" if "(qx_state \<circ> fst) sw \<noteq> Created"
    using that by (auto simp: sw linux_wait_def split: option.splits)
qed


section \<open>What a start has wired\<close>

text \<open>A start that succeeded went through all its stages.\<close>

lemma linux_start_ok:
  assumes "linux_start js (s, w) = (Done (Ok u), s', w')"
  obtains rt :: runtime and im ports mounts ids s1 w1 s2 w2 s3 where
    "bind_mounts (rt_root rt) 0 (sc_mounts (qx_config s)) ([], [], []) (s1, w1) = (Ok (ports, mounts, ids), s2, w2)"
    "launch js (linux_spec s2 rt im ports mounts) (s2, w2) = (Done (Ok u), s3, w')"
    "s' = s3\<lparr>qx_mount_ids := ids, qx_state := Running\<rparr>" "qx_config s2 = qx_config s"
    "qx_servers s1 = qx_servers s"
proof -
  obtain r1 s1 w1 where e: "ensure_runtime (s\<lparr>qx_state := Starting\<rparr>, w) = (r1, s1, w1)" by (metis prod_cases3)
  have created: "qx_state s = Created" using assms by (auto simp: linux_start_def split: if_splits)
  have conf: "qx_config s1 = qx_config s" "qx_servers s1 = qx_servers s"
    using ensure_runtime_world[OF e] by auto
  show ?thesis
  proof (rule linux_start_stages[OF assms created e])
    fix rt :: runtime and im ports mounts ids s2 w2 s3
    assume b: "bind_mounts (rt_root rt) 0 (sc_mounts (qx_config s1)) ([], [], []) (s1, w1) = (Ok (ports, mounts, ids), s2, w2)"
      and l: "launch js (linux_spec s2 rt im ports mounts) (s2, w2) = (Done (Ok u), s3, w')"
      and s': "s' = (if Done (Ok u) = Done (Ok ()) then s3\<lparr>qx_mount_ids := ids, qx_state := Running\<rparr> else s3)"
    have "qx_config s2 = qx_config s1" using bind_mounts_effect[OF b] by auto
    then show ?thesis using that[OF b[unfolded conf(1)] l] s' conf by simp
  qed simp_all
qed

text \<open>Mount \<open>i\<close> is connected: an accept task serves its provider at a socket, and the process
  has a port of the mount's tag attached to that socket.\<close>

definition mount_wired :: "path \<Rightarrow> 'v linux_world \<Rightarrow> string list \<Rightarrow> nat \<Rightarrow> 'v mount_spec \<Rightarrow> bool" where
  "mount_wired root w args i m \<longleftrightarrow>
     (rpc_socket root i, mount_provider m) \<in> set (map snd (lw_listeners w)) \<and>
     passes args (port_args \<lparr>sp_chardev_id = ''rpc'' @ show_nat i, sp_port_name = ''tokimo.rpc.'' @ ms_tag m,
       sp_socket_path = rpc_socket root i\<rparr>)"

lemma map2_upt_nth: "i < length ms \<Longrightarrow> f i (ms ! i) \<in> set (map2 f [0..<length ms] ms)"
  using nth_mem[of i "map2 f [0..<length ms] ms"] by simp

text \<open>C14: a Linux sandbox that started runs a process to which every configured mount is
  connected: a task serves the mount's provider (a host directory through the adapter) at a
  socket of its own, the process has a port with the mount's tag at that socket, and the
  guest parses the configured tags and paths, in order, from the kernel command line.\<close>

theorem linux_start_wires_mounts:
  assumes "linux_start js (s, w) = (Done (Ok u), s', w')"
    and "list_all no_mount_words (sc_extra_cmdline (qx_config s))"
    and "list_all plain_mount (map (\<lambda>m. (ms_tag m, ms_guest_path m)) (sc_mounts (qx_config s)))"
  shows "qx_state s' = Running \<and>
    (\<exists>pid cmd root line. qx_child s' = Some pid \<and> (pid, cmd) \<in> set (lw_procs w') \<and>
       (\<forall>i < length (sc_mounts (qx_config s)). mount_wired root w' (qc_args cmd) i (sc_mounts (qx_config s) ! i)) \<and>
       passes (qc_args cmd) [''-append'', line] \<and>
       guest_mounts line = map (\<lambda>m. (ms_tag m, ms_guest_path m)) (sc_mounts (qx_config s)))"
proof -
  let ?ms = "sc_mounts (qx_config s)"
  obtain rt im ports mounts ids s1 w1 s2 w2 s3 where
    b: "bind_mounts (rt_root rt) 0 ?ms ([], [], []) (s1, w1) = (Ok (ports, mounts, ids), s2, w2)"
    and l: "launch js (linux_spec s2 rt im ports mounts) (s2, w2) = (Done (Ok u), s3, w')"
    and s': "s' = s3\<lparr>qx_mount_ids := ids, qx_state := Running\<rparr>" and conf: "qx_config s2 = qx_config s"
    by (rule linux_start_ok[OF assms(1)])
  let ?spec = "linux_spec s2 rt im ports mounts"
  obtain pid cmd where p: "qx_child s3 = Some pid" "(pid, cmd) \<in> set (lw_procs w')" "qc_args cmd = qemu_args ?spec"
    using launch_ok[OF l] by blast
  have bound: "ports = map2 (port_for (rt_root rt)) [0..<length ?ms] ?ms"
      "mounts = map (\<lambda>m. (ms_tag m, ms_guest_path m)) ?ms"
      "map snd (lw_listeners w2) = map snd (lw_listeners w1) @
        map2 (\<lambda>j m. (rpc_socket (rt_root rt) j, mount_provider m)) [0..<length ?ms] ?ms"
    using bind_mounts_ok[OF b] by simp_all
  have wired: "mount_wired (rt_root rt) w' (qc_args cmd) i (?ms ! i)" if "i < length ?ms" for i
  proof -
    have "port_for (rt_root rt) i (?ms ! i) \<in> set (qs_serial_ports ?spec)"
      using map2_upt_nth[OF that] bound(1) by (simp add: linux_spec_def)
    then have "passes (qc_args cmd) (port_args (port_for (rt_root rt) i (?ms ! i)))"
      using passes_port p(3) by simp
    moreover have "(rpc_socket (rt_root rt) i, mount_provider (?ms ! i)) \<in> set (map snd (lw_listeners w2))"
      unfolding bound(3) using map2_upt_nth[OF that, of "\<lambda>j m. (rpc_socket (rt_root rt) j, mount_provider m)"]
      by simp
    ultimately show ?thesis using launch_effect[OF l] by (simp add: mount_wired_def port_for_def)
  qed
  have "guest_mounts (qs_cmdline ?spec) = mounts"
    using cmdline_mounts_rt assms(2,3) conf bound(2) by (simp add: linux_spec_def)
  then show ?thesis
    using p wired bound(2) s' passes_append_line[of ?spec]
    by (intro conjI exI[of _ pid] exI[of _ cmd] exI[of _ "rt_root rt"] exI[of _ "qs_cmdline ?spec"]) auto
qed


text \<open>A host directory and a VFS, an image, and a hypervisor that greets and answers once.\<close>

definition sample_sandbox :: "nat qemu_sandbox" where
  "sample_sandbox =
     qemu_sandbox_new ((sandbox_config_new ''t'' :: nat sandbox_config)\<lparr>
       sc_image := Some \<lparr>im_kernel = ''/k'', im_initrd = ''/i'', im_rootfs = None\<rparr>,
       sc_runtime_dir := Some ''/r'',
       sc_mounts := [HostDir ''/h'' ''/home'' False ''h'', VfsMount ''/mnt/mem'' 0 False ''mem'']\<rparr>)"

definition sample_world :: "string list \<Rightarrow> bool \<Rightarrow> nat linux_world" where
  "sample_world replies closes =
     \<lparr>lw_files = [''/r/rpc0.sock''], lw_listeners = [(0, ''/other.sock'', ServeVfs 1)],
      lw_procs = [], lw_next = 1, lw_env = sample_env,
      lw_mkdir_fails = (\<lambda>_. None), lw_create_fails = (\<lambda>_. None), lw_bind_fails = (\<lambda>_. None),
      lw_spawn_fails = (\<lambda>_. None),
      lw_qmp = (\<lambda>_. Ok \<lparr>qm_in = replies, qm_closed = closes, qm_out = [], qm_broken = False\<rparr>),
      lw_said = []\<rparr>"


text \<open>Nothing of the world fails, and the hypervisor greets and accepts the capabilities.\<close>

definition works :: "'j json_api \<Rightarrow> 'v linux_world \<Rightarrow> bool" where
  "works js w \<longleftrightarrow>
     lw_mkdir_fails w = (\<lambda>_. None) \<and> lw_create_fails w = (\<lambda>_. None) \<and> lw_bind_fails w = (\<lambda>_. None) \<and>
     lw_spawn_fails w = (\<lambda>_. None) \<and>
     (\<exists>c. lw_qmp w = (\<lambda>_. Ok c) \<and> fst (qmp_handshake js c) = Done (Ok ()))"

lemma works_updates [simp]:
  "works js (w\<lparr>lw_files := fs\<rparr>) = works js w" "works js (w\<lparr>lw_next := n\<rparr>) = works js w"
  "works js (w\<lparr>lw_listeners := ls\<rparr>) = works js w" "works js (w\<lparr>lw_procs := ps\<rparr>) = works js w"
  by (simp_all add: works_def)

lemma works_files [simp]: "works js (add_file p w) = works js w" "works js (remove_file p w) = works js w"
  by (simp_all add: add_file_def remove_file_def)

lemma bind_mounts_works:
  assumes "works js w"
  shows "\<exists>acc' s' w'. bind_mounts root i ms acc (s, w) = (Ok acc', s', w') \<and> works js w'"
  using assms
proof (induction ms arbitrary: i acc s w)
  case Nil
  then show ?case by (simp del: split_paired_Ex)
next
  case (Cons m ms)
  obtain ports mounts ids where acc: "acc = (ports, mounts, ids)" by (metis prod_cases3)
  have "lw_bind_fails w = (\<lambda>_. None)" using Cons.prems by (simp add: works_def)
  then show ?case unfolding acc using Cons.prems by (simp add: Let_def Cons.IH del: split_paired_Ex)
qed

lemma launch_works:
  assumes "works js w"
  shows "\<exists>s' w'. launch js spec (s, w) = (Done (Ok ()), s', w')"
proof -
  obtain c c' where "lw_qmp w = (\<lambda>_. Ok c)" "qmp_handshake js c = (Done (Ok ()), c')"
    using assms by (metis works_def prod.collapse)
  moreover have "lw_create_fails w = (\<lambda>_. None)" "lw_spawn_fails w = (\<lambda>_. None)"
    using assms by (simp_all add: works_def)
  ultimately show ?thesis by (simp add: launch_def add_file_def Let_def)
qed

lemma ensure_runtime_works:
  assumes "works js w"
  shows "\<exists>rt s' w'. ensure_runtime (s, w) = (Ok rt, s', w') \<and> works js w'"
proof -
  have "lw_create_fails w = (\<lambda>_. None)" "lw_mkdir_fails w = (\<lambda>_. None)"
    using assms by (simp_all add: works_def)
  then show ?thesis using assms
    by (cases "qx_runtime s") (simp_all add: ensure_runtime_def runtime_new_def Let_def add_file_def)
qed

lemma linux_start_works:
  assumes "qx_state s = Created" and "sc_image (qx_config s) = Some im" and "works js w"
  shows "\<exists>s' w'. linux_start js (s, w) = (Done (Ok ()), s', w')"
proof -
  obtain rt s1 w1 where e: "ensure_runtime (s\<lparr>qx_state := Starting\<rparr>, w) = (Ok rt, s1, w1)" and w1: "works js w1"
    using ensure_runtime_works[OF assms(3)] by blast
  have conf: "sc_image (qx_config s1) = Some im" using ensure_runtime_world[OF e] assms(2) by auto
  obtain acc s2 w2 where b: "bind_mounts (rt_root rt) 0 (sc_mounts (qx_config s1)) ([], [], []) (s1, w1) = (Ok acc, s2, w2)"
    and w2: "works js w2"
    using bind_mounts_works[OF w1] by blast
  obtain ports mounts ids where acc: "acc = (ports, mounts, ids)" by (metis prod_cases3)
  obtain s3 w3 where "launch js (linux_spec s2 rt im ports mounts) (s2, w2) = (Done (Ok ()), s3, w3)"
    using launch_works[OF w2] by blast
  then show ?thesis using assms(1) e conf b acc by (simp add: linux_start_def)
qed

lemma sample_handshake:
  "fst (qmp_handshake sample_json
     \<lparr>qm_in = [''hello'', ''return''], qm_closed = b, qm_out = [], qm_broken = False\<rparr>) = Done (Ok ())"
  by (simp add: qmp_handshake_def qmp_read_message_def qmp_execute_def sample_json_def)

lemma sample_start:
  "\<exists>s' w'. linux_start sample_json (sample_sandbox, sample_world [''hello'', ''return''] b) = (Done (Ok ()), s', w')"
proof -
  have "works sample_json (sample_world [''hello'', ''return''] b)"
    unfolding works_def using sample_handshake[of b] by (intro conjI exI) (simp_all add: sample_world_def)
  then show ?thesis by (intro linux_start_works) (simp_all add: sample_sandbox_def qemu_sandbox_new_def)
qed

lemma sample_mounts:
  "sc_mounts (qx_config sample_sandbox) = [HostDir ''/h'' ''/home'' False ''h'', VfsMount ''/mnt/mem'' 0 False ''mem'']"
  "sc_extra_cmdline (qx_config sample_sandbox) = []"
  by (simp_all add: sample_sandbox_def qemu_sandbox_new_def sandbox_config_new_def)


theorem linux_start_wires_mounts_witness:
  "\<exists>s' w' pid (cmd :: qemu_command) root. linux_start sample_json (sample_sandbox, sample_world [''hello'', ''return''] False) =
       (Done (Ok ()), s', w') \<and> qx_child s' = Some pid \<and>
     mount_wired root w' (qc_args cmd) 1 (VfsMount ''/mnt/mem'' 0 False ''mem'')"
proof -
  obtain s' w' where start: "linux_start sample_json (sample_sandbox, sample_world [''hello'', ''return''] False) =
      (Done (Ok ()), s', w')"
    using sample_start by blast
  have plain: "list_all plain_mount (map (\<lambda>m. (ms_tag m, ms_guest_path m)) (sc_mounts (qx_config sample_sandbox)))"
    "list_all no_mount_words (sc_extra_cmdline (qx_config sample_sandbox))"
    unfolding sample_mounts by code_simp+
  let ?ms = "sc_mounts (qx_config sample_sandbox)"
  obtain pid and cmd :: qemu_command and root where "qx_child s' = Some pid"
      "\<forall>i < length ?ms. mount_wired root w' (qc_args cmd) i (?ms ! i)"
    using linux_start_wires_mounts[OF start plain(2,1)] by (elim exE conjE) (rule that)
  then show ?thesis using start
    by (intro exI[of _ s'] exI[of _ w'] exI[of _ pid] exI[of _ cmd] exI[of _ root]) (auto simp: sample_mounts dest: spec[of _ 1])
qed

subsection \<open>The files of a sandbox\<close>

text \<open>The directory a start works in, and the paths below it that it may write, bind or remove.\<close>

definition start_root :: "'v linux \<Rightarrow> path" where
  "start_root = (\<lambda>(s, w). case qx_runtime s of
     Some rt \<Rightarrow> rt_root rt
   | None \<Rightarrow> (case sc_runtime_dir (qx_config s) of
               Some r \<Rightarrow> r
             | None \<Rightarrow> default_runtime_root (lw_env w) (sc_name (qx_config s))))"

definition own_paths :: "path \<Rightarrow> nat \<Rightarrow> path set" where
  "own_paths root n =
     {root, rt_serial_log (runtime_at root), rt_serial_sock (runtime_at root), rt_qmp_sock (runtime_at root),
      rt_monitor_sock (runtime_at root), path_join root ''qemu.stderr.log''} \<union> rpc_socket root ` {..<n}"

definition same_files_but :: "path set \<Rightarrow> 'v linux_world \<Rightarrow> 'v linux_world \<Rightarrow> bool" where
  "same_files_but own w w' \<longleftrightarrow> (\<forall>p. p \<notin> own \<longrightarrow> (p \<in> set (lw_files w') \<longleftrightarrow> p \<in> set (lw_files w)))"

lemma file_sets [simp]:
  "set (lw_files (add_file p w)) = insert p (set (lw_files w))"
  "set (lw_files (remove_file p w)) = set (lw_files w) - {p}"
  by (auto simp: add_file_def remove_file_def)

lemma same_files_trans:
  "same_files_but own w w1 \<Longrightarrow> same_files_but own w1 w2 \<Longrightarrow> same_files_but own w w2"
  by (simp add: same_files_but_def)

lemma ensure_runtime_files:
  assumes "ensure_runtime (s\<lparr>qx_state := x\<rparr>, w) = (r, s', w')"
  shows "same_files_but (own_paths (start_root (s, w)) n) w w' \<and> (\<forall>rt. r = Ok rt \<longrightarrow> rt_root rt = start_root (s, w))"
  using assms
  by (auto simp: ensure_runtime_def runtime_new_def start_root_def own_paths_def same_files_but_def Let_def
      runtime_at_def split: option.splits result.splits prod.splits)

lemma bind_mounts_files:
  assumes "bind_mounts root i ms acc (s, w) = (r, s', w')" and "i + length ms \<le> n"
    and "vs_socket_path ` set (qx_servers s) \<subseteq> own_paths root n"
  shows "same_files_but (own_paths root n) w w' \<and> vs_socket_path ` set (qx_servers s') \<subseteq> own_paths root n"
  using assms
proof (induction ms arbitrary: i acc s w)
  case Nil
  then show ?case by (cases acc) (simp add: same_files_but_def)
next
  case (Cons m ms)
  obtain ports mounts ids where acc: "acc = (ports, mounts, ids)" by (metis prod_cases3)
  let ?sock = "rpc_socket root i"
  let ?w1 = "remove_file ?sock (w\<lparr>lw_next := lw_next w + 1\<rparr>)"
  have own: "?sock \<in> own_paths root n" using Cons.prems(2) by (simp add: own_paths_def)
  then have w1: "same_files_but (own_paths root n) w ?w1" by (auto simp: same_files_but_def)
  show ?case
  proof (cases "lw_bind_fails ?w1 ?sock")
    case (Some e)
    then show ?thesis using Cons.prems w1 acc by (simp add: Let_def)
  next
    case None
    let ?v = "\<lparr>vs_tag = ms_tag m, vs_guest_path = ms_guest_path m, vs_socket_path = ?sock, vs_task = lw_next w + 1\<rparr>"
    let ?w2 = "add_file ?sock (?w1\<lparr>lw_next := lw_next w + 1 + 1,
        lw_listeners := lw_listeners w @ [(lw_next w + 1, ?sock, mount_provider m)]\<rparr>)"
    have rest: "bind_mounts root (i + 1) ms (ports @ [port_for root i m], mounts @ [(ms_tag m, ms_guest_path m)],
        ids @ [(lw_next w, ms_tag m)]) (s\<lparr>qx_servers := qx_servers s @ [?v]\<rparr>, ?w2) = (r, s', w')"
      using Cons.prems(1) acc None by (simp add: Let_def)
    have "same_files_but (own_paths root n) w ?w2" using own by (auto simp: same_files_but_def)
    then show ?thesis using Cons.IH[OF rest] Cons.prems(2,3) own by (auto intro: same_files_trans)
  qed
qed

lemma launch_files:
  assumes "launch js (linux_spec s0 rt im ports mounts) (s, w) = (r, s', w')"
  shows "same_files_but (own_paths (rt_root rt) n) w w'"
  using assms
  by (auto simp: launch_def Let_def same_files_but_def own_paths_def linux_spec_def
      split: option.splits result.splits prod.splits awaited.splits if_splits)

text \<open>A start touches its own paths only, and its sockets are among them.\<close>

lemma linux_start_files:
  assumes "linux_start js (s, w) = (r, s', w')" and "qx_state s = Created" and "qx_servers s = []"
  defines "own \<equiv> own_paths (start_root (s, w)) (length (sc_mounts (qx_config s)))"
  shows "same_files_but own w w' \<and> vs_socket_path ` set (qx_servers s') \<subseteq> own"
proof -
  obtain r1 s1 w1 where e: "ensure_runtime (s\<lparr>qx_state := Starting\<rparr>, w) = (r1, s1, w1)" by (metis prod_cases3)
  have s1: "qx_servers s1 = []" "qx_config s1 = qx_config s" using ensure_runtime_world[OF e] assms(3) by auto
  have w1: "same_files_but own w w1" and root: "r1 = Ok rt \<Longrightarrow> rt_root rt = start_root (s, w)" for rt
    using ensure_runtime_files[OF e] unfolding own_def by blast+
  have bound: "same_files_but own w w2 \<and> vs_socket_path ` set (qx_servers s2) \<subseteq> own"
    if "bind_mounts (rt_root rt) 0 (sc_mounts (qx_config s1)) ([], [], []) (s1, w1) = (rb, s2, w2)" "r1 = Ok rt"
    for rt :: runtime and rb s2 w2
    using bind_mounts_files[OF that(1), of "length (sc_mounts (qx_config s))"] s1 w1 root[OF that(2)]
    unfolding own_def by (auto intro: same_files_trans)
  show ?thesis
  proof (rule linux_start_stages[OF assms(1,2) e])
    fix x assume "s' = s1" "w' = w1"
    then show ?thesis using w1 s1 by simp
  next
    fix rt :: runtime and x s2 w2
    assume "bind_mounts (rt_root rt) 0 (sc_mounts (qx_config s1)) ([], [], []) (s1, w1) = (Err x, s2, w2)"
      "s' = s2" "w' = w2" "r1 = Ok rt"
    then show ?thesis using bound by blast
  next
    fix rt :: runtime and im ports mounts ids s2 w2 s3
    assume b: "bind_mounts (rt_root rt) 0 (sc_mounts (qx_config s1)) ([], [], []) (s1, w1) = (Ok (ports, mounts, ids), s2, w2)"
      and l: "launch js (linux_spec s2 rt im ports mounts) (s2, w2) = (r, s3, w')"
      and s': "s' = (if r = Done (Ok ()) then s3\<lparr>qx_mount_ids := ids, qx_state := Running\<rparr> else s3)"
      and rt: "r1 = Ok rt"
    have "same_files_but own w2 w'" using launch_files[OF l] root[OF rt] unfolding own_def by metis
    then show ?thesis using bound[OF b rt] launch_effect[OF l] s' by (auto intro: same_files_trans)
  qed
qed



text \<open>The second socket cannot be bound.\<close>

definition half_world :: "nat linux_world" where
  "half_world = (sample_world [] False)\<lparr>lw_files := [''/r/rpc0.sock'', ''/other.sock''], lw_bind_fails :=
     (\<lambda>p. if p = ''/r/rpc1.sock'' then Some ''in use'' else None)\<rparr>"

lemma sample_sockets: "rpc_socket ''/r'' 0 = ''/r/rpc0.sock''" "rpc_socket ''/r'' (Suc 0) = ''/r/rpc1.sock''"
  by code_simp+

lemma other_socket: "''/other.sock'' \<notin> own_paths ''/r'' (Suc (Suc 0))"
  unfolding own_paths_def by (simp add: lessThan_Suc sample_sockets) code_simp

lemma half_start:
  "\<exists>s1 w1. linux_start sample_json (sample_sandbox, half_world) =
     (Done (Err (Hypervisor ''rpc bind /r/rpc1.sock: in use'')), s1, w1) \<and>
     qx_qmp s1 = None \<and> map vs_socket_path (qx_servers s1) = [''/r/rpc0.sock'']"
proof -
  let ?s = "sample_sandbox\<lparr>qx_state := Starting\<rparr>"
  have dir: "sc_runtime_dir (qx_config ?s) = Some ''/r''" "qx_runtime ?s = None"
    by (simp_all add: sample_sandbox_def qemu_sandbox_new_def)
  have "lw_mkdir_fails half_world = (\<lambda>_. None)" "lw_create_fails half_world = (\<lambda>_. None)"
    by (simp_all add: half_world_def sample_world_def)
  then obtain w1 where e: "ensure_runtime (?s, half_world) = (Ok (runtime_at ''/r''), ?s\<lparr>qx_runtime := Some (runtime_at ''/r'')\<rparr>, w1)"
      and w1: "lw_bind_fails w1 = lw_bind_fails half_world"
    using dir by (simp add: ensure_runtime_def runtime_new_def Let_def add_file_def remove_file_def)
  have fails: "lw_bind_fails w1 = (\<lambda>p. if p = ''/r/rpc1.sock'' then Some ''in use'' else None)"
    by (simp add: w1 half_world_def)
  have pre: "qx_state sample_sandbox = Created" "sc_image (qx_config sample_sandbox) \<noteq> None"
    "qx_servers sample_sandbox = []" "qx_qmp sample_sandbox = None"
    by (simp_all add: sample_sandbox_def qemu_sandbox_new_def)
  have root: "rt_root (runtime_at ''/r'') = ''/r''" by (simp add: runtime_at_def)
  obtain s1 w2 where b: "bind_mounts ''/r'' 0 (sc_mounts (qx_config sample_sandbox)) ([], [], [])
      (?s\<lparr>qx_runtime := Some (runtime_at ''/r'')\<rparr>, w1) =
      (Err (Hypervisor ''rpc bind /r/rpc1.sock: in use''), s1, w2)"
    and s1: "qx_qmp s1 = None" "map vs_socket_path (qx_servers s1) = [''/r/rpc0.sock'']"
    using pre by (simp add: sample_mounts sample_sockets fails Let_def)
  show ?thesis using e b s1 pre root by (intro exI[of _ s1] exI[of _ w2]) (auto simp: linux_start_def)
qed



text \<open>Once the process has ended and \<^verbatim>\<open>wait\<close> has noticed, \<^verbatim>\<open>stop\<close> does nothing: the accept
  tasks and sockets of the mounts stay until the sandbox is dropped, and the drop takes
  exactly them away.\<close>

theorem linux_wait_then_stop_keeps_servers:
  assumes "qx_child s = Some pid" and "map_of (lw_procs w) pid = None"
  shows "\<exists>s1. linux_wait (s, w) = (Done (Ok ()), s1, w) \<and> linux_stop js (s1, w) = (Done (Ok ()), s1, w) \<and>
    qx_servers s1 = qx_servers s \<and>
    lw_listeners (linux_drop (s1, w)) = filter (\<lambda>(t, _). t \<notin> vs_task ` set (qx_servers s)) (lw_listeners w) \<and>
    lw_files (linux_drop (s1, w)) = filter (\<lambda>p. p \<notin> vs_socket_path ` set (qx_servers s)) (lw_files w)"
  using assms by (simp add: linux_wait_def linux_stop_def linux_drop_def abort_servers)

definition ended_sandbox :: "nat qemu_sandbox" where
  "ended_sandbox = sample_sandbox\<lparr>qx_state := Running, qx_child := Some 5,
     qx_servers := [\<lparr>vs_tag = ''h'', vs_guest_path = ''/home'', vs_socket_path = ''/r/rpc0.sock'', vs_task = 0\<rparr>]\<rparr>"

theorem linux_wait_then_stop_keeps_servers_witness:
  "\<exists>s1. linux_stop sample_json (s1, sample_world [] True) = (Done (Ok ()), s1, sample_world [] True) \<and>
     lw_listeners (linux_drop (s1, sample_world [] True)) = [] \<and>
     lw_files (linux_drop (s1, sample_world [] True)) = []"
proof -
  have "qx_child ended_sandbox = Some 5" "map_of (lw_procs (sample_world [] True)) 5 = None"
    by (simp_all add: ended_sandbox_def sample_world_def)
  from linux_wait_then_stop_keeps_servers[OF this, of sample_json] show ?thesis
    by (auto simp: ended_sandbox_def sample_world_def)
qed

text \<open>C26: \<^verbatim>\<open>stop\<close> never fails and can hang only in its first request: it returns exactly when
  the power-down request is answered, refused or cut off; while the hypervisor keeps the
  connection open and sends events only, \<^verbatim>\<open>stop\<close> waits for ever, the process is not killed
  and the state stays \<open>Stopping\<close>.\<close>

theorem linux_stop_returns:
  "(fst (linux_stop js (s, w)) \<in> {Pending, Done (Ok ())}) \<and>
   (fst (linux_stop js (s, w)) = Pending \<longleftrightarrow> (qx_state s = Running \<or> qx_state s = Starting) \<and>
      (case qx_qmp s of None \<Rightarrow> False | Some c \<Rightarrow>
        \<not> qm_broken c \<and> \<not> qm_closed c \<and> list_all (is_event js) (qm_in c))) \<and>
   (fst (linux_stop js (s, w)) = Pending \<longrightarrow> qx_state (fst (snd (linux_stop js (s, w)))) = Stopping \<and>
      lw_procs (snd (snd (linux_stop js (s, w)))) = lw_procs w)"
proof -
  have await: "fst (qmp_await js ls b) = Pending \<longleftrightarrow> \<not> b \<and> list_all (is_event js) ls" for ls b
    by (induction ls) (auto simp: is_event_def split: result.splits option.splits)
  have power: "fst (qmp_powerdown js c) = Pending \<longleftrightarrow>
      \<not> qm_broken c \<and> \<not> qm_closed c \<and> list_all (is_event js) (qm_in c)" for c
    using await[of "qm_in c" "qm_closed c"]
    by (auto simp: qmp_powerdown_def qmp_execute_def Let_def split: prod.splits awaited.splits result.splits)
  have ok: "r = Ok ()" if returned: "fst (linux_stop js (s, w)) = Done r" for r
  proof (cases "qx_state s = Running \<or> qx_state s = Starting")
    case True
    obtain s' w' where "linux_stop js (s, w) = (Done r, s', w')"
      using returned by (cases "linux_stop js (s, w)") simp
    from linux_stop_effect[OF this True] show ?thesis by simp
  next
    case False
    then show ?thesis using returned linux_stop_idle[of s js w] by simp
  qed
  have result: "fst (linux_stop js (s, w)) \<in> {Pending, Done (Ok ())}"
    using ok by (cases "fst (linux_stop js (s, w))") auto
  have waits: "qx_state (fst (snd (linux_stop js (s, w)))) = Stopping \<and>
      lw_procs (snd (snd (linux_stop js (s, w)))) = lw_procs w" if "fst (linux_stop js (s, w)) = Pending"
    using that by (auto simp: linux_stop_def Let_def split: option.splits prod.splits awaited.splits if_splits)
  show ?thesis
    using result waits linux_stop_pending[of js s w] power by (auto split: option.splits)
qed

text \<open>A hypervisor that sends an event and keeps the connection open.\<close>

theorem linux_stop_returns_witness:
  "fst (linux_stop sample_json
     (ended_sandbox\<lparr>qx_qmp := Some \<lparr>qm_in = [''event''], qm_closed = False, qm_out = [], qm_broken = False\<rparr>\<rparr>,
      sample_world [] True)) = Pending"
  using linux_stop_returns[of sample_json "ended_sandbox\<lparr>qx_qmp :=
      Some \<lparr>qm_in = [''event''], qm_closed = False, qm_out = [], qm_broken = False\<rparr>\<rparr>" "sample_world [] True"]
  by (simp add: ended_sandbox_def is_event_def sample_json_def)

end
