(* ===== verification/Host_Fs_Laws.thy ===== *)
theory Host_Fs_Laws
  imports Host_Fs
begin

text \<open>
  What \<^verbatim>\<open>HostFs\<close> guarantees: its reads and writes byte for byte, the read-only flag,
  the directory jail, and the provider contract of \<^verbatim>\<open>Vfs\<close>. Where the jail does not
  hold, the theorem says so.
\<close>

section \<open>Reading\<close>

lemma take_append_chunk:
  "length buf < len \<Longrightarrow> buf = take (length buf) (drop pos d) \<Longrightarrow>
   bs = take (min (len - length buf) c) (drop (pos + length buf) d) \<Longrightarrow>
   buf @ bs = take (length (buf @ bs)) (drop pos d)"
  by (metis append_eq_conv_conj append_take_drop_id drop_drop add.commute take_add take_take length_append)

lemma hfs_read_loop_file:
  assumes "node_at os k = Some (NFile m d)" and "os_fault os SysRead k = None" and "0 < os_chunk os"
    and "length buf \<le> len" and "buf = take (length buf) (drop pos d)"
  shows "hfs_read_loop os k pos len buf = Ok (take len (drop pos d))"
  using assms
proof (induction os k pos len buf rule: hfs_read_loop.induct)
  case (1 os k pos len buf)
  let ?bs = "take (min (len - length buf) (os_chunk os)) (drop (pos + length buf) d)"
  have rd: "os_read_at os k (pos + length buf) (len - length buf) = Ok ?bs"
    using "1.prems" by (simp add: os_read_at_def guarded_def)
  show ?case
  proof (cases "length buf < len")
    case False
    then show ?thesis using "1.prems" by (subst hfs_read_loop.simps) simp
  next
    case True
    show ?thesis
    proof (cases "?bs = []")
      case True
      then have "length d \<le> pos + length buf" using \<open>length buf < len\<close> "1.prems"(3) by auto
      then have "take len (drop pos d) = take (length buf) (drop pos d)" using \<open>length buf < len\<close> by simp
      then show ?thesis using \<open>length buf < len\<close> True rd "1.prems"(5)
        by (subst hfs_read_loop.simps) simp
    next
      case False
      have "length (buf @ ?bs) \<le> len" using \<open>length buf < len\<close> by simp
      moreover have "buf @ ?bs = take (length (buf @ ?bs)) (drop pos d)"
        using take_append_chunk[OF \<open>length buf < len\<close> "1.prems"(5) refl] .
      ultimately have "hfs_read_loop os k pos len (buf @ ?bs) = Ok (take len (drop pos d))"
        using "1.IH"[OF \<open>length buf < len\<close> rd False] "1.prems" by blast
      then show ?thesis using \<open>length buf < len\<close> False rd by (subst hfs_read_loop.simps) auto
    qed
  qed
qed

lemma hfs_read_loop_bound:
  assumes "hfs_read_loop os k pos len buf = Ok bs" and "length buf \<le> len"
  shows "length bs \<le> len"
  using assms
proof (induction os k pos len buf rule: hfs_read_loop.induct)
  case (1 os k pos len buf)
  show ?case
  proof (cases "length buf < len")
    case False
    then show ?thesis using "1.prems" by (subst (asm) hfs_read_loop.simps) simp
  next
    case True
    obtain r where r: "os_read_at os k (pos + length buf) (len - length buf) = r" by blast
    show ?thesis
    proof (cases r)
      case (Err e)
      then show ?thesis using "1.prems" True r by (subst (asm) hfs_read_loop.simps) simp
    next
      case (Ok cs)
      have "length cs \<le> len - length buf"
        using r Ok by (auto simp: os_read_at_def guarded_def split: option.splits os_node.splits)
      then show ?thesis using "1.IH"[OF True r[unfolded Ok]] "1.prems" True r Ok
        by (cases "cs = []") (auto simp: hfs_read_loop.simps[of os k pos len buf])
    qed
  qed
qed


section \<open>Every method changes the tree only where its path leads\<close>

text \<open>
  \<open>A\<close> holds of every location a resolved guest path can make a system call change: the
  entry it names, or the node it opens.
\<close>

definition confined :: "host_fs \<Rightarrow> host_os \<Rightarrow> (key \<Rightarrow> bool) \<Rightarrow> bool" where
  "confined h os A \<longleftrightarrow>
     (\<forall>p q k. resolve h os p = Ok q \<longrightarrow>
        (os_locate os q = Ok (k, True) \<longrightarrow> A k) \<and>
        (os_resolve os q = Ok k \<longrightarrow> \<not> is_dir_at os k \<longrightarrow> A k))"

lemma confined_locate: "confined h os A \<Longrightarrow> resolve h os p = Ok q \<Longrightarrow> os_locate os q = Ok (k, True) \<Longrightarrow> A k"
  by (auto simp: confined_def)

lemma confined_resolve:
  "confined h os A \<Longrightarrow> resolve h os p = Ok q \<Longrightarrow> os_resolve os q = Ok k \<Longrightarrow> \<not> is_dir_at os k \<Longrightarrow> A k"
  by (auto simp: confined_def)

lemma confined_True [simp]: "confined h os (\<lambda>_. True)"
  by (simp add: confined_def)

lemma snd_hfs_lstat [simp]: "snd (hfs_lstat q os) = os"
  by (simp add: hfs_lstat_def split: result.splits)

lemma snd_io_result [simp]: "snd (io_result r) = snd r"
  by (cases r) simp

lemma hfs_write_steps [vfs_step]:
  assumes "os_wf os" and "confined h os A"
  shows "host_steps A os (snd (hfs_write h p off data os))"
proof (cases "is_ok (check_rw h) \<and> is_ok (resolve h os p)")
  case True
  then obtain q where q: "check_rw h = Ok ()" "resolve h os p = Ok q"
    by (cases "resolve h os p"; cases "check_rw h") auto
  obtain r os1 where op: "os_open_write os True True q = (r, os1)" by fastforce
  have st: "host_steps A os os1"
    using os_open_write_steps[OF assms(1), of q A True True] confined_resolve[OF assms(2) q(2)] op
    by auto
  show ?thesis
  proof (cases r)
    case (Err e)
    then show ?thesis using q op st by (simp add: hfs_write_def)
  next
    case (Ok k)
    have "A k" using os_open_write_ok(1,2)[OF assms(1) op[unfolded Ok]] confined_resolve[OF assms(2) q(2)]
      by blast
    then have "host_steps A os1 (snd (os_write_all os1 k pos data))" for pos
      using os_write_all_steps host_steps_wf[OF st assms(1)] by blast
    then have "host_steps A os (snd (os_write_all os1 k pos data))" for pos
      using st by (meson rtranclp_trans)
    moreover have "snd (hfs_write h p off data os) = os1 \<or>
        (\<exists>pos. snd (hfs_write h p off data os) = snd (os_write_all os1 k pos data))"
      using q op Ok by (auto simp: hfs_write_def split: result.splits prod.splits) (metis snd_conv)+
    ultimately show ?thesis using st by metis
  qed
qed (auto simp: hfs_write_def split: result.splits)

lemma hfs_create_steps [vfs_step]:
  assumes "os_wf os" and "confined h os A"
  shows "host_steps A os (snd (hfs_create h p mode os))"
proof -
  have "host_steps A os (snd (os_open_write os True True q))" if "resolve h os p = Ok q" for q
    using os_open_write_steps[OF assms(1)] confined_resolve[OF assms(2) that] by blast
  then show ?thesis by (fastforce simp: hfs_create_def split: result.splits prod.splits)
qed

lemma hfs_mkdir_steps [vfs_step]:
  assumes "os_wf os" and "confined h os A"
  shows "host_steps A os (snd (hfs_mkdir h p mode os))"
proof -
  have "host_steps A os (snd (os_create_dir os q))" if "resolve h os p = Ok q" for q
    using os_create_dir_steps[OF assms(1)] confined_locate[OF assms(2) that] by blast
  then show ?thesis by (fastforce simp: hfs_mkdir_def split: result.splits prod.splits)
qed

lemma hfs_remove_steps [vfs_step]:
  assumes "os_wf os" and "confined h os A"
  shows "host_steps A os (snd (hfs_remove h p os))"
  using os_remove_file_steps[OF assms(1)] confined_locate[OF assms(2)]
  by (auto simp: hfs_remove_def split: result.splits)

lemma hfs_rmdir_steps [vfs_step]:
  assumes "os_wf os" and "confined h os A"
  shows "host_steps A os (snd (hfs_rmdir h p os))"
  using os_remove_dir_steps[OF assms(1)] confined_locate[OF assms(2)]
  by (auto simp: hfs_rmdir_def split: result.splits)

lemma hfs_rename_steps [vfs_step]:
  assumes "os_wf os" and "confined h os A"
  shows "host_steps A os (snd (hfs_rename h p p' os))"
  using os_rename_steps[OF assms(1)] confined_locate[OF assms(2)]
  by (auto simp: hfs_rename_def split: result.splits)

lemma hfs_truncate_steps [vfs_step]:
  assumes "os_wf os" and "confined h os A"
  shows "host_steps A os (snd (hfs_truncate h p sz os))"
proof (cases "is_ok (check_rw h) \<and> is_ok (resolve h os p)")
  case True
  then obtain q where q: "check_rw h = Ok ()" "resolve h os p = Ok q"
    by (cases "resolve h os p"; cases "check_rw h") auto
  obtain r os1 where op: "os_open_write os False False q = (r, os1)" by fastforce
  have st: "host_steps A os os1"
    using os_open_write_steps[OF assms(1), of q A False False] confined_resolve[OF assms(2) q(2)] op
    by auto
  have "host_steps A os1 (snd (os_set_len os1 k sz))" if "r = Ok k" for k
  proof -
    have "A k" using os_open_write_ok(1,2)[OF assms(1) op[unfolded that]] confined_resolve[OF assms(2) q(2)]
      by blast
    then show ?thesis using os_set_len_steps host_steps_wf[OF st assms(1)] by blast
  qed
  then show ?thesis using q op st
    by (cases r) (auto simp: hfs_truncate_def intro: rtranclp_trans)
qed (auto simp: hfs_truncate_def split: result.splits)

lemmas hfs_wf = vfs_step[OF _ confined_True, THEN host_steps_wf]

text \<open>\<^verbatim>\<open>HostFs\<close> is a provider; with the flag set it is a read-only one.\<close>

interpretation hostfs: vfs_provider "host_fs_vfs h" os_wf for h
proof (unfold_locales, goal_cases)
  case (4 s p off len bs)
  then show ?case using hfs_read_loop_bound
    by (fastforce simp: host_fs_vfs_def hfs_read_def split: result.splits)
next
  case (5 p off bs s n)
  then show ?case by (auto simp: host_fs_vfs_def hfs_write_def split: result.splits prod.splits)
qed (auto simp: host_fs_vfs_def hfs_stat_def hfs_list_def hfs_read_def
      split: result.splits intro: hfs_wf)

interpretation hostfs_ro: readonly_provider "host_fs_vfs (host_fs_new root True)" os_wf for root
  by unfold_locales
    (simp_all add: host_fs_vfs_def host_fs_new_def check_rw_def hfs_write_def hfs_create_def
      hfs_mkdir_def hfs_remove_def hfs_rmdir_def hfs_rename_def hfs_truncate_def)


section \<open>The jail\<close>

text \<open>No spurious failure of \<^verbatim>\<open>canonicalize\<close>: it fails only when the path does not resolve.\<close>

definition canon_reliable :: "host_os \<Rightarrow> bool" where
  "canon_reliable os \<longleftrightarrow> os_fault os SysCanon = (\<lambda>_. None)"

lemma canonicalize_reliable:
  "canon_reliable os \<Longrightarrow> os_canonicalize os p =
     (case os_resolve os p of
        Err e \<Rightarrow> Err e
      | Ok k \<Rightarrow> (case node_at os k of None \<Rightarrow> Err enoent | Some _ \<Rightarrow> Ok (abs_path k)))"
  by (auto simp: os_canonicalize_def canon_reliable_def guarded_def split: result.splits)

lemma path_starts_with_rooted:
  "list_all name_ok r \<Longrightarrow> path_starts_with [] (abs_path r) = False"
  by (simp add: path_starts_with_def)

lemma canonicalize_Ok:
  assumes "os_wf os" and "canon_reliable os" and "os_canonicalize os p = Ok c" and "os_resolve os p = Ok r"
  shows "c = abs_path r" and "list_all name_ok r"
  using assms os_resolve_settled[OF assms(1,4)]
  by (auto simp: canonicalize_reliable settled_def split: option.splits)

text \<open>The check of \<open>resolve\<close>, read off: the directory of the entry lies in the root.\<close>

lemma resolve_parent_inside:
  assumes wf: "os_wf os" and cr: "canon_reliable os" and rs: "resolve h os p = Ok q"
    and root: "os_resolve os (hf_root h) = Ok r"
    and q: "components q = cs @ [Normal n]"
    and d: "os_walk os symlink_limit (os_cwd os) cs = Ok d" "is_dir_at os d"
  shows "prefix r d"
proof -
  let ?probe = "case path_parent q of Some x \<Rightarrow> x | None \<Rightarrow> q"
  from rs obtain c where c: "os_canonicalize os (hf_root h) = Ok c"
    and chk': "path_starts_with (case os_canonicalize os ?probe of Ok c \<Rightarrow> c | Err _ \<Rightarrow> ?probe) c"
    by (auto simp: resolve_def Let_def split: result.splits if_splits)
  note root' = canonicalize_Ok[OF wf cr c root]
  obtain probe where probe: "path_parent q = Some probe" "components probe = cs"
    using path_parent_snoc[OF q] by auto
  have chk: "path_starts_with (case os_canonicalize os probe of Ok c \<Rightarrow> c | Err _ \<Rightarrow> probe) (abs_path r)"
    using chk'[unfolded probe(1) option.case root'(1)] .
  have "list_all name_ok d" using settled_dir[OF wf d(2)] by (simp add: settled_def)
  show ?thesis
  proof (cases "probe = []")
    case True
    then have "os_canonicalize os probe = Err enoent"
      by (simp add: os_canonicalize_def os_resolve_def)
    then show ?thesis using chk True root'(2) by (simp add: path_starts_with_rooted)
  next
    case False
    then have "os_canonicalize os probe = Ok (abs_path d)"
      using cr d probe(2) by (auto simp: canonicalize_reliable os_resolve_def is_dir_at_node)
    then show ?thesis using chk root'(2) \<open>list_all name_ok d\<close> by simp
  qed
qed

lemma jail_locate:
  assumes "os_wf os" and "canon_reliable os" and "resolve h os p = Ok q"
    and "os_resolve os (hf_root h) = Ok r" and "os_locate os q = Ok (k, True)"
  shows "below r k"
proof -
  obtain cs n d where q: "components q = cs @ [Normal n]"
      and d: "os_walk os symlink_limit (os_cwd os) cs = Ok d" "is_dir_at os d" "k = d @ [n]"
    using os_locate_named[OF assms(1,5)] by blast
  have "prefix r d" using resolve_parent_inside[OF assms(1-4) q d(1,2)] .
  then show ?thesis using d(3) by (auto simp: strict_prefix_def prefix_def)
qed

lemma jail_resolve:
  assumes wf: "os_wf os" and "canon_reliable os" and "resolve h os p = Ok q"
    and "os_resolve os (hf_root h) = Ok r" and lf: "link_free os r"
    and k: "os_resolve os q = Ok k" "\<not> is_dir_at os k"
  shows "below r k"
proof -
  have ne: "q \<noteq> []" and walk: "os_walk os symlink_limit (os_cwd os) (components q) = Ok k"
    using k(1) by (auto simp: os_resolve_def split: if_splits)
  obtain cs c where q: "components q = cs @ [c]"
    using components_nonempty[OF ne] by (metis rev_exhaust)
  obtain n where c: "c = Normal n"
    using os_walk_snoc_other[OF wf, of _ _ cs c k] walk q k(2) by fastforce
  note inside = resolve_parent_inside[OF assms(1-4) q[unfolded c]]
  have walk': "os_walk os symlink_limit (os_cwd os) (cs @ [Normal n]) = Ok k"
    using walk q c by simp
  have no_link: "\<forall>m t. node_at os (d @ [n]) \<noteq> Some (NLink m t)"
    if d: "os_walk os symlink_limit (os_cwd os) cs = Ok d" for d
  proof (intro allI notI)
    fix m t assume link: "node_at os (d @ [n]) = Some (NLink m t)"
    then have "is_dir_at os d" using node_below_dir[OF wf link] by simp
    then have "prefix r (d @ [n])" using inside[OF d] by simp
    then show False using lf link by (auto simp: link_free_iff[OF wf])
  qed
  then obtain d where d: "os_walk os symlink_limit (os_cwd os) cs = Ok d" "is_dir_at os d" "k = d @ [n]"
    using os_walk_snoc_name[OF walk' no_link] by blast
  then show ?thesis using inside[OF d(1,2)] by (auto simp: strict_prefix_def prefix_def)
qed

lemma jail_confined:
  assumes "os_wf os" and "canon_reliable os" and "os_resolve os (hf_root h) = Ok r" and "link_free os r"
  shows "confined h os (below r)"
  using jail_locate[OF assms(1,2) _ assms(3)] jail_resolve[OF assms(1,2) _ assms(3,4)]
  by (auto simp: confined_def)


section \<open>Plain guest paths\<close>

text \<open>
  A guest path of plain names below a canonical root reaches the node of the same names,
  through directories only.
\<close>

lemma os_walk_dirs:
  assumes "os_wf os" and "is_dir_at os (cur @ ks)"
  shows "os_walk os f cur (map Normal ks @ cs) = os_walk os f (cur @ ks) cs"
  using assms(2)
proof (induction ks arbitrary: cur)
  case Nil
  then show ?case by simp
next
  case (Cons n ks)
  have cur: "is_dir_at os cur"
    using Cons.prems node_below_dir[OF assms(1)] by (auto simp: is_dir_at_node)
  have "is_dir_at os (cur @ [n])"
    using Cons.prems node_below_dir[OF assms(1), of "cur @ [n]" ks]
    by (cases "ks = []") (auto simp: is_dir_at_node)
  then obtain m l where "node_at os (cur @ [n]) = Some (NDir m l)" by (auto simp: is_dir_at_node)
  then show ?case using Cons.IH[of "cur @ [n]"] Cons.prems cur by simp
qed

lemma abs_path_nonempty: "list_all name_ok r \<Longrightarrow> abs_path r \<noteq> []"
  by (metis components_abs_path components_Nil list.distinct(1))

lemma is_dir_prefix: "os_wf os \<Longrightarrow> is_dir_at os (r @ ks) \<Longrightarrow> is_dir_at os r"
  using node_below_dir[of os r ks] by (cases "ks = []") (auto simp: is_dir_at_node)

lemma canonicalize_dir:
  assumes "os_wf os" and "canon_reliable os" and "is_dir_at os d"
    and "components p = RootDir # map Normal d"
  shows "os_canonicalize os p = Ok (abs_path d)"
proof -
  have "p \<noteq> []" using assms(4) by auto
  moreover have "os_walk os f [] (map Normal d) = Ok d" for f
    using os_walk_dirs[OF assms(1), of "[]" d f "[]"] assms(3) by simp
  ultimately show ?thesis using assms(2-4)
    by (auto simp: canonicalize_reliable os_resolve_def is_dir_at_node)
qed

text \<open>How a guest path below the root is joined, whatever its last component.\<close>

lemma joined_components:
  assumes "list_all name_ok r" and "components p = RootDir # cs"
  shows "\<exists>rel. strip_prefix p ''/'' = Some rel \<and>
           components (path_join (abs_path r) rel) = RootDir # map Normal r @ cs"
proof -
  obtain rel where rel: "strip_prefix p ''/'' = Some rel" "components rel = cs" "\<not> has_root rel"
    using strip_root[OF assms(2)] by blast
  have "body_components (split_on slash rel) = cs"
    using components_relative_body[OF rel(3)] rel(2) rooted_body[OF assms(2)] by simp
  then show ?thesis
    using rel components_join[OF rel(3) abs_path_nonempty[OF assms(1)]] assms(1) by simp
qed

lemma resolve_in_root:
  assumes wf: "os_wf os" and cr: "canon_reliable os" and h: "hf_root h = abs_path r"
    and p: "components p = RootDir # map Normal ns @ [c]" and c: "c \<noteq> RootDir"
    and dir: "is_dir_at os (r @ ns)" and names: "list_all name_ok r"
  shows "\<exists>q. resolve h os p = Ok q \<and> components q = RootDir # map Normal (r @ ns) @ [c]"
proof -
  obtain rel where rel: "strip_prefix p ''/'' = Some rel"
      "components (path_join (abs_path r) rel) = RootDir # map Normal r @ map Normal ns @ [c]"
    using joined_components[OF names p] by blast
  let ?q = "path_join (abs_path r) rel"
  have q: "components ?q = (RootDir # map Normal (r @ ns)) @ [c]" using rel(2) by simp
  obtain probe where probe: "path_parent ?q = Some probe" "components probe = RootDir # map Normal (r @ ns)"
    using path_parent_snoc[OF q c] by auto
  have "os_canonicalize os (abs_path r) = Ok (abs_path r)"
    using canonicalize_dir[OF wf cr is_dir_prefix[OF wf dir]] names by simp
  moreover have "os_canonicalize os probe = Ok (abs_path (r @ ns))"
    using canonicalize_dir[OF wf cr dir probe(2)] .
  moreover have "list_all name_ok (r @ ns)" using settled_dir[OF wf dir] by (simp add: settled_def)
  ultimately show ?thesis using rel(1) probe(1) h names q
    by (auto simp: resolve_def Let_def)
qed

lemma locate_plain:
  assumes "os_wf os" and "is_dir_at os d" and "components q = RootDir # map Normal d @ [Normal n]"
  shows "os_locate os q = Ok (d @ [n], True)"
proof -
  have "os_walk os f cur (RootDir # map Normal d) = Ok d" for f cur
    using os_walk_dirs[OF assms(1), of "[]" d f "[]"] assms(2) by simp
  then show ?thesis using assms(2,3) by (auto simp: os_locate_def is_dir_at_node)
qed

lemma resolve_plain_node:
  assumes "os_wf os" and "is_dir_at os d" and "components q = RootDir # map Normal d @ [Normal n]"
    and "\<And>m t. node_at os (d @ [n]) \<noteq> Some (NLink m t)"
  shows "os_resolve os q = Ok (d @ [n])"
proof -
  have "os_walk os f [] (map Normal d @ [Normal n]) = Ok (d @ [n])" for f
    using os_walk_dirs[OF assms(1), of "[]" d f "[Normal n]"] assms(2,4)
    by (auto split: option.splits os_node.splits)
  moreover have "q \<noteq> []" using assms(3) by auto
  ultimately show ?thesis using assms(3) by (simp add: os_resolve_def)
qed


section \<open>Byte-exact reads and writes\<close>

text \<open>A host on which no system call fails by itself.\<close>

definition healthy :: "host_os \<Rightarrow> bool" where
  "healthy os \<longleftrightarrow> os_fault os = (\<lambda>_ _. None)"

lemma healthy_guarded [simp]: "healthy os \<Longrightarrow> guarded os sys k r = r"
  by (simp add: healthy_def guarded_def)

lemma healthy_fault [simp]: "healthy os \<Longrightarrow> os_fault os sys k = None"
  by (simp add: healthy_def)

lemma healthy_canon [simp]: "healthy os \<Longrightarrow> canon_reliable os"
  by (simp add: healthy_def canon_reliable_def)

lemma healthy_put [simp]: "healthy (put_node os k nd) = healthy os" "healthy (put_data os k m d) = healthy os"
  by (simp_all add: healthy_def put_node_def put_data_def)

text \<open>
  A host serving the canonical directory \<open>r\<close>, and a guest path of plain names \<open>ns\<close>, the
  last one \<open>n\<close>, whose directory exists.
\<close>

definition serves :: "host_fs \<Rightarrow> key \<Rightarrow> host_os \<Rightarrow> key \<Rightarrow> bool" where
  "serves h r os ns \<longleftrightarrow>
     os_wf os \<and> healthy os \<and> hf_root h = abs_path r \<and> list_all name_ok r \<and>
     ns \<noteq> [] \<and> list_all name_ok ns \<and> is_dir_at os (r @ butlast ns)"

lemma serves_resolve:
  assumes "serves h r os ns"
  obtains q where "resolve h os (abs_path ns) = Ok q"
    and "os_locate os q = Ok (r @ ns, True)"
    and "\<lbrakk>\<And>m t. node_at os (r @ ns) \<noteq> Some (NLink m t)\<rbrakk> \<Longrightarrow> os_resolve os q = Ok (r @ ns)"
proof -
  note s = assms[unfolded serves_def]
  obtain ds n where ns: "ns = ds @ [n]" using s by (metis rev_exhaust)
  have p: "components (abs_path ns) = RootDir # map Normal ds @ [Normal n]" using s ns by simp
  have dir: "is_dir_at os (r @ ds)" using s ns by simp
  obtain q where q: "resolve h os (abs_path ns) = Ok q"
      "components q = RootDir # map Normal (r @ ds) @ [Normal n]"
    using resolve_in_root[OF _ _ _ p _ dir] s by auto
  have "os_locate os q = Ok (r @ ns, True)"
    using locate_plain[OF _ dir q(2)] s ns by simp
  moreover have "os_resolve os q = Ok (r @ ns)"
    if "\<And>m t. node_at os (r @ ns) \<noteq> Some (NLink m t)"
    using resolve_plain_node[OF _ dir q(2)] that s ns by simp
  ultimately show ?thesis using q(1) that by blast
qed

lemma hfs_read_plain:
  assumes "serves h r os ns" and "node_at os (r @ ns) = Some (NFile m d)" and "unat off < 2 ^ 63"
  shows "hfs_read h (abs_path ns) off len os = (Ok (take (unat len) (drop (unat off) d)), os)"
proof -
  obtain q where q: "resolve h os (abs_path ns) = Ok q" "os_resolve os q = Ok (r @ ns)"
    using serves_resolve[OF assms(1)] assms(2) by auto
  have h: "healthy os" "0 < os_chunk os" using assms(1) by (auto simp: serves_def)
  have "hfs_read_loop os (r @ ns) (unat off) (unat len) [] = Ok (take (unat len) (drop (unat off) d))"
    using h by (intro hfs_read_loop_file[OF assms(2)]) simp_all
  then show ?thesis using q h assms(2,3)
    by (simp add: hfs_read_def os_open_read_def os_seek_def)
qed

text \<open>The file \<open>write\<close> leaves: everything that was there before is gone.\<close>

lemma hfs_write_plain:
  assumes "serves h r os ns" and "\<not> hf_read_only h" and "unat off < 2 ^ 63"
    and at: "node_at os (r @ ns) = None \<or> (\<exists>m d. node_at os (r @ ns) = Some (NFile m d))"
  shows "\<exists>os' m. hfs_write h (abs_path ns) off data os = (Ok (of_nat (length data)), os') \<and>
           node_at os' (r @ ns) =
             Some (NFile m (if data = [] then [] else replicate (unat off) 0 @ data)) \<and>
           (\<forall>k. k \<noteq> r @ ns \<longrightarrow> node_at os' k = node_at os k) \<and> healthy os' \<and> os_wf os'"
proof -
  note s = assms(1)[unfolded serves_def]
  have h: "os_wf os" "healthy os" using s by auto
  have ne: "r @ ns \<noteq> []" using s by simp
  have "node_at os (r @ ns) \<noteq> Some (NLink m t)" for m t using at by auto
  then obtain q where q: "resolve h os (abs_path ns) = Ok q" "os_resolve os q = Ok (r @ ns)"
    using serves_resolve[OF assms(1)] by metis
  obtain os1 m1 where op: "os_open_write os True True q = (Ok (r @ ns), os1)"
      "node_at os1 (r @ ns) = Some (NFile m1 [])" "\<forall>k. k \<noteq> r @ ns \<longrightarrow> node_at os1 k = node_at os k"
      "healthy os1"
    using at q(2) h(2) ne by (auto simp: os_open_write_def)
  have wf1: "os_wf os1"
    using op(1) os_open_write_steps[OF h(1), of q "\<lambda>_. True" True True] host_steps_wf h(1) by fastforce
  have over: "overwrite [] (unat off) data = replicate (unat off) 0 @ data" if "data \<noteq> []"
    by (simp add: overwrite_def)
  have wr: "hfs_write h (abs_path ns) off data os =
      (Ok (of_nat (length data)),
       if data = [] then os1 else put_data os1 (r @ ns) m1 (replicate (unat off) 0 @ data))"
    using q op assms(2,3) over
    by (simp add: hfs_write_def check_rw_def os_seek_def os_write_all_def)
  show ?thesis
  proof (cases "data = []")
    case True
    then show ?thesis using wr op wf1 by auto
  next
    case False
    then show ?thesis using wr op ne os_wf_put_data[OF wf1 op(2)] by auto
  qed
qed

end
