(* ===== verification/Host_Fs_Props.thy ===== *)
theory Host_Fs_Props
  imports Host_Fs_Laws
begin

text \<open>
  The properties of \<^verbatim>\<open>HostFs\<close> on its own, with a small concrete host to apply them
  to: \<^verbatim>\<open>/srv/box\<close> is the shared directory, \<^verbatim>\<open>/etc/passwd\<close> lies outside, and
  \<^verbatim>\<open>/srv/box/ln\<close> is a symbolic link to it.
\<close>

section \<open>A sample host\<close>

definition sample_meta :: os_meta where
  "sample_meta = \<lparr>om_mode = 33188, om_modified = Some 7, om_accessed = Some 7, om_ctime = 7\<rparr>"

definition sample_os :: host_os where
  "sample_os =
     \<lparr>os_nodes =
        [([''srv''], NDir sample_meta 4096),
         ([''srv'', ''box''], NDir sample_meta 4096),
         ([''srv'', ''box'', ''a''], NFile sample_meta [1, 2, 3]),
         ([''etc''], NDir sample_meta 4096),
         ([''etc'', ''passwd''], NFile sample_meta [9, 9]),
         ([''srv'', ''box'', ''ln''], NLink sample_meta ''/etc/passwd'')],
      os_root_meta = sample_meta, os_cwd = [], os_chunk = 2,
      os_fresh = (\<lambda>_. sample_meta), os_fault = (\<lambda>_ _. None)\<rparr>"

definition sample_fs :: host_fs where
  "sample_fs = host_fs_new ''/srv/box'' False"

lemma sample_wf [simp]: "os_wf sample_os"
  by code_simp

lemma sample_healthy [simp]: "healthy sample_os"
  by (simp add: healthy_def sample_os_def)

lemma sample_canonical [simp]: "canon_reliable sample_os"
  by simp

lemma sample_root: "hf_root sample_fs = abs_path [''srv'', ''box'']"
  by (simp add: sample_fs_def host_fs_new_def abs_path_def)

lemma sample_serves: "serves sample_fs [''srv'', ''box''] sample_os [''a'']"
proof -
  have "is_dir_at sample_os ([''srv'', ''box''] @ butlast [''a''])" by code_simp
  moreover have "list_all name_ok [''srv'', ''box'']" "list_all name_ok [''a'']" by code_simp+
  ultimately show ?thesis by (simp add: serves_def sample_root)
qed

lemma sample_rw: "\<not> hf_read_only sample_fs"
  by (simp add: sample_fs_def host_fs_new_def)

lemma sample_file: "node_at sample_os ([''srv'', ''box''] @ [''a'']) = Some (NFile sample_meta [1, 2, 3])"
  by (simp add: sample_os_def node_at_def)

lemma two_zeros: "replicate 2 (0 :: byte) = [0, 0]"
  by (simp add: numeral_2_eq_2)


section \<open>Properties\<close>

text \<open>C12: reading a file below the root returns exactly its bytes from the offset on, at
  most the requested number, however short the individual reads of the host are, and
  changes nothing.\<close>

theorem hostfs_read_exact:
  assumes "serves h r os ns" and "node_at os (r @ ns) = Some (NFile m d)" and "unat off < 2 ^ 63"
  shows "hfs_read h (abs_path ns) off len os = (Ok (take (unat len) (drop (unat off) d)), os)"
  by (rule hfs_read_plain[OF assms])

theorem hostfs_read_exact_witness:
  "hfs_read sample_fs (abs_path [''a'']) 1 5 sample_os = (Ok [2, 3], sample_os)"
  using hostfs_read_exact[OF sample_serves sample_file, of 1 5] by simp

text \<open>A write through \<^verbatim>\<open>HostFs\<close> replaces the whole file: whatever it held, it holds
  zeros up to the offset and then the data; the reported count is the data's length and
  no other entry of the host changes.\<close>

theorem hostfs_write_replaces:
  assumes "serves h r os ns" and "\<not> hf_read_only h" and "unat off < 2 ^ 63"
    and "node_at os (r @ ns) = None \<or> (\<exists>m d. node_at os (r @ ns) = Some (NFile m d))"
  shows "\<exists>os' m. hfs_write h (abs_path ns) off data os = (Ok (of_nat (length data)), os') \<and>
           node_at os' (r @ ns) =
             Some (NFile m (if data = [] then [] else replicate (unat off) 0 @ data)) \<and>
           (\<forall>k. k \<noteq> r @ ns \<longrightarrow> node_at os' k = node_at os k)"
  using hfs_write_plain[OF assms] by blast

theorem hostfs_write_replaces_witness:
  "\<exists>os' m. hfs_write sample_fs (abs_path [''a'']) 2 [7] sample_os = (Ok 1, os') \<and>
     node_at os' [''srv'', ''box'', ''a''] = Some (NFile m [0, 0, 7])"
  using hostfs_write_replaces[OF sample_serves sample_rw, of 2 "[7]"] sample_file
  by (auto simp: two_zeros)

text \<open>C13: the guest kernel sends a long write as consecutive chunks; through \<^verbatim>\<open>HostFs\<close> only
  the last chunk survives, preceded by zeros, because every write opens the file with
  truncation.\<close>

theorem hostfs_chunked_write_loses_first:
  assumes s: "serves h r os ns" and rw: "\<not> hf_read_only h"
    and at: "node_at os (r @ ns) = None \<or> (\<exists>m d. node_at os (r @ ns) = Some (NFile m d))"
    and len: "length xs < 2 ^ 63" and ys: "ys \<noteq> []"
  shows "\<exists>os' os'' m.
           hfs_write h (abs_path ns) 0 xs os = (Ok (of_nat (length xs)), os') \<and>
           hfs_write h (abs_path ns) (of_nat (length xs)) ys os' = (Ok (of_nat (length ys)), os'') \<and>
           node_at os'' (r @ ns) = Some (NFile m (replicate (length xs) 0 @ ys))"
proof -
  obtain os' m' where w1: "hfs_write h (abs_path ns) 0 xs os = (Ok (of_nat (length xs)), os')"
      "node_at os' (r @ ns) = Some (NFile m' xs)"
      "\<forall>k. k \<noteq> r @ ns \<longrightarrow> node_at os' k = node_at os k" "healthy os'" "os_wf os'"
    using hfs_write_plain[OF s rw _ at, of 0 xs] by (auto split: if_splits)
  have "r @ butlast ns \<noteq> r @ ns" using s by (cases ns rule: rev_cases) (auto simp: serves_def)
  then have "is_dir_at os' (r @ butlast ns)" using s w1(3) by (auto simp: serves_def is_dir_at_def)
  then have s': "serves h r os' ns" using s w1(4,5) by (simp add: serves_def)
  have "unat (of_nat (length xs) :: u64) = length xs"
    using len by (simp add: unat_of_nat_u64)
  then show ?thesis
    using hfs_write_plain[OF s' rw, of "of_nat (length xs)" ys] w1(1,2) len ys by fastforce
qed

theorem hostfs_chunked_write_loses_first_witness:
  "\<exists>os' os'' m.
     hfs_write sample_fs (abs_path [''a'']) 0 [1, 2] sample_os = (Ok 2, os') \<and>
     hfs_write sample_fs (abs_path [''a'']) 2 [3, 4] os' = (Ok 2, os'') \<and>
     node_at os'' [''srv'', ''box'', ''a''] = Some (NFile m [0, 0, 3, 4])"
  using hostfs_chunked_write_loses_first[OF sample_serves sample_rw, of "[1, 2]" "[3, 4]"] sample_file
  by (auto simp: two_zeros)


text \<open>The root of a shared directory cannot be used through \<^verbatim>\<open>HostFs\<close>: the check looks
  at the parent of the joined path, and the parent of the root itself lies outside, so
  every method answers "permission denied" for the path \<^verbatim>\<open>/\<close>.\<close>

theorem hostfs_root_denied:
  assumes "os_wf os" and "canon_reliable os" and "hf_root h = abs_path r" and "is_dir_at os r"
    and "r \<noteq> []"
  shows "resolve h os ''/'' = Err PermissionDenied \<and>
         hfs_stat h ''/'' os = (Err PermissionDenied, os) \<and>
         hfs_list h ''/'' os = (Err PermissionDenied, os)"
proof -
  have names: "list_all name_ok r" using settled_dir[OF assms(1,4)] by (simp add: settled_def)
  obtain rel where rel: "strip_prefix ''/'' ''/'' = Some rel"
      "components (path_join (abs_path r) rel) = RootDir # map Normal r"
    using joined_components[OF names, of "''/''" "[]"] by auto
  obtain r' n where r: "r = r' @ [n]" using assms(5) by (metis rev_exhaust)
  have q: "components (path_join (abs_path r) rel) = (RootDir # map Normal r') @ [Normal n]"
    using rel(2) r by simp
  obtain probe where probe: "path_parent (path_join (abs_path r) rel) = Some probe"
      "components probe = RootDir # map Normal r'"
    using path_parent_snoc[OF q] by auto
  have r': "is_dir_at os r'" using is_dir_prefix[OF assms(1), of r' "[n]"] assms(4) r by simp
  have "os_canonicalize os (abs_path r) = Ok (abs_path r)"
    using canonicalize_dir[OF assms(1,2,4)] names by simp
  moreover have "os_canonicalize os probe = Ok (abs_path r')"
    using canonicalize_dir[OF assms(1,2) r' probe(2)] .
  ultimately have "resolve h os ''/'' = Err PermissionDenied"
    using rel(1) probe(1) assms(3) names r by (simp add: resolve_def Let_def)
  then show ?thesis by (simp add: hfs_stat_def hfs_list_def)
qed

theorem hostfs_root_denied_witness:
  "hfs_stat sample_fs ''/'' sample_os = (Err PermissionDenied, sample_os)"
proof -
  have "is_dir_at sample_os [''srv'', ''box'']" by code_simp
  then show ?thesis using hostfs_root_denied[OF sample_wf sample_canonical sample_root] by simp
qed

text \<open>A final \<^verbatim>\<open>..\<close> escapes the jail: listing \<^verbatim>\<open>/..\<close> lists the directory that contains
  the shared one, and \<^verbatim>\<open>stat\<close> answers for it.\<close>

theorem hostfs_dotdot_escapes:
  assumes wf: "os_wf os" and h: "healthy os" and root: "hf_root h = abs_path r" and dir: "is_dir_at os r"
    and p: "components p = [RootDir, ParentDir]"
  shows "hfs_list h p os =
           (Ok (map (\<lambda>(n, nd). \<lparr>de_name = display_path n, de_kind = kind_of nd\<rparr>) (dir_children os (butlast r))), os) \<and>
         (\<exists>nd. node_at os (butlast r) = Some nd \<and> hfs_stat h p os = (Ok (attr_from_meta nd), os))"
proof -
  have names: "list_all name_ok r" using settled_dir[OF wf dir] by (simp add: settled_def)
  obtain q where q: "resolve h os p = Ok q" "components q = RootDir # map Normal r @ [ParentDir]"
    using resolve_in_root[OF wf healthy_canon[OF h] root, of p "[]" ParentDir] p dir names by auto
  obtain m n where up: "node_at os (butlast r) = Some (NDir m n)"
    using settled_parent[OF wf dir] by (auto simp: is_dir_at_node)
  have walk: "os_walk os f cur (components q) = Ok (butlast r)" for f cur
    using os_walk_dirs[OF wf, of "[]" r f "[ParentDir]"] dir q(2) by simp
  have "os_locate os q = Ok (butlast r, False)" using walk q(2) by (simp add: os_locate_def)
  moreover have "os_resolve os q = Ok (butlast r)" using walk q(2) by (auto simp: os_resolve_def)
  ultimately show ?thesis using q(1) up h
    by (simp add: hfs_list_def os_read_dir_def hfs_stat_def hfs_lstat_def os_symlink_metadata_def)
qed

theorem hostfs_dotdot_escapes_witness:
  "fst (hfs_list sample_fs ''/..'' sample_os) = Ok [\<lparr>de_name = ''box'', de_kind = Dir\<rparr>]"
proof -
  have "is_dir_at sample_os [''srv'', ''box'']" by code_simp
  moreover have "components ''/..'' = [RootDir, ParentDir]" by code_simp
  moreover have "dir_children sample_os (butlast [''srv'', ''box'']) = [(''box'', NDir sample_meta 4096)]"
    by (simp add: dir_children_def sample_os_def)
  moreover have "display_path ''box'' = ''box''" by code_simp
  ultimately show ?thesis
    using hostfs_dotdot_escapes[OF sample_wf sample_healthy sample_root, of "''/..''"] by simp
qed

text \<open>A symbolic link inside the shared directory is followed out of it: reading the
  link reads the file it points to, wherever that is.\<close>

theorem hostfs_symlink_escapes:
  assumes s: "serves h r os ns" and link: "node_at os (r @ ns) = Some (NLink m (abs_path t))"
    and t: "node_at os t = Some (NFile m' d)" "is_dir_at os (butlast t)" and off: "unat off < 2 ^ 63"
  shows "hfs_read h (abs_path ns) off len os = (Ok (take (unat len) (drop (unat off) d)), os)"
proof -
  note sv = s[unfolded serves_def]
  have wf: "os_wf os" and hl: "healthy os" using sv by auto
  obtain ds n where ns: "ns = ds @ [n]" using sv by (metis rev_exhaust)
  have dir: "is_dir_at os (r @ ds)" using sv ns by simp
  have p: "components (abs_path ns) = RootDir # map Normal ds @ [Normal n]" using sv ns by simp
  obtain q where q: "resolve h os (abs_path ns) = Ok q"
      "components q = RootDir # map Normal (r @ ds) @ [Normal n]"
    using resolve_in_root[OF wf _ _ p _ dir] sv by auto
  have tn: "list_all name_ok t" using os_wf_node[OF wf t(1)] by simp
  have "t \<noteq> []" using t(1) by auto
  then obtain td tl where td: "t = td @ [tl]" by (metis rev_exhaust)
  have "os_walk os f cur (components (abs_path t)) = Ok t" for f cur
    using os_walk_dirs[OF wf, of "[]" td f "[Normal tl]"] t td tn by simp
  then have "os_walk os symlink_limit cur (components q) = Ok t" for cur
    using q(2) os_walk_dirs[OF wf, of "[]" "r @ ds" symlink_limit "[Normal n]"] dir link ns
      abs_path_nonempty[OF tn]
    by (simp add: symlink_limit_def)
  then have "os_resolve os q = Ok t" using q(2) by (auto simp: os_resolve_def)
  moreover have "hfs_read_loop os t (unat off) (unat len) [] = Ok (take (unat len) (drop (unat off) d))"
    using hl wf by (intro hfs_read_loop_file[OF t(1)]) auto
  ultimately show ?thesis using q(1) hl t(1) off
    by (simp add: hfs_read_def os_open_read_def os_seek_def)
qed

theorem hostfs_symlink_escapes_witness:
  "hfs_read sample_fs (abs_path [''ln'']) 0 9 sample_os = (Ok [9, 9], sample_os)"
proof -
  have s: "serves sample_fs [''srv'', ''box''] sample_os [''ln'']"
    using sample_serves by (simp add: serves_def name_ok_def)
  have link: "node_at sample_os ([''srv'', ''box''] @ [''ln'']) =
      Some (NLink sample_meta (abs_path [''etc'', ''passwd'']))"
    by (simp add: sample_os_def node_at_def abs_path_def)
  have t: "node_at sample_os [''etc'', ''passwd''] = Some (NFile sample_meta [9, 9])"
    and d: "is_dir_at sample_os (butlast [''etc'', ''passwd''])"
    by (simp_all add: sample_os_def node_at_def is_dir_at_def)
  show ?thesis using hostfs_symlink_escapes[OF s link t d, of 0 9] by simp
qed

end
