(* ===== verification/Rpc_Wire.thy ===== *)
theory Rpc_Wire
  imports Vfs
begin

text \<open>
  The wire protocol of \<^verbatim>\<open>tokimo-packages-vm-rpc\<close>: the messages (\<^verbatim>\<open>proto.rs\<close>) and the
  4-byte big-endian length-prefixed frames (\<^verbatim>\<open>frame.rs\<close>). The body of a frame is the
  \<^verbatim>\<open>postcard\<close> encoding of a message; \<^verbatim>\<open>postcard\<close> is not part of the repository, so
  the encoder and decoder are parameters (\<open>codec\<close>). A byte stream is the list of the
  bytes sent and not yet read, with a flag that says whether the sender has closed it.
\<close>

section \<open>Messages\<close>

definition protocol_version :: u32 where
  "protocol_version = 1"

datatype request =
    ReqHello u32
  | ReqStat path
  | ReqList path
  | ReqRead path u64 u32
  | ReqWrite path u64 "byte list"
  | ReqCreate path u32
  | ReqMkdir path u32
  | ReqRemove path
  | ReqRmdir path
  | ReqRename path path
  | ReqTruncate path u64

type_synonym 'a vfs_result = "('a, vfs_error) result"

datatype response =
    RespHello u32
  | RespStat "file_attr vfs_result"
  | RespList "dir_entry list vfs_result"
  | RespRead "byte list vfs_result"
  | RespWrite "u32 vfs_result"
  | RespCreate "file_attr vfs_result"
  | RespMkdir "file_attr vfs_result"
  | RespRemove "unit vfs_result"
  | RespRmdir "unit vfs_result"
  | RespRename "unit vfs_result"
  | RespTruncate "unit vfs_result"

text \<open>An \<^verbatim>\<open>anyhow::Error\<close> is its message.\<close>

type_synonym anyhow = string

type_synonym 'm encoder = "'m \<Rightarrow> (byte list, anyhow) result"
type_synonym 'm decoder = "byte list \<Rightarrow> ('m, anyhow) result"

record codec =
  enc_req :: "request encoder"
  dec_req :: "request decoder"
  enc_resp :: "response encoder"
  dec_resp :: "response decoder"


section \<open>Frames\<close>

text \<open>
  One direction of a stream: what was sent and not yet read, and how many more bytes the transport
  takes before it fails (\<open>None\<close>: no failure). A failing \<^verbatim>\<open>write_all\<close> may have sent a
  part.
\<close>

record wchan =
  wc_pending :: "byte list"
  wc_room :: "nat option"

definition write_all :: "byte list \<Rightarrow> wchan \<Rightarrow> (unit, anyhow) result \<times> wchan" where
  "write_all bs w =
     (case wc_room w of
        None \<Rightarrow> (Ok (), w\<lparr>wc_pending := wc_pending w @ bs\<rparr>)
      | Some n \<Rightarrow>
          if length bs \<le> n
          then (Ok (), w\<lparr>wc_pending := wc_pending w @ bs, wc_room := Some (n - length bs)\<rparr>)
          else (Err ''broken pipe'', w\<lparr>wc_pending := wc_pending w @ take n bs, wc_room := Some 0\<rparr>))"

definition write_frame :: "'m encoder \<Rightarrow> 'm \<Rightarrow> wchan \<Rightarrow> (unit, anyhow) result \<times> wchan" where
  "write_frame enc msg w =
     (case enc msg of
        Err e \<Rightarrow> (Err e, w)
      | Ok bytes \<Rightarrow>
          if 2 ^ 32 \<le> length bytes then (Err ''frame too large'', w)
          else (case write_all (to_be_bytes (of_nat (length bytes))) w of
                  (Err e, w1) \<Rightarrow> (Err e, w1)
                | (Ok _, w1) \<Rightarrow> write_all bytes w1))"

text \<open>The largest body \<^verbatim>\<open>read_frame\<close> accepts: 64 MiB.\<close>

definition max_frame :: nat where
  "max_frame = 64 * 1024 * 1024"

text \<open>
  One \<^verbatim>\<open>read_frame\<close> on the bytes present: a message, an error (with what is left in the
  stream afterwards), or waiting for more bytes of an open stream.
\<close>

datatype 'm read_outcome =
    Got 'm "byte list"
  | Failed anyhow "byte list"
  | Waiting

definition read_frame :: "'m decoder \<Rightarrow> bool \<Rightarrow> byte list \<Rightarrow> 'm read_outcome" where
  "read_frame dec closed bs =
     (if length bs < 4 then (if closed then Failed ''early eof'' [] else Waiting)
      else
        let len = unat (from_be_bytes (take 4 bs)); rest = drop 4 bs
        in if max_frame < len then Failed (''frame too large: '' @ show_nat len) rest
           else if length rest < len then (if closed then Failed ''early eof'' [] else Waiting)
           else (case dec (take len rest) of
                   Ok m \<Rightarrow> Got m (drop len rest)
                 | Err e \<Rightarrow> Failed e (drop len rest)))"

text \<open>The bytes of one frame.\<close>

definition frame_bytes :: "byte list \<Rightarrow> byte list" where
  "frame_bytes body = to_be_bytes (of_nat (length body)) @ body"

lemma take_frame [simp]: "take 4 (frame_bytes body) = to_be_bytes (of_nat (length body))"
  by (simp add: frame_bytes_def)

lemma drop_frame [simp]: "drop 4 (frame_bytes body) = body"
  by (simp add: frame_bytes_def)

lemma length_frame [simp]: "length (frame_bytes body) = 4 + length body"
  by (simp add: frame_bytes_def)

lemma max_frame_u32: "n \<le> max_frame \<Longrightarrow> n < 2 ^ 32"
  by (simp add: max_frame_def)

lemma read_frame_body:
  assumes "length body \<le> max_frame"
  shows "read_frame dec closed (frame_bytes body @ rest) =
    (case dec body of Ok m \<Rightarrow> Got m rest | Err e \<Rightarrow> Failed e rest)"
  using assms max_frame_u32[OF assms]
  by (simp add: read_frame_def Let_def unat_of_nat_u32 split: result.splits)

lemma read_frame_consumes:
  "read_frame dec closed bs = Got m rest \<Longrightarrow> length rest + 4 \<le> length bs"
  by (auto simp: read_frame_def Let_def split: if_splits result.splits)

lemma write_frame_open:
  assumes "enc msg = Ok body" and "length body < 2 ^ 32" and "wc_room w = None"
  shows "write_frame enc msg w = (Ok (), w\<lparr>wc_pending := wc_pending w @ frame_bytes body\<rparr>)"
  using assms by (simp add: write_frame_def write_all_def frame_bytes_def)

end
