(* ===== verification/Rpc.thy ===== *)
theory Rpc
  imports Rpc_Wire
begin

text \<open>
  The two ends of the RPC (\<^verbatim>\<open>server.rs\<close>, \<^verbatim>\<open>client.rs\<close>). The server reads a request,
  runs it on the provider and writes the response, until the stream ends or breaks. The
  client holds a mutex for a whole call, so its calls are sequential: a request frame
  out, the response frame in. A connection is the provider's state, the bytes under way
  in both directions and whether the server is still running.
\<close>

section \<open>The server\<close>

fun handle :: "'s tokimo_vfs \<Rightarrow> request \<Rightarrow> 's \<Rightarrow> response \<times> 's" where
  "handle V (ReqHello _) s = (RespHello protocol_version, s)"
| "handle V (ReqStat p) s = apfst RespStat (vfs_stat V p s)"
| "handle V (ReqList p) s = apfst RespList (vfs_list V p s)"
| "handle V (ReqRead p off len) s = apfst RespRead (vfs_read V p off len s)"
| "handle V (ReqWrite p off data) s = apfst RespWrite (vfs_write V p off data s)"
| "handle V (ReqCreate p mode) s = apfst RespCreate (vfs_create V p mode s)"
| "handle V (ReqMkdir p mode) s = apfst RespMkdir (vfs_mkdir V p mode s)"
| "handle V (ReqRemove p) s = apfst RespRemove (vfs_remove V p s)"
| "handle V (ReqRmdir p) s = apfst RespRmdir (vfs_rmdir V p s)"
| "handle V (ReqRename p q) s = apfst RespRename (vfs_rename V p q s)"
| "handle V (ReqTruncate p sz) s = apfst RespTruncate (vfs_truncate V p sz s)"

text \<open>
  \<^verbatim>\<open>serve_stream\<close> on the bytes present: whether it is still running (waiting for the rest
  of a frame), the unread bytes, the provider's state, the response direction. Every way
  of returning is \<^verbatim>\<open>Ok(())\<close> in the code.
\<close>

function serve ::
    "codec \<Rightarrow> 's tokimo_vfs \<Rightarrow> bool \<Rightarrow> byte list \<Rightarrow> 's \<Rightarrow> wchan \<Rightarrow> bool \<times> byte list \<times> 's \<times> wchan" where
  "serve c V closed bs s w =
     (case read_frame (dec_req c) closed bs of
        Waiting \<Rightarrow> (True, bs, s, w)
      | Failed e rest \<Rightarrow> (False, rest, s, w)
      | Got req rest \<Rightarrow>
          (case handle V req s of (resp, s') \<Rightarrow>
             (case write_frame (enc_resp c) resp w of
                (Err e, w') \<Rightarrow> (False, rest, s', w')
              | (Ok _, w') \<Rightarrow> serve c V closed rest s' w')))"
  by pat_completeness auto
termination
  by (relation "measure (\<lambda>(c, V, closed, bs, s, w). length bs)")
    (auto dest!: read_frame_consumes)

declare serve.simps [simp del]


section \<open>The client\<close>

record 's conn =
  cn_state :: 's
  cn_up :: wchan  \<comment> \<open>client to server\<close>
  cn_down :: wchan  \<comment> \<open>server to client\<close>
  cn_running :: bool

text \<open>
  The server's turn. When it returns, its half of the stream is dropped: what the client
  has sent is lost and later writes fail.
\<close>

definition server_turn :: "codec \<Rightarrow> 's tokimo_vfs \<Rightarrow> 's conn \<Rightarrow> 's conn" where
  "server_turn c V k =
     (if \<not> cn_running k then k
      else (case serve c V False (wc_pending (cn_up k)) (cn_state k) (cn_down k) of
              (running, rest, s, down) \<Rightarrow>
                k\<lparr>cn_state := s, cn_down := down, cn_running := running,
                  cn_up := (if running then (cn_up k)\<lparr>wc_pending := rest\<rparr>
                            else \<lparr>wc_pending = [], wc_room = Some 0\<rparr>)\<rparr>))"

text \<open>\<^verbatim>\<open>Client::call\<close>; \<open>None\<close> is a call that never returns.\<close>

definition client_call ::
    "codec \<Rightarrow> 's tokimo_vfs \<Rightarrow> request \<Rightarrow> 's conn \<Rightarrow> (response, anyhow) result option \<times> 's conn" where
  "client_call c V req k =
     (case write_frame (enc_req c) req (cn_up k) of
        (Err e, up) \<Rightarrow> (Some (Err e), k\<lparr>cn_up := up\<rparr>)
      | (Ok _, up) \<Rightarrow>
          let k1 = server_turn c V (k\<lparr>cn_up := up\<rparr>)
          in case read_frame (dec_resp c) (\<not> cn_running k1) (wc_pending (cn_down k1)) of
               Waiting \<Rightarrow> (None, k1)
             | Failed e rest \<Rightarrow> (Some (Err e), k1\<lparr>cn_down := (cn_down k1)\<lparr>wc_pending := rest\<rparr>\<rparr>)
             | Got resp rest \<Rightarrow> (Some (Ok resp), k1\<lparr>cn_down := (cn_down k1)\<lparr>wc_pending := rest\<rparr>\<rparr>))"

text \<open>The call as the client's methods use it, a call that never returns read as an error.\<close>

definition rpc_call ::
    "codec \<Rightarrow> 's tokimo_vfs \<Rightarrow> request \<Rightarrow> ('s conn, response, anyhow) call" where
  "rpc_call c V req k =
     (case client_call c V req k of
        (Some r, k') \<Rightarrow> (r, k')
      | (None, k') \<Rightarrow> (Err ''no response'', k'))"

type_synonym 'w caller = "request \<Rightarrow> ('w, response, anyhow) call"

definition client_hello :: "'w caller \<Rightarrow> ('w, unit, anyhow) call" where
  "client_hello C w =
     (case C (ReqHello protocol_version) w of
        (Err e, w') \<Rightarrow> (Err e, w')
      | (Ok (RespHello v), w') \<Rightarrow>
          if v = protocol_version then (Ok (), w')
          else (Err (''protocol mismatch: server '' @ show_nat (unat v)), w')
      | (Ok _, w') \<Rightarrow> (Err ''unexpected response'', w'))"

definition bad_resp :: vfs_error where
  "bad_resp = Io ''bad resp''"

definition client_stat :: "'w caller \<Rightarrow> path \<Rightarrow> ('w, file_attr) vfs_call" where
  "client_stat C p w =
     (case C (ReqStat p) w of
        (Err e, w') \<Rightarrow> (Err (Io e), w')
      | (Ok (RespStat r), w') \<Rightarrow> (r, w')
      | (Ok _, w') \<Rightarrow> (Err bad_resp, w'))"

definition client_list :: "'w caller \<Rightarrow> path \<Rightarrow> ('w, dir_entry list) vfs_call" where
  "client_list C p w =
     (case C (ReqList p) w of
        (Err e, w') \<Rightarrow> (Err (Io e), w')
      | (Ok (RespList r), w') \<Rightarrow> (r, w')
      | (Ok _, w') \<Rightarrow> (Err bad_resp, w'))"

definition client_read :: "'w caller \<Rightarrow> path \<Rightarrow> u64 \<Rightarrow> u32 \<Rightarrow> ('w, byte list) vfs_call" where
  "client_read C p off len w =
     (case C (ReqRead p off len) w of
        (Err e, w') \<Rightarrow> (Err (Io e), w')
      | (Ok (RespRead r), w') \<Rightarrow> (r, w')
      | (Ok _, w') \<Rightarrow> (Err bad_resp, w'))"

definition client_write :: "'w caller \<Rightarrow> path \<Rightarrow> u64 \<Rightarrow> byte list \<Rightarrow> ('w, u32) vfs_call" where
  "client_write C p off data w =
     (case C (ReqWrite p off data) w of
        (Err e, w') \<Rightarrow> (Err (Io e), w')
      | (Ok (RespWrite r), w') \<Rightarrow> (r, w')
      | (Ok _, w') \<Rightarrow> (Err bad_resp, w'))"

definition client_create :: "'w caller \<Rightarrow> path \<Rightarrow> u32 \<Rightarrow> ('w, file_attr) vfs_call" where
  "client_create C p mode w =
     (case C (ReqCreate p mode) w of
        (Err e, w') \<Rightarrow> (Err (Io e), w')
      | (Ok (RespCreate r), w') \<Rightarrow> (r, w')
      | (Ok _, w') \<Rightarrow> (Err bad_resp, w'))"

definition client_mkdir :: "'w caller \<Rightarrow> path \<Rightarrow> u32 \<Rightarrow> ('w, file_attr) vfs_call" where
  "client_mkdir C p mode w =
     (case C (ReqMkdir p mode) w of
        (Err e, w') \<Rightarrow> (Err (Io e), w')
      | (Ok (RespMkdir r), w') \<Rightarrow> (r, w')
      | (Ok _, w') \<Rightarrow> (Err bad_resp, w'))"

definition client_remove :: "'w caller \<Rightarrow> path \<Rightarrow> ('w, unit) vfs_call" where
  "client_remove C p w =
     (case C (ReqRemove p) w of
        (Err e, w') \<Rightarrow> (Err (Io e), w')
      | (Ok (RespRemove r), w') \<Rightarrow> (r, w')
      | (Ok _, w') \<Rightarrow> (Err bad_resp, w'))"

definition client_rmdir :: "'w caller \<Rightarrow> path \<Rightarrow> ('w, unit) vfs_call" where
  "client_rmdir C p w =
     (case C (ReqRmdir p) w of
        (Err e, w') \<Rightarrow> (Err (Io e), w')
      | (Ok (RespRmdir r), w') \<Rightarrow> (r, w')
      | (Ok _, w') \<Rightarrow> (Err bad_resp, w'))"

definition client_rename :: "'w caller \<Rightarrow> path \<Rightarrow> path \<Rightarrow> ('w, unit) vfs_call" where
  "client_rename C p q w =
     (case C (ReqRename p q) w of
        (Err e, w') \<Rightarrow> (Err (Io e), w')
      | (Ok (RespRename r), w') \<Rightarrow> (r, w')
      | (Ok _, w') \<Rightarrow> (Err bad_resp, w'))"

definition client_truncate :: "'w caller \<Rightarrow> path \<Rightarrow> u64 \<Rightarrow> ('w, unit) vfs_call" where
  "client_truncate C p sz w =
     (case C (ReqTruncate p sz) w of
        (Err e, w') \<Rightarrow> (Err (Io e), w')
      | (Ok (RespTruncate r), w') \<Rightarrow> (r, w')
      | (Ok _, w') \<Rightarrow> (Err bad_resp, w'))"

text \<open>The client offers the ten methods of the trait.\<close>

definition client_vfs :: "'w caller \<Rightarrow> 'w tokimo_vfs" where
  "client_vfs C =
     \<lparr>vfs_stat = client_stat C, vfs_list = client_list C, vfs_read = client_read C,
      vfs_write = client_write C, vfs_create = client_create C, vfs_mkdir = client_mkdir C,
      vfs_remove = client_remove C, vfs_rmdir = client_rmdir C, vfs_rename = client_rename C,
      vfs_truncate = client_truncate C\<rparr>"

lemmas client_ops_defs = client_stat_def client_list_def client_read_def client_write_def
  client_create_def client_mkdir_def client_remove_def client_rmdir_def client_rename_def
  client_truncate_def

lemma client_vfs_simps [simp]:
  "vfs_stat (client_vfs C) = client_stat C" "vfs_list (client_vfs C) = client_list C"
  "vfs_read (client_vfs C) = client_read C" "vfs_write (client_vfs C) = client_write C"
  "vfs_create (client_vfs C) = client_create C" "vfs_mkdir (client_vfs C) = client_mkdir C"
  "vfs_remove (client_vfs C) = client_remove C" "vfs_rmdir (client_vfs C) = client_rmdir C"
  "vfs_rename (client_vfs C) = client_rename C" "vfs_truncate (client_vfs C) = client_truncate C"
  by (simp_all add: client_vfs_def)

end
