(* ===== verification/Rpc_Laws.thy ===== *)
theory Rpc_Laws
  imports Rpc
begin

text \<open>
  What the RPC delivers. A transport is an interface (\<open>vfs_transport\<close>): a call on a
  synchronised connection is one \<^verbatim>\<open>handle\<close> on the provider. The client's methods are
  then the provider's methods, proved once inside the locale; \<^verbatim>\<open>Client::call\<close> over
  frames is an instance. The server's loop does not depend on how the bytes arrive.
\<close>

section \<open>Messages a codec carries\<close>

text \<open>The encoding of the message fits a frame and decodes to the message.\<close>

definition fits_frame :: "'m encoder \<Rightarrow> 'm decoder \<Rightarrow> 'm \<Rightarrow> bool" where
  "fits_frame enc dec m =
     (case enc m of Ok b \<Rightarrow> length b \<le> max_frame \<and> dec b = Ok m | Err _ \<Rightarrow> False)"

definition carries :: "codec \<Rightarrow> 's tokimo_vfs \<Rightarrow> request \<Rightarrow> 's \<Rightarrow> bool" where
  "carries c V req s \<longleftrightarrow>
     fits_frame (enc_req c) (dec_req c) req \<and>
     fits_frame (enc_resp c) (dec_resp c) (fst (handle V req s))"

lemma fits_frameE:
  assumes "fits_frame enc dec m"
  obtains b where "enc m = Ok b" "length b \<le> max_frame" "dec b = Ok m"
  using assms by (auto simp: fits_frame_def split: result.splits)

definition idle :: wchan where
  "idle = \<lparr>wc_pending = [], wc_room = None\<rparr>"

text \<open>A connection on which nothing is under way.\<close>

definition insync :: "'s \<Rightarrow> 's conn" where
  "insync s = \<lparr>cn_state = s, cn_up = idle, cn_down = idle, cn_running = True\<rparr>"

text \<open>A connection whose server has returned.\<close>

definition closed_conn :: "'s \<Rightarrow> byte list \<Rightarrow> 's conn \<Rightarrow> bool" where
  "closed_conn s down k \<longleftrightarrow>
     cn_state k = s \<and> \<not> cn_running k \<and> wc_room (cn_up k) = Some 0 \<and> wc_pending (cn_down k) = down"

lemma write_frame_idle:
  assumes "enc m = Ok b" and "length b < 2 ^ 32" and "wc_room w = None"
  shows "write_frame enc m w = (Ok (), \<lparr>wc_pending = wc_pending w @ frame_bytes b, wc_room = None\<rparr>)"
  using write_frame_open[of enc m b w] assms by (cases w) auto

lemma write_frame_unbounded:
  assumes "wc_room w = None"
  obtains e where "write_frame enc m w = (Err e, w)"
  | b where "enc m = Ok b" "length b < 2 ^ 32"
      "write_frame enc m w = (Ok (), \<lparr>wc_pending = wc_pending w @ frame_bytes b, wc_room = None\<rparr>)"
proof (cases "enc m")
  case (Err e)
  then have "write_frame enc m w = (Err e, w)" by (simp add: write_frame_def)
  then show ?thesis by (rule that(1))
next
  case (Ok b)
  show ?thesis
  proof (cases "length b < 2 ^ 32")
    case True
    then show ?thesis using that(2) Ok write_frame_idle[of enc m b w] assms by blast
  next
    case False
    then have "write_frame enc m w = (Err ''frame too large'', w)"
      using Ok by (simp add: write_frame_def)
    then show ?thesis by (rule that(1))
  qed
qed


section \<open>The server does not depend on chunking\<close>

lemma read_frame_more:
  assumes "read_frame dec False bs = Got m rest"
  shows "read_frame dec closed (bs @ ext) = Got m (rest @ ext)"
  using assms by (auto simp: read_frame_def Let_def split: if_splits result.splits)

lemma serve_waiting [simp]: "serve c V False [] s w = (True, [], s, w)"
  by (subst serve.simps) (simp add: read_frame_def)

lemma serve_one:
  assumes "dec_req c b = Ok req" and "length b \<le> max_frame"
    and "handle V req s = (resp, s')" and "enc_resp c resp = Ok rb" and "length rb < 2 ^ 32"
    and "wc_room w = None"
  shows "serve c V closed (frame_bytes b @ rest) s w =
    serve c V closed rest s' \<lparr>wc_pending = wc_pending w @ frame_bytes rb, wc_room = None\<rparr>"
  using assms
  by (subst serve.simps) (simp add: read_frame_body write_frame_idle)

lemma serve_resume:
  assumes "serve c V False bs s w = (True, rest, s1, w1)"
  shows "serve c V closed (bs @ ext) s w = serve c V closed (rest @ ext) s1 w1"
  using assms
proof (induction "length bs" arbitrary: bs s w rule: less_induct)
  case less
  show ?case
  proof (cases "read_frame (dec_req c) False bs")
    case (Got req r)
    obtain resp s' where h: "handle V req s = (resp, s')" by fastforce
    obtain x w' where wf: "write_frame (enc_resp c) resp w = (x, w')" by fastforce
    have x: "x = Ok ()"
      using less.prems Got h wf by (subst (asm) serve.simps) (cases x; simp)
    have "serve c V False r s' w' = (True, rest, s1, w1)"
      using less.prems Got h wf x by (subst (asm) serve.simps) simp
    moreover have "length r < length bs" using read_frame_consumes[OF Got] by simp
    ultimately have "serve c V closed (r @ ext) s' w' = serve c V closed (rest @ ext) s1 w1"
      by (rule less.hyps[rotated])
    then show ?thesis
      using read_frame_more[OF Got] h wf x by (subst serve.simps) simp
  next
    case (Failed e r)
    then show ?thesis using less.prems by (subst (asm) serve.simps) simp
  next
    case Waiting
    then show ?thesis using less.prems by (subst (asm) serve.simps) simp
  qed
qed


section \<open>A transport of VFS calls\<close>

locale vfs_transport =
  fixes call :: "'w caller"
    and V :: "'s tokimo_vfs"
    and sync :: "'s \<Rightarrow> 'w"
    and carried :: "request \<Rightarrow> 's \<Rightarrow> bool"
  assumes exchange: "carried req s \<Longrightarrow>
    call req (sync s) = (Ok (fst (handle V req s)), sync (snd (handle V req s)))"
begin

lemma hello: "carried (ReqHello protocol_version) s \<Longrightarrow> client_hello call (sync s) = (Ok (), sync s)"
  by (simp add: client_hello_def exchange)

lemma methods:
  "carried (ReqStat p) s \<Longrightarrow> client_stat call p (sync s) = apsnd sync (vfs_stat V p s)"
  "carried (ReqList p) s \<Longrightarrow> client_list call p (sync s) = apsnd sync (vfs_list V p s)"
  "carried (ReqRead p off len) s \<Longrightarrow>
     client_read call p off len (sync s) = apsnd sync (vfs_read V p off len s)"
  "carried (ReqWrite p off bs) s \<Longrightarrow>
     client_write call p off bs (sync s) = apsnd sync (vfs_write V p off bs s)"
  "carried (ReqCreate p mode) s \<Longrightarrow>
     client_create call p mode (sync s) = apsnd sync (vfs_create V p mode s)"
  "carried (ReqMkdir p mode) s \<Longrightarrow>
     client_mkdir call p mode (sync s) = apsnd sync (vfs_mkdir V p mode s)"
  "carried (ReqRemove p) s \<Longrightarrow> client_remove call p (sync s) = apsnd sync (vfs_remove V p s)"
  "carried (ReqRmdir p) s \<Longrightarrow> client_rmdir call p (sync s) = apsnd sync (vfs_rmdir V p s)"
  "carried (ReqRename p q) s \<Longrightarrow>
     client_rename call p q (sync s) = apsnd sync (vfs_rename V p q s)"
  "carried (ReqTruncate p sz) s \<Longrightarrow>
     client_truncate call p sz (sync s) = apsnd sync (vfs_truncate V p sz s)"
  by (simp_all add: client_ops_defs exchange prod_eq_iff)

text \<open>Serving the client's methods is serving the provider: one request, then a sequence.\<close>

lemma handle_client:
  assumes "carried req s"
  shows "handle (client_vfs call) req (sync s) = apsnd sync (handle V req s)"
  using assms by (cases req) (simp_all add: methods prod_eq_iff)

end

fun run_requests :: "'s tokimo_vfs \<Rightarrow> request list \<Rightarrow> 's \<Rightarrow> response list \<times> 's" where
  "run_requests V [] s = ([], s)"
| "run_requests V (r # rs) s =
     (case handle V r s of (resp, s1) \<Rightarrow>
        (case run_requests V rs s1 of (resps, s2) \<Rightarrow> (resp # resps, s2)))"

fun all_carried :: "(request \<Rightarrow> 's \<Rightarrow> bool) \<Rightarrow> 's tokimo_vfs \<Rightarrow> request list \<Rightarrow> 's \<Rightarrow> bool" where
  "all_carried P V [] s = True"
| "all_carried P V (r # rs) s = (P r s \<and> all_carried P V rs (snd (handle V r s)))"

context vfs_transport
begin

lemma run_client:
  assumes "all_carried carried V rs s"
  shows "run_requests (client_vfs call) rs (sync s) = apsnd sync (run_requests V rs s)"
  using assms
proof (induction rs arbitrary: s)
  case Nil
  show ?case by simp
next
  case (Cons r rs)
  obtain resp s1 where h: "handle V r s = (resp, s1)" by fastforce
  have "handle (client_vfs call) r (sync s) = (resp, sync s1)"
    using handle_client[of r s] Cons.prems h by simp
  moreover have "run_requests (client_vfs call) rs (sync s1) = apsnd sync (run_requests V rs s1)"
    using Cons.IH[of s1] Cons.prems h by simp
  ultimately show ?case using h by (simp add: split_beta)
qed

end


lemma run_requests_append:
  "snd (run_requests V (rs @ rs') w) = snd (run_requests V rs' (snd (run_requests V rs w)))"
  by (induction rs arbitrary: w) (simp_all add: split_beta)

lemma run_requests_single: "snd (run_requests V [r] w) = snd (handle V r w)"
  by (simp add: split_beta)

text \<open>Whatever bytes arrive, the server runs a sequence of requests on the provider.\<close>

lemma serve_requests:
  assumes "serve c V closed bs s w = (running, rest, s', w')"
  shows "\<exists>rs. s' = snd (run_requests V rs s)"
  using assms
proof (induction c V closed bs s w rule: serve.induct)
  case (1 c V closed bs s w)
  show ?case
  proof (cases "read_frame (dec_req c) closed bs")
    case (Got req r)
    obtain resp s1 where h: "handle V req s = (resp, s1)" by fastforce
    obtain x w1 where wf: "write_frame (enc_resp c) resp w = (x, w1)" by fastforce
    have one: "s1 = snd (run_requests V [req] s)" using h by simp
    show ?thesis
    proof (cases x)
      case (Err e)
      then have "s' = s1" using "1.prems" Got h wf by (subst (asm) serve.simps) simp
      then show ?thesis using one by blast
    next
      case (Ok u)
      then have "serve c V closed r s1 w1 = (running, rest, s', w')"
        using "1.prems" Got h wf by (subst (asm) serve.simps) simp
      then obtain rs where "s' = snd (run_requests V rs s1)"
        using "1.IH"[OF Got h[symmetric] wf[unfolded Ok, symmetric] refl] by auto
      then have "s' = snd (run_requests V ([req] @ rs) s)" using one by (simp only: run_requests_append)
      then show ?thesis by blast
    qed
  next
    case (Failed e r)
    then have "s' = snd (run_requests V [] s)" using "1.prems" by (subst (asm) serve.simps) simp
    then show ?thesis by blast
  next
    case Waiting
    then have "s' = snd (run_requests V [] s)" using "1.prems" by (subst (asm) serve.simps) simp
    then show ?thesis by blast
  qed
qed

lemma serve_closed_stops: "\<not> fst (serve c V True bs s w)"
proof (induction "length bs" arbitrary: bs s w rule: less_induct)
  case less
  show ?case
  proof (cases "read_frame (dec_req c) True bs")
    case (Got req r)
    obtain resp s1 where h: "handle V req s = (resp, s1)" by fastforce
    obtain x w1 where wf: "write_frame (enc_resp c) resp w = (x, w1)" by fastforce
    show ?thesis
      using less.hyps[of r s1 w1] read_frame_consumes[OF Got] Got h wf
      by (subst serve.simps) (cases x; simp)
  next
    case (Failed e r)
    then show ?thesis by (subst serve.simps) simp
  next
    case Waiting
    then show ?thesis by (auto simp: read_frame_def Let_def split: if_splits result.splits)
  qed
qed

section \<open>\<^verbatim>\<open>Client::call\<close> is such a transport\<close>

lemma client_call_insync:
  assumes "carries c V req s"
  shows "client_call c V req (insync s) =
    (Some (Ok (fst (handle V req s))), insync (snd (handle V req s)))"
proof -
  obtain resp s' where h: "handle V req s = (resp, s')" by fastforce
  obtain b where b: "enc_req c req = Ok b" "length b \<le> max_frame" "dec_req c b = Ok req"
    using assms by (auto simp: carries_def elim: fits_frameE)
  obtain rb where rb: "enc_resp c resp = Ok rb" "length rb \<le> max_frame" "dec_resp c rb = Ok resp"
    using assms h by (auto simp: carries_def elim: fits_frameE)
  have "serve c V False (frame_bytes b) s idle =
      (True, [], s', \<lparr>wc_pending = frame_bytes rb, wc_room = None\<rparr>)"
    using serve_one[OF b(3,2) h rb(1) max_frame_u32[OF rb(2)], of idle False "[]"]
    by (simp add: idle_def)
  then show ?thesis
    using b(1) rb read_frame_body[OF rb(2), of "dec_resp c" False "[]"] h
      write_frame_idle[of "enc_req c" req b idle] max_frame_u32[OF b(2)]
    by (simp add: client_call_def insync_def idle_def server_turn_def Let_def)
qed

interpretation frames: vfs_transport "rpc_call c V" V insync "carries c V" for c V
  by unfold_locales (simp add: rpc_call_def client_call_insync)

text \<open>A server that has returned: every call fails and changes nothing on the host.\<close>

lemma client_call_closed:
  assumes "closed_conn s down k"
  shows "\<exists>e k'. client_call c V req k = (Some (Err e), k') \<and> closed_conn s down k'"
proof -
  have "\<exists>e. write_frame (enc_req c) req (cn_up k) = (Err e, (cn_up k)) \<or>
      write_frame (enc_req c) req (cn_up k) = (Err e, (cn_up k)\<lparr>wc_pending := wc_pending (cn_up k) @ take 0 (to_be_bytes 0), wc_room := Some 0\<rparr>)"
    using assms
    by (auto simp: write_frame_def write_all_def closed_conn_def split: result.splits)
  then show ?thesis using assms by (auto simp: client_call_def closed_conn_def)
qed

text \<open>The turn of the server on one frame of a fresh connection.\<close>

lemma serve_frame_cases:
  assumes "length b < 2 ^ 32"
  obtains (rejected) s' rest where
      "serve c V False (frame_bytes b) s idle = (False, rest, s', idle)"
  | (answered) req rb where "dec_req c b = Ok req" "length b \<le> max_frame"
      "enc_resp c (fst (handle V req s)) = Ok rb" "length rb < 2 ^ 32"
      "serve c V False (frame_bytes b) s idle =
         (True, [], snd (handle V req s), \<lparr>wc_pending = frame_bytes rb, wc_room = None\<rparr>)"
proof (cases "read_frame (dec_req c) False (frame_bytes b)")
  case (Failed e rest)
  then have "serve c V False (frame_bytes b) s idle = (False, rest, s, idle)"
    by (subst serve.simps) simp
  then show ?thesis by (rule rejected)
next
  case Waiting
  then show ?thesis
    using assms by (auto simp: read_frame_def Let_def unat_of_nat_u32 split: if_splits result.splits)
next
  case (Got req rest)
  then have g: "dec_req c b = Ok req" "length b \<le> max_frame" "rest = []"
    using assms by (auto simp: read_frame_def Let_def unat_of_nat_u32 split: if_splits result.splits)
  obtain resp s' where h: "handle V req s = (resp, s')" by fastforce
  show ?thesis
  proof (rule write_frame_unbounded[of idle "enc_resp c" resp])
    show "wc_room idle = None" by (simp add: idle_def)
  next
    fix e assume "write_frame (enc_resp c) resp idle = (Err e, idle)"
    then have "serve c V False (frame_bytes b) s idle = (False, rest, s', idle)"
      using Got h by (subst serve.simps) simp
    then show ?thesis by (rule rejected)
  next
    fix rb assume rb: "enc_resp c resp = Ok rb" "length rb < 2 ^ 32"
    have "serve c V False (frame_bytes b) s idle =
        (True, [], s', \<lparr>wc_pending = frame_bytes rb, wc_room = None\<rparr>)"
      using serve_one[OF g(1,2) h rb, of idle False "[]"] by (simp add: idle_def)
    then show ?thesis using answered[OF g(1,2), of rb] rb h by simp
  qed
qed


text \<open>A call on a fresh connection returns: with an answer, or with the server gone.\<close>

lemma client_call_fresh:
  obtains (unsent) e k' where "client_call c V req (insync s) = (Some (Err e), k')"
  | (closed) e k' s' where "client_call c V req (insync s) = (Some (Err e), k')" "closed_conn s' [] k'"
  | (answer) b req' rb k1 where "enc_req c req = Ok b" "dec_req c b = Ok req'"
      "enc_resp c (fst (handle V req' s)) = Ok rb" "length rb < 2 ^ 32"
      "k1 = (insync (snd (handle V req' s)))\<lparr>cn_down := \<lparr>wc_pending = frame_bytes rb, wc_room = None\<rparr>\<rparr>"
      "client_call c V req (insync s) =
         (case read_frame (dec_resp c) False (frame_bytes rb) of
            Waiting \<Rightarrow> (None, k1)
          | Failed e rest \<Rightarrow> (Some (Err e), k1\<lparr>cn_down := \<lparr>wc_pending = rest, wc_room = None\<rparr>\<rparr>)
          | Got resp rest \<Rightarrow> (Some (Ok resp), k1\<lparr>cn_down := \<lparr>wc_pending = rest, wc_room = None\<rparr>\<rparr>))"
proof (rule write_frame_unbounded[of idle "enc_req c" req])
  show "wc_room idle = None" by (simp add: idle_def)
next
  fix e assume "write_frame (enc_req c) req idle = (Err e, idle)"
  then have "client_call c V req (insync s) = (Some (Err e), insync s)"
    by (simp add: client_call_def insync_def)
  then show thesis by (rule unsent)
next
  fix b assume b: "enc_req c req = Ok b" "length b < 2 ^ 32"
  assume "write_frame (enc_req c) req idle =
    (Ok (), \<lparr>wc_pending = wc_pending idle @ frame_bytes b, wc_room = None\<rparr>)"
  then have wf: "write_frame (enc_req c) req idle = (Ok (), \<lparr>wc_pending = frame_bytes b, wc_room = None\<rparr>)"
    by (simp add: idle_def)
  show thesis
  proof (rule serve_frame_cases[OF b(2), of c V s])
    fix s' rest assume "serve c V False (frame_bytes b) s idle = (False, rest, s', idle)"
    then show thesis using wf
      by (intro closed) (auto simp: client_call_def insync_def server_turn_def idle_def Let_def
        read_frame_def closed_conn_def)
  next
    fix req' rb assume a: "dec_req c b = Ok req'" "enc_resp c (fst (handle V req' s)) = Ok rb"
      "length rb < 2 ^ 32"
      "serve c V False (frame_bytes b) s idle =
         (True, [], snd (handle V req' s), \<lparr>wc_pending = frame_bytes rb, wc_room = None\<rparr>)"
    show thesis
      by (rule answer[OF b(1) a(1-3) refl])
        (use wf a(4) in \<open>simp add: client_call_def insync_def server_turn_def idle_def Let_def
          split: read_outcome.split\<close>)
  qed
qed

lemma frame_not_waiting:
  "length rb < 2 ^ 32 \<Longrightarrow> read_frame dec closed (frame_bytes rb) \<noteq> Waiting"
  by (auto simp: read_frame_def Let_def unat_of_nat_u32 split: if_splits result.splits)


section \<open>Sequences of calls and of requests\<close>

fun call_all ::
    "codec \<Rightarrow> 's tokimo_vfs \<Rightarrow> request list \<Rightarrow> 's conn \<Rightarrow> (response, anyhow) result option list \<times> 's conn"
where
  "call_all c V [] k = ([], k)"
| "call_all c V (r # rs) k =
     (case client_call c V r k of (x, k1) \<Rightarrow>
        (case call_all c V rs k1 of (xs, k2) \<Rightarrow> (x # xs, k2)))"

definition call_failed :: "(response, anyhow) result option \<Rightarrow> bool" where
  "call_failed x = (case x of Some (Err _) \<Rightarrow> True | _ \<Rightarrow> False)"

lemma call_all_closed:
  assumes "closed_conn s down k"
  shows "list_all call_failed (fst (call_all c V rs k)) \<and> cn_state (snd (call_all c V rs k)) = s"
  using assms
proof (induction rs arbitrary: k)
  case Nil
  then show ?case by (simp add: closed_conn_def)
next
  case (Cons r rs)
  obtain e k' where k': "client_call c V r k = (Some (Err e), k')" "closed_conn s down k'"
    using client_call_closed[OF Cons.prems] by blast
  show ?case using Cons.IH[OF k'(2)] k'(1) by (simp add: split_beta call_failed_def)
qed

lemma length_call_all [simp]: "length (fst (call_all c V rs k)) = length rs"
  by (induction rs arbitrary: k) (simp_all add: split_beta)

context vfs_provider
begin

lemma handle_inv: "inv s \<Longrightarrow> inv (snd (handle V req s))"
  by (cases req)
    (simp_all add: stat_query list_query read_query write_inv create_inv mkdir_inv remove_inv
      rmdir_inv rename_inv truncate_inv)

lemma run_requests_inv: "inv s \<Longrightarrow> inv (snd (run_requests V rs s))"
  by (induction rs arbitrary: s) (auto simp: split_beta handle_inv)

end

context readonly_provider
begin

lemma handle_ro: "snd (handle V req s) = s"
  by (cases req)
    (simp_all add: stat_query list_query read_query write_ro create_ro mkdir_ro remove_ro
      rmdir_ro rename_ro truncate_ro)

lemma run_requests_ro: "snd (run_requests V rs s) = s"
  by (induction rs arbitrary: s) (auto simp: split_beta handle_ro)

end

end
