(* ===== verification/Host_Share.thy ===== *)
theory Host_Share
  imports Host_Fs_Props Rpc_Laws
begin

text \<open>
  A host directory behind the server (\<^verbatim>\<open>MountSpec::HostDir\<close>): what any sequence of
  requests, however hostile the guest, can do to the host and learn from it. The
  guarantees hold for a canonical root without symbolic links below it; the two ways
  around them are stated with \<^verbatim>\<open>HostFs\<close> itself.
\<close>

section \<open>The jail as an invariant\<close>

definition jail :: "host_fs \<Rightarrow> key \<Rightarrow> host_os \<Rightarrow> bool" where
  "jail h r os \<longleftrightarrow>
     os_wf os \<and> canon_reliable os \<and> hf_root h = abs_path r \<and> is_dir_at os r \<and> link_free os r"

lemma jail_root:
  assumes "jail h r os"
  shows "os_resolve os (hf_root h) = Ok r"
proof -
  have wf: "os_wf os" and d: "is_dir_at os r" and h: "hf_root h = abs_path r"
    using assms by (simp_all add: jail_def)
  have "list_all name_ok r" using settled_dir[OF wf d] by (simp add: settled_def)
  then have "components (abs_path r) = RootDir # map Normal r" "abs_path r \<noteq> []"
    using abs_path_nonempty by auto
  moreover have "os_walk os f [] (map Normal r) = Ok r" for f
    using os_walk_dirs[OF wf, of "[]" r f "[]"] d by simp
  ultimately show ?thesis using h by (simp add: os_resolve_def)
qed

lemma jail_is_confined: "jail h r os \<Longrightarrow> confined h os (below r)"
  using jail_root by (intro jail_confined) (auto simp: jail_def)

lemma jail_steps:
  assumes "jail h r os" and "host_steps (below r) os os'"
  shows "jail h r os'"
proof -
  have wf: "os_wf os" using assms(1) by (simp add: jail_def)
  have "is_dir_at os' r = is_dir_at os r"
    using host_steps_outside[OF assms(2) wf, of r] by (simp add: is_dir_at_def)
  then show ?thesis
    using assms host_steps_wf[OF assms(2) wf] host_steps_link_free[OF assms(2) wf]
      host_steps_env[OF assms(2)]
    by (simp add: jail_def canon_reliable_def)
qed

lemma handle_steps:
  assumes "os_wf os" and "confined h os A"
  shows "host_steps A os (snd (handle (host_fs_vfs h) req os))"
  using assms vfs_step[OF assms] hostfs.stat_query hostfs.list_query hostfs.read_query
  by (cases req) (simp_all add: host_fs_vfs_def hfs_stat_def hfs_list_def hfs_read_def split: result.splits)

lemma run_requests_steps:
  assumes "jail h r os"
  shows "host_steps (below r) os (snd (run_requests (host_fs_vfs h) rs os))"
  using assms
proof (induction rs arbitrary: os)
  case Nil
  show ?case by simp
next
  case (Cons req rs)
  let ?os1 = "snd (handle (host_fs_vfs h) req os)"
  have "host_steps (below r) os ?os1"
    using Cons.prems jail_is_confined by (intro handle_steps) (auto simp: jail_def)
  moreover from this have "host_steps (below r) ?os1 (snd (run_requests (host_fs_vfs h) rs ?os1))"
    using jail_steps Cons by blast
  ultimately show ?case by (simp add: split_beta)
qed


section \<open>What a read can return\<close>

lemma hfs_read_loop_slice:
  assumes "hfs_read_loop os k pos len buf = Ok bs" and "node_at os k = Some (NFile m d)"
    and "buf = take (length buf) (drop pos d)"
  shows "bs = take (length bs) (drop pos d)"
  using assms
proof (induction os k pos len buf rule: hfs_read_loop.induct)
  case (1 os k pos len buf)
  show ?case
  proof (cases "length buf < len \<and> (\<exists>cs. os_read_at os k (pos + length buf) (len - length buf) = Ok cs \<and> cs \<noteq> [])")
    case False
    then show ?thesis using "1.prems"
      by (subst (asm) hfs_read_loop.simps) (auto split: if_splits result.splits)
  next
    case True
    then obtain cs where cs: "length buf < len" "os_read_at os k (pos + length buf) (len - length buf) = Ok cs"
        "cs \<noteq> []" by blast
    have "cs = take (min (len - length buf) (os_chunk os)) (drop (pos + length buf) d)"
      using cs(2) "1.prems"(2) by (auto simp: os_read_at_def guarded_def split: option.splits)
    then have "buf @ cs = take (length (buf @ cs)) (drop pos d)"
      using take_append_chunk[OF cs(1) "1.prems"(3)] by blast
    moreover have "hfs_read_loop os k pos len (buf @ cs) = Ok bs"
      using "1.prems"(1) cs by (subst (asm) hfs_read_loop.simps) simp
    ultimately show ?thesis using "1.IH"[OF cs] "1.prems"(2) by blast
  qed
qed

lemma hfs_read_loop_not_file:
  assumes "hfs_read_loop os k pos len [] = Ok bs" and "\<And>m d. node_at os k \<noteq> Some (NFile m d)"
  shows "bs = []"
  using assms by (subst (asm) hfs_read_loop.simps)
    (auto simp: os_read_at_def guarded_def split: if_splits option.splits os_node.splits result.splits)

lemma hfs_read_source:
  assumes "hfs_read h p off len os = (Ok bs, os')" and "bs \<noteq> []"
  obtains q k m d where "resolve h os p = Ok q" "os_resolve os q = Ok k"
    "node_at os k = Some (NFile m d)" "bs = take (length bs) (drop (unat off) d)"
proof -
  obtain q k where q: "resolve h os p = Ok q" "os_resolve os q = Ok k"
      "hfs_read_loop os k (unat off) (unat len) [] = Ok bs"
    using assms(1)
    by (auto simp: hfs_read_def os_open_read_def os_seek_def guarded_def
        split: result.splits option.splits if_splits)
  then obtain m d where "node_at os k = Some (NFile m d)"
    using hfs_read_loop_not_file assms(2) by blast
  then show thesis using that q hfs_read_loop_slice[OF q(3)] by simp
qed


section \<open>Properties\<close>

text \<open>A host like the sample one, without the symbolic link.\<close>

definition jail_os :: host_os where
  "jail_os = sample_os\<lparr>os_nodes := butlast (os_nodes sample_os)\<rparr>"

lemma sample_jail: "jail sample_fs [''srv'', ''box''] jail_os"
proof -
  have "os_wf jail_os" "is_dir_at jail_os [''srv'', ''box'']" "link_free jail_os [''srv'', ''box'']"
    by code_simp+
  moreover have "canon_reliable jail_os" by (simp add: canon_reliable_def jail_os_def sample_os_def)
  ultimately show ?thesis by (simp add: jail_def sample_root)
qed

text \<open>Whatever requests a guest sends, in whatever order, the server of a host directory
  changes nothing outside it: for a canonical root with no symbolic links below it, every
  entry that is not strictly below the root is as before, and the same guarantee holds
  for the requests that follow.\<close>

theorem guest_requests_confined:
  assumes "jail h r os" and "run_requests (host_fs_vfs h) rs os = (resps, os')" and "\<not> below r k"
  shows "node_at os' k = node_at os k \<and> jail h r os'"
proof -
  have st: "host_steps (below r) os os'"
    using run_requests_steps[OF assms(1), of rs] assms(2) by simp
  have "node_at os' k = node_at os k"
    using host_steps_outside[OF st _ assms(3)] assms(1) by (simp add: jail_def)
  then show ?thesis using jail_steps[OF assms(1) st] by blast
qed

theorem guest_requests_confined_witness:
  "node_at (snd (run_requests (host_fs_vfs sample_fs)
      [ReqWrite ''/../../etc/passwd'' 0 [1], ReqRename ''/a'' ''/../etc/a'', ReqRemove ''/a''] jail_os))
     [''etc'', ''passwd''] = Some (NFile sample_meta [9, 9])"
proof -
  have "\<not> below [''srv'', ''box''] [''etc'', ''passwd'']" by simp
  moreover have "node_at jail_os [''etc'', ''passwd''] = Some (NFile sample_meta [9, 9])"
    by (simp add: jail_os_def sample_os_def node_at_def)
  ultimately show ?thesis
    using guest_requests_confined[OF sample_jail prod.collapse[symmetric]] by metis
qed

text \<open>C10: whatever requests came before, a read that returns bytes returns the bytes of a
  file strictly below the root, from the offset on.\<close>

theorem guest_reads_confined:
  assumes "jail h r os" and "snd (run_requests (host_fs_vfs h) rs os) = os1"
    and "handle (host_fs_vfs h) (ReqRead p off len) os1 = (RespRead (Ok bs), os2)" and "bs \<noteq> []"
  shows "\<exists>k m d. below r k \<and> node_at os1 k = Some (NFile m d) \<and> bs = take (length bs) (drop (unat off) d)"
proof -
  have j: "jail h r os1" using run_requests_steps[OF assms(1), of rs] jail_steps assms(1,2) by blast
  have "hfs_read h p off len os1 = (Ok bs, os2)"
    using assms(3) by (cases "hfs_read h p off len os1") (simp add: host_fs_vfs_def)
  then obtain q k m d where k: "resolve h os1 p = Ok q" "os_resolve os1 q = Ok k"
      "node_at os1 k = Some (NFile m d)" "bs = take (length bs) (drop (unat off) d)"
    using hfs_read_source assms(4) by blast
  have "below r k"
    using jail_resolve[of os1 h p q r k] j jail_root[OF j] k by (auto simp: jail_def is_dir_at_node)
  then show ?thesis using k by blast
qed

theorem guest_reads_confined_witness:
  "\<exists>k m d. below [''srv'', ''box''] k \<and> node_at jail_os k = Some (NFile m d) \<and>
     [2, 3] = take (length [2, 3 :: byte]) (drop 1 d)"
proof -
  have s: "serves sample_fs [''srv'', ''box''] jail_os [''a'']"
    using sample_jail sample_serves
    by (simp add: serves_def jail_def jail_os_def healthy_def sample_os_def is_dir_at_def node_at_def)
  have "node_at jail_os ([''srv'', ''box''] @ [''a'']) = Some (NFile sample_meta [1, 2, 3])"
    by (simp add: jail_os_def sample_os_def node_at_def)
  then have "handle (host_fs_vfs sample_fs) (ReqRead (abs_path [''a'']) 1 5) jail_os =
      (RespRead (Ok [2, 3]), jail_os)"
    using hfs_read_plain[OF s, of sample_meta "[1, 2, 3]" 1 5] by (simp add: host_fs_vfs_def)
  then show ?thesis using guest_reads_confined[OF sample_jail, of "[]" jail_os] by fastforce
qed

text \<open>What a read-only share answers to a request.\<close>

fun denied :: "request \<Rightarrow> response \<Rightarrow> bool" where
  "denied (ReqWrite _ _ _) resp = (resp = RespWrite (Err PermissionDenied))"
| "denied (ReqCreate _ _) resp = (resp = RespCreate (Err PermissionDenied))"
| "denied (ReqMkdir _ _) resp = (resp = RespMkdir (Err PermissionDenied))"
| "denied (ReqRemove _) resp = (resp = RespRemove (Err PermissionDenied))"
| "denied (ReqRmdir _) resp = (resp = RespRmdir (Err PermissionDenied))"
| "denied (ReqRename _ _) resp = (resp = RespRename (Err PermissionDenied))"
| "denied (ReqTruncate _ _) resp = (resp = RespTruncate (Err PermissionDenied))"
| "denied _ resp = True"

text \<open>C38: a read-only share is read-only whatever the requests and the state of the host: the
  host is exactly as before, and every request that would change it is answered with
  "permission denied".\<close>

theorem readonly_share:
  "snd (run_requests (host_fs_vfs (host_fs_new root True)) rs os) = os \<and>
   list_all2 denied rs (fst (run_requests (host_fs_vfs (host_fs_new root True)) rs os))"
proof
  show "snd (run_requests (host_fs_vfs (host_fs_new root True)) rs os) = os"
    by (rule readonly_provider.run_requests_ro[OF hostfs_ro.readonly_provider_axioms])
  have one: "denied req (fst (handle (host_fs_vfs (host_fs_new root True)) req os))" for req os
    by (cases req) (simp_all add: host_fs_vfs_def host_fs_new_def check_rw_def hfs_write_def
      hfs_create_def hfs_mkdir_def hfs_remove_def hfs_rmdir_def hfs_rename_def hfs_truncate_def)
  show "list_all2 denied rs (fst (run_requests (host_fs_vfs (host_fs_new root True)) rs os))"
    by (induction rs arbitrary: os) (auto simp: split_beta one)
qed

end
