(* ===== verification/Memory_Vfs.thy ===== *)
theory Memory_Vfs
  imports Vfs Rust_Text
begin

text \<open>
  \<^verbatim>\<open>MemoryVfs\<close> (\<^verbatim>\<open>examples/vfs_memory_demo.rs\<close>), the in-memory provider the
  repository ships: a hash map from paths to nodes. A \<^verbatim>\<open>PathBuf\<close> key is compared by
  its components, so the map is keyed by them; the list order stands for the
  unspecified iteration order. Offsets and lengths are natural numbers; where they do not fit
  \<^verbatim>\<open>usize\<close> or the memory, the method does not return (\<open>Memory_Lock\<close>).
\<close>

section \<open>State and methods\<close>

datatype mem_node = MFile "byte list" | MDir

record mem_vfs =
  mv_nodes :: "(component list \<times> mem_node) list"
  mv_now :: i64

definition magic :: string where
  "magic = ''hello-from-tokimo-vfs''"

definition memory_vfs_new :: "i64 \<Rightarrow> mem_vfs" where
  "memory_vfs_new now =
     \<lparr>mv_nodes =
        AList.update (components ''/hello.txt'') (MFile (map of_char magic @ [10]))
          (AList.update (components ''/'') MDir []),
      mv_now = now\<rparr>"

definition attr_of :: "i64 \<Rightarrow> mem_node \<Rightarrow> file_attr" where
  "attr_of t n =
     (let (kind, sz) = (case n of MFile d \<Rightarrow> (File, of_nat (length d)) | MDir \<Rightarrow> (Dir, 0))
      in \<lparr>fa_size = sz, fa_mode = (if kind = Dir then 493 else 420), fa_kind = kind,
          fa_mtime_secs = t, fa_atime_secs = t, fa_ctime_secs = t\<rparr>)"
  \<comment> \<open>\<^verbatim>\<open>0o755\<close> and \<^verbatim>\<open>0o644\<close>\<close>

abbreviation mem_get :: "mem_vfs \<Rightarrow> path \<Rightarrow> mem_node option" where
  "mem_get m p \<equiv> map_of (mv_nodes m) (components p)"

definition mem_put :: "mem_vfs \<Rightarrow> path \<Rightarrow> mem_node \<Rightarrow> mem_vfs" where
  "mem_put m p n = m\<lparr>mv_nodes := AList.update (components p) n (mv_nodes m)\<rparr>"

definition mem_del :: "mem_vfs \<Rightarrow> path \<Rightarrow> mem_vfs" where
  "mem_del m p = m\<lparr>mv_nodes := AList.delete (components p) (mv_nodes m)\<rparr>"

definition mem_stat :: "path \<Rightarrow> (mem_vfs, file_attr) vfs_call" where
  "mem_stat p m =
     (case mem_get m p of None \<Rightarrow> (Err NotFound, m) | Some n \<Rightarrow> (Ok (attr_of (mv_now m) n), m))"

fun comps_parent :: "component list \<Rightarrow> component list option" where
  "comps_parent [] = None"
| "comps_parent [RootDir] = None"
| "comps_parent cs = Some (butlast cs)"

fun comps_file_name :: "component list \<Rightarrow> name" where
  "comps_file_name [] = []"
| "comps_file_name cs = (case last cs of Normal n \<Rightarrow> n | _ \<Rightarrow> [])"

text \<open>\<^verbatim>\<open>to_str().unwrap_or("")\<close>: a name that is not UTF-8 is listed as the empty string.\<close>

definition str_or_empty :: "name \<Rightarrow> string" where
  "str_or_empty n = (if utf8_valid (string_bytes n) then n else [])"

definition mem_entry :: "component list \<times> mem_node \<Rightarrow> dir_entry" where
  "mem_entry = (\<lambda>(cs, n). \<lparr>de_name = str_or_empty (comps_file_name cs),
     de_kind = (case n of MFile _ \<Rightarrow> File | MDir \<Rightarrow> Dir)\<rparr>)"

definition mem_list :: "path \<Rightarrow> (mem_vfs, dir_entry list) vfs_call" where
  "mem_list p m =
     (case mem_get m p of
        Some MDir \<Rightarrow>
          (Ok (map mem_entry
            (filter (\<lambda>(cs, _). cs \<noteq> components p \<and> comps_parent cs = Some (components p))
              (mv_nodes m))), m)
      | Some _ \<Rightarrow> (Err NotADirectory, m)
      | None \<Rightarrow> (Err NotFound, m))"

definition mem_read :: "path \<Rightarrow> u64 \<Rightarrow> u32 \<Rightarrow> (mem_vfs, byte list) vfs_call" where
  "mem_read p off len m =
     (case mem_get m p of
        Some (MFile d) \<Rightarrow>
          (let o' = unat off; e = min (o' + unat len) (length d)
           in (Ok (if length d \<le> o' then [] else take (e - o') (drop o' d)), m))
      | Some _ \<Rightarrow> (Err IsADirectory, m)
      | None \<Rightarrow> (Err NotFound, m))"

text \<open>\<^verbatim>\<open>Vec::resize\<close> with zeros.\<close>

definition resize :: "byte list \<Rightarrow> nat \<Rightarrow> byte list" where
  "resize d n = take n d @ replicate (n - length d) 0"

text \<open>\<^verbatim>\<open>d[o..o+len].copy_from_slice\<close>.\<close>

definition copy_at :: "byte list \<Rightarrow> nat \<Rightarrow> byte list \<Rightarrow> byte list" where
  "copy_at d pos bs = take pos d @ bs @ drop (pos + length bs) d"

definition mem_write :: "path \<Rightarrow> u64 \<Rightarrow> byte list \<Rightarrow> (mem_vfs, u32) vfs_call" where
  "mem_write p off data m =
     (case mem_get m p of
        Some (MFile d) \<Rightarrow>
          (let o' = unat off;
               d' = (if length d < o' + length data then resize d (o' + length data) else d)
           in (Ok (of_nat (length data)), mem_put m p (MFile (copy_at d' o' data))))
      | Some _ \<Rightarrow> (Err IsADirectory, m)
      | None \<Rightarrow> (Err NotFound, m))"

definition mem_insert_new :: "path \<Rightarrow> mem_node \<Rightarrow> (mem_vfs, file_attr) vfs_call" where
  "mem_insert_new p n m =
     (if mem_get m p \<noteq> None then (Err AlreadyExists, m)
      else (Ok (attr_of (mv_now m) n), mem_put m p n))"

definition mem_create :: "path \<Rightarrow> u32 \<Rightarrow> (mem_vfs, file_attr) vfs_call" where
  "mem_create p mode = mem_insert_new p (MFile [])"

definition mem_mkdir :: "path \<Rightarrow> u32 \<Rightarrow> (mem_vfs, file_attr) vfs_call" where
  "mem_mkdir p mode = mem_insert_new p MDir"

definition mem_remove :: "path \<Rightarrow> (mem_vfs, unit) vfs_call" where
  "mem_remove p m =
     (case mem_get m p of Some _ \<Rightarrow> (Ok (), mem_del m p) | None \<Rightarrow> (Err NotFound, m))"

definition mem_rmdir :: "path \<Rightarrow> (mem_vfs, unit) vfs_call" where
  "mem_rmdir p m =
     (case mem_get m p of Some _ \<Rightarrow> (Ok (), mem_del m p) | None \<Rightarrow> (Err NotFound, m))"

definition mem_rename :: "path \<Rightarrow> path \<Rightarrow> (mem_vfs, unit) vfs_call" where
  "mem_rename p q m =
     (case mem_get m p of
        None \<Rightarrow> (Err NotFound, m)
      | Some n \<Rightarrow> (Ok (), mem_put (mem_del m p) q n))"

definition mem_truncate :: "path \<Rightarrow> u64 \<Rightarrow> (mem_vfs, unit) vfs_call" where
  "mem_truncate p sz m =
     (case mem_get m p of
        Some (MFile d) \<Rightarrow> (Ok (), mem_put m p (MFile (resize d (unat sz))))
      | Some _ \<Rightarrow> (Err IsADirectory, m)
      | None \<Rightarrow> (Err NotFound, m))"

definition memory_vfs :: "mem_vfs tokimo_vfs" where
  "memory_vfs =
     \<lparr>vfs_stat = mem_stat, vfs_list = mem_list, vfs_read = mem_read, vfs_write = mem_write,
      vfs_create = mem_create, vfs_mkdir = mem_mkdir, vfs_remove = mem_remove,
      vfs_rmdir = mem_rmdir, vfs_rename = mem_rename, vfs_truncate = mem_truncate\<rparr>"


section \<open>The provider contract\<close>

text \<open>One node per path.\<close>

definition mem_inv :: "mem_vfs \<Rightarrow> bool" where
  "mem_inv m \<longleftrightarrow> distinct (map fst (mv_nodes m))"

lemma mem_get_put [simp]:
  "mem_get (mem_put m p n) q = (if path_eq q p then Some n else mem_get m q)"
  by (simp add: mem_put_def update_conv' path_eq_def)

lemma mem_get_del [simp]: "mem_get (mem_del m p) q = (if path_eq q p then None else mem_get m q)"
  by (auto simp: mem_del_def delete_conv' path_eq_def)

lemma path_eq_refl [simp]: "path_eq p p"
  by (simp add: path_eq_def)

lemma mem_inv_put [simp]: "mem_inv m \<Longrightarrow> mem_inv (mem_put m p n)"
  by (simp add: mem_inv_def mem_put_def distinct_update)

lemma mem_inv_del [simp]: "mem_inv m \<Longrightarrow> mem_inv (mem_del m p)"
  by (simp add: mem_inv_def mem_del_def distinct_delete)

interpretation memory: vfs_provider memory_vfs mem_inv
  by unfold_locales
    (auto simp: memory_vfs_def mem_stat_def mem_list_def mem_read_def mem_write_def mem_create_def
      mem_mkdir_def mem_insert_new_def mem_remove_def mem_rmdir_def mem_rename_def mem_truncate_def
      Let_def split: option.splits mem_node.splits)

lemma copy_at_resize_read:
  assumes "d' = (if length d < pos + length bs then resize d (pos + length bs) else d)"
  shows "take (length bs) (drop pos (copy_at d' pos bs)) = bs"
  and "length (copy_at d' pos bs) = max (length d) (pos + length bs)"
  using assms by (auto simp: copy_at_def resize_def)


lemma mem_chunks:
  assumes "mem_get m p = Some (MFile [])" and "length xs + length ys < 2 ^ 32"
  shows "\<exists>m' m''.
    mem_write p 0 xs m = (Ok (of_nat (length xs)), m') \<and>
    mem_write p (of_nat (length xs)) ys m' = (Ok (of_nat (length ys)), m'') \<and>
    mem_read p 0 (of_nat (length xs + length ys)) m'' = (Ok (xs @ ys), m'') \<and>
    (\<forall>q. \<not> path_eq q p \<longrightarrow> mem_get m'' q = mem_get m q)"
proof -
  have len: "unat (of_nat (length xs) :: u64) = length xs"
    "unat (of_nat (length xs + length ys) :: u32) = length xs + length ys"
    using assms(2) by (auto intro: unat_of_nat_u64 unat_of_nat_u32 simp del: of_nat_add)
  have first: "mem_write p 0 xs m = (Ok (of_nat (length xs)), mem_put m p (MFile xs))"
    using assms(1) by (simp add: mem_write_def resize_def copy_at_def)
  have "copy_at (if length xs < length xs + length ys then resize xs (length xs + length ys) else xs)
      (length xs) ys = xs @ ys"
    by (simp add: copy_at_def resize_def)
  then have second: "mem_write p (of_nat (length xs)) ys (mem_put m p (MFile xs)) =
      (Ok (of_nat (length ys)), mem_put (mem_put m p (MFile xs)) p (MFile (xs @ ys)))"
    using len(1) by (simp add: mem_write_def Let_def)
  have "mem_read p 0 (of_nat (length xs + length ys)) (mem_put (mem_put m p (MFile xs)) p (MFile (xs @ ys)))
      = (Ok (xs @ ys), mem_put (mem_put m p (MFile xs)) p (MFile (xs @ ys)))"
    using len(2) by (simp add: mem_read_def del: of_nat_add)
  then show ?thesis using first second by auto
qed


section \<open>Properties\<close>

text \<open>In \<^verbatim>\<open>MemoryVfs\<close> a file written in consecutive chunks holds the concatenation of
  the chunks, and reading it back returns them; other paths are untouched.\<close>

theorem memory_chunked_write:
  assumes "mem_get m p = Some (MFile [])" and "length xs + length ys < 2 ^ 32"
  shows "\<exists>m' m''.
    mem_write p 0 xs m = (Ok (of_nat (length xs)), m') \<and>
    mem_write p (of_nat (length xs)) ys m' = (Ok (of_nat (length ys)), m'') \<and>
    mem_read p 0 (of_nat (length xs + length ys)) m'' = (Ok (xs @ ys), m'') \<and>
    (\<forall>q. \<not> path_eq q p \<longrightarrow> mem_get m'' q = mem_get m q)"
  using assms by (rule mem_chunks)

theorem memory_chunked_write_witness:
  "\<exists>m' m''.
    mem_write ''/f'' 0 [1] (mem_put (memory_vfs_new 0) ''/f'' (MFile [])) = (Ok 1, m') \<and>
    mem_write ''/f'' 1 [2] m' = (Ok 1, m'') \<and> mem_read ''/f'' 0 2 m'' = (Ok [1, 2], m'')"
  using memory_chunked_write[of "mem_put (memory_vfs_new 0) ''/f'' (MFile [])" "''/f''" "[1]" "[2]"]
  by auto

text \<open>A rename in \<^verbatim>\<open>MemoryVfs\<close> moves exactly the node at the source path: the target
  holds it, the source is gone, every other path is as before (in particular what lies
  below a renamed directory keeps its old path).\<close>

theorem memory_rename_moves:
  assumes "mem_get m p = Some n" and "\<not> path_eq p q"
  shows "fst (mem_rename p q m) = Ok () \<and>
    mem_get (snd (mem_rename p q m)) q = Some n \<and>
    mem_get (snd (mem_rename p q m)) p = None \<and>
    (\<forall>r. \<not> path_eq r p \<longrightarrow> \<not> path_eq r q \<longrightarrow> mem_get (snd (mem_rename p q m)) r = mem_get m r)"
  using assms by (auto simp: mem_rename_def)

theorem memory_rename_moves_witness:
  "mem_get (snd (mem_rename ''/hello.txt'' ''/b'' (memory_vfs_new 0))) ''/hello.txt'' = None"
proof -
  have "mem_get (memory_vfs_new 0) ''/hello.txt'' = Some (MFile (map of_char magic @ [10]))"
    by (simp add: memory_vfs_new_def update_conv')
  moreover have "\<not> path_eq ''/hello.txt'' ''/b''" by code_simp
  ultimately show ?thesis using memory_rename_moves by blast
qed

end
