(* ===== verification/Rpc_Props.thy ===== *)
theory Rpc_Props
  imports Rpc_Laws Memory_Vfs
begin

text \<open>
  The properties of the RPC: what a client sees of a provider, what the framing loses
  when a message does not fit, and that every call on a fresh connection returns. The
  witnesses run on \<^verbatim>\<open>MemoryVfs\<close> with a small codec for reads and writes of short paths.
\<close>

section \<open>A sample codec\<close>

fun sample_enc_req :: "request encoder" where
  "sample_enc_req (ReqRead p off len) = Ok (1 # ucast off # ucast len # map of_char p)"
| "sample_enc_req (ReqWrite p off data) =
     Ok (2 # ucast off # of_nat (length p) # map of_char p @ data)"
| "sample_enc_req _ = Err ''unsupported''"

fun sample_dec_req :: "request decoder" where
  "sample_dec_req (t # off # n # bs) =
     (let chars = map (\<lambda>b. char_of (unat b))
      in if t = 1 then Ok (ReqRead (chars bs) (ucast off) (ucast n))
         else Ok (ReqWrite (chars (take (unat n) bs)) (ucast off) (drop (unat n) bs)))"
| "sample_dec_req _ = Err ''short''"

fun sample_enc_resp :: "response encoder" where
  "sample_enc_resp (RespRead (Ok d)) = Ok (1 # d)"
| "sample_enc_resp (RespWrite (Ok n)) = Ok [2, ucast n]"
| "sample_enc_resp _ = Err ''unsupported''"

fun sample_dec_resp :: "response decoder" where
  "sample_dec_resp (t # bs) =
     (if t = 1 then Ok (RespRead (Ok bs))
      else (case bs of [n] \<Rightarrow> Ok (RespWrite (Ok (ucast n))) | _ \<Rightarrow> Err ''bad''))"
| "sample_dec_resp _ = Err ''short''"

definition sample_codec :: codec where
  "sample_codec =
     \<lparr>enc_req = sample_enc_req, dec_req = sample_dec_req,
      enc_resp = sample_enc_resp, dec_resp = sample_dec_resp\<rparr>"

definition sample_mem :: mem_vfs where
  "sample_mem = \<lparr>mv_nodes = [(components ''/'', MDir), (components ''/f'', MFile [5])], mv_now = 0\<rparr>"

lemma sample_paths [simp]: "components ''/f'' = [RootDir, Normal ''f'']" "components ''/'' = [RootDir]"
  by code_simp+

definition sample_mem' :: mem_vfs where
  "sample_mem' = \<lparr>mv_nodes = [(components ''/'', MDir), (components ''/f'', MFile [5, 6, 7])], mv_now = 0\<rparr>"

lemma sample_chars: "char_of (47 :: nat) = CHR ''/''" "char_of (102 :: nat) = CHR ''f''"
  by code_simp+

lemma sample_write: "vfs_write memory_vfs ''/f'' 1 [6, 7] sample_mem = (Ok 2, sample_mem')"
  by (simp add: memory_vfs_def mem_write_def sample_mem_def sample_mem'_def mem_put_def resize_def copy_at_def)

lemma sample_read:
  "vfs_read memory_vfs ''/f'' 0 9 sample_mem = (Ok [5], sample_mem)"
  "vfs_read memory_vfs ''/f'' 0 9 sample_mem' = (Ok [5, 6, 7], sample_mem')"
  by (simp_all add: memory_vfs_def mem_read_def sample_mem_def sample_mem'_def)

lemma sample_carried:
  "all_carried (carries sample_codec memory_vfs) memory_vfs
     [ReqWrite ''/f'' 1 [6, 7], ReqRead ''/f'' 0 9] sample_mem"
  by (simp add: carries_def fits_frame_def sample_codec_def sample_chars sample_write sample_read max_frame_def)


section \<open>Properties\<close>

text \<open>C3: the RPC is transparent: on a connection in step, any sequence of VFS calls made
  through the client returns what the same calls return on the provider itself, and
  leaves the provider in the same state with the connection again in step, provided each
  message along the way encodes, fits a frame and decodes to itself.\<close>

theorem rpc_transparent:
  assumes "all_carried (carries c V) V rs s"
  shows "run_requests (client_vfs (rpc_call c V)) rs (insync s) = apsnd insync (run_requests V rs s)"
  using assms by (rule frames.run_client)

theorem rpc_transparent_witness:
  "run_requests (client_vfs (rpc_call sample_codec memory_vfs))
       [ReqWrite ''/f'' 1 [6, 7], ReqRead ''/f'' 0 9] (insync sample_mem) =
     ([RespWrite (Ok 2), RespRead (Ok [5, 6, 7])], insync sample_mem')"
  using rpc_transparent[OF sample_carried] by (simp add: sample_write sample_read)

lemma fresh_call_returns: "\<exists>r. fst (client_call c V req (insync s)) = Some r"
proof (rule client_call_fresh[of c V req s])
  fix b req' rb k1
  assume len: "length (rb :: byte list) < 2 ^ 32"
  assume "client_call c V req (insync s) =
    (case read_frame (dec_resp c) False (frame_bytes rb) of
       Waiting \<Rightarrow> (None, k1)
     | Failed e rest \<Rightarrow> (Some (Err e), k1\<lparr>cn_down := \<lparr>wc_pending = rest, wc_room = None\<rparr>\<rparr>)
     | Got resp rest \<Rightarrow> (Some (Ok resp), k1\<lparr>cn_down := \<lparr>wc_pending = rest, wc_room = None\<rparr>\<rparr>))"
  then show ?thesis using frame_not_waiting[OF len]
    by (cases "read_frame (dec_resp c) False (frame_bytes rb)") auto
qed auto

text \<open>C21: a call on a connection in step always returns, whatever the codec, the request and
  the provider: the server answers it or closes the connection.\<close>

theorem rpc_call_returns: "\<exists>r. fst (client_call c V req (insync s)) = Some r"
  by (rule fresh_call_returns)

text \<open>C22: the server's work does not depend on how the transport cuts the byte stream:
  serving a part and, when the rest arrives, continuing with the unread bytes is serving
  all of it.\<close>

theorem serve_chunking:
  assumes "serve c V False bs s w = (True, rest, s1, w1)"
  shows "serve c V closed (bs @ ext) s w = serve c V closed (rest @ ext) s1 w1"
  using assms by (rule serve_resume)

theorem serve_chunking_witness:
  "serve sample_codec memory_vfs False (frame_bytes [1, 0, 9, 47, 102] @ [0, 0]) sample_mem idle =
   serve sample_codec memory_vfs False [0, 0] sample_mem
     \<lparr>wc_pending = frame_bytes [1, 5], wc_room = None\<rparr>"
proof -
  have "handle memory_vfs (ReqRead ''/f'' 0 9) sample_mem = (RespRead (Ok [5]), sample_mem)"
    by (simp add: sample_read)
  then have "serve sample_codec memory_vfs False (frame_bytes [1, 0, 9, 47, 102] @ []) sample_mem idle =
      serve sample_codec memory_vfs False [] sample_mem
        \<lparr>wc_pending = wc_pending idle @ frame_bytes [1, 5], wc_room = None\<rparr>"
    by (rule serve_one[rotated 2]) (simp_all add: sample_codec_def sample_chars max_frame_def idle_def)
  then have "serve sample_codec memory_vfs False (frame_bytes [1, 0, 9, 47, 102]) sample_mem idle =
      (True, [], sample_mem, \<lparr>wc_pending = frame_bytes [1, 5], wc_room = None\<rparr>)"
    by (simp add: idle_def)
  from serve_chunking[OF this] show ?thesis by simp
qed




text \<open>A file of 64 MiB, and a codec for reads with the length in four bytes.\<close>

definition read_codec :: codec where
  "read_codec = sample_codec\<lparr>
     enc_req := (\<lambda>r. case r of ReqRead p off len \<Rightarrow> Ok (to_be_bytes len @ ucast off # map of_char p) | _ \<Rightarrow> sample_enc_req r),
     dec_req := (\<lambda>b. Ok (ReqRead (map (\<lambda>b. char_of (unat b)) (drop 5 b)) (ucast (b ! 4)) (from_be_bytes (take 4 b))))\<rparr>"

definition large_mem :: mem_vfs where
  "large_mem = \<lparr>mv_nodes = [(components ''/'', MDir), (components ''/f'', MFile ([0, 0, 0] @ replicate max_frame 1))], mv_now = 0\<rparr>"

lemma read_codec_fits: "fits_frame (enc_req read_codec) (dec_req read_codec) (ReqRead ''/f'' 0 len)"
proof -
  have "(to_be_bytes len @ (0 :: byte) # bs) ! 4 = 0" "drop 5 (to_be_bytes len @ (0 :: byte) # bs) = bs" for bs
    by (simp_all add: nth_append)
  then show ?thesis by (simp add: fits_frame_def read_codec_def max_frame_def sample_chars)
qed

lemma large_reads:
  "handle memory_vfs (ReqRead ''/f'' 0 1) large_mem = (RespRead (Ok [0]), large_mem)"
  "handle memory_vfs (ReqRead ''/f'' 0 0x4000003) large_mem = (RespRead (Ok ([0, 0, 0] @ replicate max_frame 1)), large_mem)"
  by (simp_all add: memory_vfs_def mem_read_def large_mem_def max_frame_def)


text \<open>C39: one frame written is the message read, and what follows it in the stream is left for
  the next reader, whether or not the stream is closed.\<close>

theorem frame_round_trip:
  assumes "fits_frame enc dec m" and "wc_room w = None"
  shows "\<exists>bs. write_frame enc m w = (Ok (), \<lparr>wc_pending = wc_pending w @ bs, wc_room = None\<rparr>) \<and>
     (\<forall>closed rest. read_frame dec closed (bs @ rest) = Got m rest) \<and>
     (\<forall>n < length bs. read_frame dec False (take n bs) = Waiting)"
proof -
  obtain b where b: "enc m = Ok b" "length b \<le> max_frame" "dec b = Ok m"
    using assms(1) by (rule fits_frameE)
  note big = max_frame_u32[OF b(2)]
  have "read_frame dec False (take n (frame_bytes b)) = Waiting" if "n < length (frame_bytes b)" for n
  proof (cases "n < 4")
    case True
    then show ?thesis using that by (simp add: read_frame_def)
  next
    case False
    then have "take 4 (take n (frame_bytes b)) = to_be_bytes (of_nat (length b))"
      "drop 4 (take n (frame_bytes b)) = take (n - 4) b"
      by (simp_all add: min_def drop_take)
    moreover have "n - 4 < length b" using that False by simp
    ultimately show ?thesis using that b(2) False
      by (simp add: read_frame_def Let_def unat_of_nat_u32[OF big])
  qed
  then show ?thesis
    using write_frame_idle[of enc m b w] b big assms(2) read_frame_body[OF b(2), of dec]
    by (intro exI[of _ "frame_bytes b"]) simp
qed

theorem frame_round_trip_witness:
  "\<exists>bs. write_frame sample_enc_req (ReqRead ''/f'' 0 9) idle = (Ok (), \<lparr>wc_pending = bs, wc_room = None\<rparr>) \<and>
     read_frame sample_dec_req False (bs @ [7]) = Got (ReqRead ''/f'' 0 9) [7]"
proof -
  have "fits_frame sample_enc_req sample_dec_req (ReqRead ''/f'' 0 9)"
    by (simp add: fits_frame_def sample_chars max_frame_def)
  from frame_round_trip[OF this, of idle] show ?thesis by (auto simp: idle_def)
qed

text \<open>When the stream has ended the server returns, whatever bytes were in it.\<close>

theorem serve_ends:
  "fst (serve c V True bs s w) = False"
  using serve_closed_stops[of c V bs s w] by simp

end
