(* ===== verification/Agent.thy ===== *)
theory Agent
  imports Vfs
begin

text \<open>
  The guest agent (\<^verbatim>\<open>tokimo-packages-vm-agent/src/imp.rs\<close>): a FUSE file system that
  answers each kernel request with calls on the RPC client. The client is any provider
  \<open>V\<close> over a state \<open>'w\<close> (\<open>client_vfs\<close> in the code). Inode numbers and file handles are
  \<^verbatim>\<open>u64\<close> counters (wrapping, as in a release build); the hash maps keyed by a path are
  keyed by its components. \<^verbatim>\<open>errno\<close> values are named, not numbered.
\<close>

section \<open>State\<close>

record tokimo_fuse =
  inodes :: "u64 \<Rightarrow> path option"
  rev_inodes :: "component list \<Rightarrow> u64 option"
  next_ino :: u64
  fhs :: "u64 \<Rightarrow> path option"
  next_fh :: u64

definition tokimo_fuse_new :: tokimo_fuse where
  "tokimo_fuse_new =
     \<lparr>inodes = Map.empty, rev_inodes = Map.empty, next_ino = 2, fhs = Map.empty, next_fh = 1\<rparr>"

definition root_path :: path where
  "root_path = ''/''"

definition path_for :: "tokimo_fuse \<Rightarrow> u64 \<Rightarrow> path option" where
  "path_for f ino = (if ino = 1 then Some root_path else inodes f ino)"

definition intern :: "path \<Rightarrow> tokimo_fuse \<Rightarrow> u64 \<times> tokimo_fuse" where
  "intern p f =
     (if path_eq p root_path then (1, f)
      else (case rev_inodes f (components p) of
              Some ino \<Rightarrow> (ino, f)
            | None \<Rightarrow>
                let ino = next_ino f
                in (ino, f\<lparr>next_ino := next_ino f + 1, inodes := (inodes f)(ino \<mapsto> p),
                           rev_inodes := (rev_inodes f)(components p \<mapsto> ino)\<rparr>)))"

definition alloc_fh :: "path \<Rightarrow> tokimo_fuse \<Rightarrow> u64 \<times> tokimo_fuse" where
  "alloc_fh p f =
     (let fh = next_fh f in (fh, f\<lparr>next_fh := next_fh f + 1, fhs := (fhs f)(fh \<mapsto> p)\<rparr>))"


section \<open>Attributes, errors, paths\<close>

datatype file_type = RegularFile | Directory | SymlinkType

fun file_type_of :: "fs_kind \<Rightarrow> file_type" where
  "file_type_of File = RegularFile"
| "file_type_of Dir = Directory"
| "file_type_of Symlink = SymlinkType"

record fuse_attr =
  ua_ino :: u64
  ua_size :: u64
  ua_blocks :: u64
  ua_atime :: u64
  ua_mtime :: u64
  ua_ctime :: u64
  ua_crtime :: u64
  ua_kind :: file_type
  ua_perm :: u16
  ua_nlink :: u32
  ua_uid :: u32
  ua_gid :: u32
  ua_rdev :: u32
  ua_blksize :: u32
  ua_flags :: u32

text \<open>\<^verbatim>\<open>s.max(0) as u64\<close>: the seconds since the epoch, never before it.\<close>

definition max0 :: "i64 \<Rightarrow> u64" where
  "max0 s = (if sint s < 0 then 0 else s)"

definition div_ceil :: "u64 \<Rightarrow> u64 \<Rightarrow> u64" where
  "div_ceil a b = (let q = a div b; r = a mod b in if 0 < r then q + 1 else q)"

definition to_fuse_attr :: "u64 \<Rightarrow> file_attr \<Rightarrow> fuse_attr" where
  "to_fuse_attr ino a =
     \<lparr>ua_ino = ino, ua_size = fa_size a, ua_blocks = div_ceil (fa_size a) 512,
      ua_atime = max0 (fa_atime_secs a), ua_mtime = max0 (fa_mtime_secs a),
      ua_ctime = max0 (fa_ctime_secs a), ua_crtime = max0 (fa_ctime_secs a),
      ua_kind = file_type_of (fa_kind a), ua_perm = ucast (fa_mode a AND 0xFFF),
      ua_nlink = (if fa_kind a = Dir then 2 else 1), ua_uid = 0, ua_gid = 0, ua_rdev = 0,
      ua_blksize = 4096, ua_flags = 0\<rparr>"
  \<comment> \<open>the mask \<^verbatim>\<open>0o7777\<close> is \<open>0xFFF\<close>\<close>

datatype errno_code = ENOENT | EACCES | EEXIST | ENOTDIR | EISDIR | EIO | EBADF

fun errno :: "vfs_error \<Rightarrow> errno_code" where
  "errno NotFound = ENOENT"
| "errno PermissionDenied = EACCES"
| "errno AlreadyExists = EEXIST"
| "errno NotADirectory = ENOTDIR"
| "errno IsADirectory = EISDIR"
| "errno (Io _) = EIO"

definition join :: "path \<Rightarrow> name \<Rightarrow> path" where
  "join parent name = path_join parent name"

datatype reply =
    RError errno_code
  | REntry fuse_attr
  | RAttr fuse_attr
  | ROpened u64
  | ROk
  | RDir "(u64 \<times> i64 \<times> file_type \<times> name) list"
  | RData "byte list"
  | RWritten u32
  | RCreated fuse_attr u64

text \<open>A handler: a step on the agent's tables and the client's state, with its reply.\<close>

type_synonym 'w handler = "tokimo_fuse \<times> 'w \<Rightarrow> reply \<times> tokimo_fuse \<times> 'w"


section \<open>The handlers of \<^verbatim>\<open>impl Filesystem for TokimoFuse\<close>\<close>

text \<open>An \<^verbatim>\<open>Ok(a)\<close> of \<^verbatim>\<open>stat\<close> answered for inode \<open>ino\<close>, as \<^verbatim>\<open>getattr\<close> and \<^verbatim>\<open>setattr\<close> do.\<close>

definition stat_reply :: "'w tokimo_vfs \<Rightarrow> u64 \<Rightarrow> path \<Rightarrow> 'w handler" where
  "stat_reply V ino p = (\<lambda>(f, w).
     case vfs_stat V p w of
       (Ok a, w1) \<Rightarrow> (RAttr (to_fuse_attr ino a), f, w1)
     | (Err e, w1) \<Rightarrow> (RError (errno e), f, w1))"

text \<open>The end of the handlers whose call returns \<^verbatim>\<open>()\<close>.\<close>

fun unit_reply :: "tokimo_fuse \<Rightarrow> (unit, vfs_error) result \<times> 'w \<Rightarrow> reply \<times> tokimo_fuse \<times> 'w" where
  "unit_reply f (Ok _, w) = (ROk, f, w)"
| "unit_reply f (Err e, w) = (RError (errno e), f, w)"

definition fuse_lookup :: "'w tokimo_vfs \<Rightarrow> u64 \<Rightarrow> name \<Rightarrow> 'w handler" where
  "fuse_lookup V parent name = (\<lambda>(f, w).
     case path_for f parent of
       None \<Rightarrow> (RError ENOENT, f, w)
     | Some p \<Rightarrow>
         let path = join p name in
         (case vfs_stat V path w of
            (Ok a, w1) \<Rightarrow>
              (case intern path f of (ino, f1) \<Rightarrow> (REntry (to_fuse_attr ino a), f1, w1))
          | (Err e, w1) \<Rightarrow> (RError (errno e), f, w1)))"

definition fuse_getattr :: "'w tokimo_vfs \<Rightarrow> u64 \<Rightarrow> 'w handler" where
  "fuse_getattr V ino = (\<lambda>(f, w).
     case path_for f ino of
       None \<Rightarrow> (RError ENOENT, f, w)
     | Some p \<Rightarrow> stat_reply V ino p (f, w))"

definition fuse_setattr :: "'w tokimo_vfs \<Rightarrow> u64 \<Rightarrow> u64 option \<Rightarrow> 'w handler" where
  "fuse_setattr V ino new_size = (\<lambda>(f, w).
     case path_for f ino of
       None \<Rightarrow> (RError ENOENT, f, w)
     | Some p \<Rightarrow>
         (case new_size of
            None \<Rightarrow> stat_reply V ino p (f, w)
          | Some sz \<Rightarrow>
              (case vfs_truncate V p sz w of
                 (Err e, w1) \<Rightarrow> (RError (errno e), f, w1)
               | (Ok _, w1) \<Rightarrow> stat_reply V ino p (f, w1))))"

definition fuse_opendir :: "u64 \<Rightarrow> 'w handler" where
  "fuse_opendir ino = (\<lambda>(f, w).
     case path_for f ino of
       None \<Rightarrow> (RError ENOENT, f, w)
     | Some p \<Rightarrow> (case alloc_fh p f of (fh, f1) \<Rightarrow> (ROpened fh, f1, w)))"

definition fuse_releasedir :: "u64 \<Rightarrow> 'w handler" where
  "fuse_releasedir fh = (\<lambda>(f, w). (ROk, f\<lparr>fhs := (fhs f)(fh := None)\<rparr>, w))"

text \<open>
  \<^verbatim>\<open>readdir\<close>: the entries from the offset on, each with the cookie of the next. The kernel's
  reply buffer (\<^verbatim>\<open>ReplyDirectory::add\<close>) is a parameter: \<open>full es e\<close> holds when \<open>e\<close> does not
  fit after \<open>es\<close>. An entry that does not fit has been interned all the same.
\<close>

type_synonym dir_reply = "(u64 \<times> i64 \<times> file_type \<times> name) list"
type_synonym buffer = "dir_reply \<Rightarrow> u64 \<times> i64 \<times> file_type \<times> name \<Rightarrow> bool"

definition child_ino :: "u64 \<Rightarrow> path \<Rightarrow> name \<Rightarrow> tokimo_fuse \<Rightarrow> u64 \<times> tokimo_fuse" where
  "child_ino ino p name f =
     (if name = ''.'' then (ino, f)
      else if name = ''..'' then (1, f)
      else intern (path_join p name) f)"

fun readdir_loop ::
    "buffer \<Rightarrow> u64 \<Rightarrow> path \<Rightarrow> (nat \<times> file_type \<times> name) list \<Rightarrow> dir_reply \<Rightarrow> tokimo_fuse \<Rightarrow> dir_reply \<times> tokimo_fuse"
where
  "readdir_loop full ino p [] es f = (es, f)"
| "readdir_loop full ino p ((i, kind, name) # rest) es f =
     (case child_ino ino p name f of
        (n, f1) \<Rightarrow>
          let e = (n, of_nat (i + 1), kind, name)
          in if full es e then (es, f1) else readdir_loop full ino p rest (es @ [e]) f1)"

definition dir_listing :: "dir_entry list \<Rightarrow> (file_type \<times> name) list" where
  "dir_listing entries =
     [(Directory, ''.''), (Directory, ''..'')] @ map (\<lambda>e. (file_type_of (de_kind e), de_name e)) entries"

definition fuse_readdir :: "'w tokimo_vfs \<Rightarrow> buffer \<Rightarrow> u64 \<Rightarrow> i64 \<Rightarrow> 'w handler" where
  "fuse_readdir V full ino offset = (\<lambda>(f, w).
     case path_for f ino of
       None \<Rightarrow> (RError ENOENT, f, w)
     | Some p \<Rightarrow>
         (case vfs_list V p w of
            (Err e, w1) \<Rightarrow> (RError (errno e), f, w1)
          | (Ok entries, w1) \<Rightarrow>
              (case readdir_loop full ino p
                      (drop (unat offset) (List.enumerate 0 (dir_listing entries))) [] f of
                 (es, f1) \<Rightarrow> (RDir es, f1, w1))))"

definition fuse_open :: "u64 \<Rightarrow> 'w handler" where
  "fuse_open ino = (\<lambda>(f, w).
     case path_for f ino of
       None \<Rightarrow> (RError ENOENT, f, w)
     | Some p \<Rightarrow> (case alloc_fh p f of (fh, f1) \<Rightarrow> (ROpened fh, f1, w)))"

definition fuse_release :: "u64 \<Rightarrow> 'w handler" where
  "fuse_release fh = (\<lambda>(f, w). (ROk, f\<lparr>fhs := (fhs f)(fh := None)\<rparr>, w))"

definition fuse_read :: "'w tokimo_vfs \<Rightarrow> u64 \<Rightarrow> i64 \<Rightarrow> u32 \<Rightarrow> 'w handler" where
  "fuse_read V fh offset len = (\<lambda>(f, w).
     case fhs f fh of
       None \<Rightarrow> (RError EBADF, f, w)
     | Some p \<Rightarrow>
         (case vfs_read V p (max0 offset) len w of
            (Ok d, w1) \<Rightarrow> (RData d, f, w1)
          | (Err e, w1) \<Rightarrow> (RError (errno e), f, w1)))"

definition fuse_write :: "'w tokimo_vfs \<Rightarrow> u64 \<Rightarrow> i64 \<Rightarrow> byte list \<Rightarrow> 'w handler" where
  "fuse_write V fh offset data = (\<lambda>(f, w).
     case fhs f fh of
       None \<Rightarrow> (RError EBADF, f, w)
     | Some p \<Rightarrow>
         (case vfs_write V p (max0 offset) data w of
            (Ok n, w1) \<Rightarrow> (RWritten n, f, w1)
          | (Err e, w1) \<Rightarrow> (RError (errno e), f, w1)))"

definition fuse_create :: "'w tokimo_vfs \<Rightarrow> u64 \<Rightarrow> name \<Rightarrow> u32 \<Rightarrow> 'w handler" where
  "fuse_create V parent name mode = (\<lambda>(f, w).
     case path_for f parent of
       None \<Rightarrow> (RError ENOENT, f, w)
     | Some p \<Rightarrow>
         let path = join p name in
         (case vfs_create V path mode w of
            (Ok a, w1) \<Rightarrow>
              (case intern path f of
                 (ino, f1) \<Rightarrow>
                   (case alloc_fh path f1 of
                      (fh, f2) \<Rightarrow> (RCreated (to_fuse_attr ino a) fh, f2, w1)))
          | (Err e, w1) \<Rightarrow> (RError (errno e), f, w1)))"

definition fuse_mkdir :: "'w tokimo_vfs \<Rightarrow> u64 \<Rightarrow> name \<Rightarrow> u32 \<Rightarrow> 'w handler" where
  "fuse_mkdir V parent name mode = (\<lambda>(f, w).
     case path_for f parent of
       None \<Rightarrow> (RError ENOENT, f, w)
     | Some p \<Rightarrow>
         let path = join p name in
         (case vfs_mkdir V path mode w of
            (Ok a, w1) \<Rightarrow>
              (case intern path f of (ino, f1) \<Rightarrow> (REntry (to_fuse_attr ino a), f1, w1))
          | (Err e, w1) \<Rightarrow> (RError (errno e), f, w1)))"

definition fuse_unlink :: "'w tokimo_vfs \<Rightarrow> u64 \<Rightarrow> name \<Rightarrow> 'w handler" where
  "fuse_unlink V parent name = (\<lambda>(f, w).
     case path_for f parent of
       None \<Rightarrow> (RError ENOENT, f, w)
     | Some p \<Rightarrow> unit_reply f (vfs_remove V (join p name) w))"

definition fuse_rmdir :: "'w tokimo_vfs \<Rightarrow> u64 \<Rightarrow> name \<Rightarrow> 'w handler" where
  "fuse_rmdir V parent name = (\<lambda>(f, w).
     case path_for f parent of
       None \<Rightarrow> (RError ENOENT, f, w)
     | Some p \<Rightarrow> unit_reply f (vfs_rmdir V (join p name) w))"

definition fuse_rename :: "'w tokimo_vfs \<Rightarrow> u64 \<Rightarrow> name \<Rightarrow> u64 \<Rightarrow> name \<Rightarrow> 'w handler" where
  "fuse_rename V parent name newparent newname = (\<lambda>(f, w).
     case path_for f parent of
       None \<Rightarrow> (RError ENOENT, f, w)
     | Some p \<Rightarrow>
         (case path_for f newparent of
            None \<Rightarrow> (RError ENOENT, f, w)
          | Some np \<Rightarrow> unit_reply f (vfs_rename V (join p name) (join np newname) w)))"


section \<open>One kernel request\<close>

text \<open>The arguments the handlers use; the others (flags, uid, times, locks) are ignored by them.\<close>

datatype fuse_op =
    FLookup u64 name
  | FGetattr u64
  | FSetattr u64 "u64 option"
  | FOpendir u64
  | FReleasedir u64
  | FReaddir u64 i64
  | FOpen u64
  | FRelease u64
  | FRead u64 i64 u32
  | FWrite u64 i64 "byte list"
  | FCreate u64 name u32
  | FMkdir u64 name u32
  | FUnlink u64 name
  | FRmdir u64 name
  | FRename u64 name u64 name

fun fuse_step :: "'w tokimo_vfs \<Rightarrow> buffer \<Rightarrow> fuse_op \<Rightarrow> 'w handler" where
  "fuse_step V full (FLookup parent name) = fuse_lookup V parent name"
| "fuse_step V full (FGetattr ino) = fuse_getattr V ino"
| "fuse_step V full (FSetattr ino new_size) = fuse_setattr V ino new_size"
| "fuse_step V full (FOpendir ino) = fuse_opendir ino"
| "fuse_step V full (FReleasedir fh) = fuse_releasedir fh"
| "fuse_step V full (FReaddir ino off) = fuse_readdir V full ino off"
| "fuse_step V full (FOpen ino) = fuse_open ino"
| "fuse_step V full (FRelease fh) = fuse_release fh"
| "fuse_step V full (FRead fh off len) = fuse_read V fh off len"
| "fuse_step V full (FWrite fh off data) = fuse_write V fh off data"
| "fuse_step V full (FCreate parent name mode) = fuse_create V parent name mode"
| "fuse_step V full (FMkdir parent name mode) = fuse_mkdir V parent name mode"
| "fuse_step V full (FUnlink parent name) = fuse_unlink V parent name"
| "fuse_step V full (FRmdir parent name) = fuse_rmdir V parent name"
| "fuse_step V full (FRename parent name np nn) = fuse_rename V parent name np nn"

fun fuse_run :: "'w tokimo_vfs \<Rightarrow> buffer \<Rightarrow> fuse_op list \<Rightarrow> tokimo_fuse \<times> 'w \<Rightarrow> reply list \<times> tokimo_fuse \<times> 'w" where
  "fuse_run V full [] s = ([], s)"
| "fuse_run V full (op # ops) s =
     (case fuse_step V full op s of (r, s1) \<Rightarrow>
        (case fuse_run V full ops s1 of (rs, s2) \<Rightarrow> (r # rs, s2)))"

lemmas fuse_defs = fuse_lookup_def fuse_getattr_def fuse_setattr_def fuse_opendir_def
  fuse_releasedir_def fuse_readdir_def fuse_open_def fuse_release_def fuse_read_def fuse_write_def
  fuse_create_def fuse_mkdir_def fuse_unlink_def fuse_rmdir_def fuse_rename_def stat_reply_def

end
