(* ===== verification/Agent_Laws.thy ===== *)
theory Agent_Laws
  imports Agent Rpc_Laws
begin

text \<open>
  What the agent keeps: its inode table is a bijection between inode numbers and paths
  that only grows, its file handles are never handed out twice, and its effect on the
  provider is a sequence of VFS requests, so that everything known of a provider behind
  the server holds for a mount in the guest.
\<close>

section \<open>How the tables change\<close>

text \<open>\<open>table_steps n f f'\<close>: at most \<open>n\<close> numbers were handed out on the way.\<close>

inductive table_steps :: "nat \<Rightarrow> tokimo_fuse \<Rightarrow> tokimo_fuse \<Rightarrow> bool" where
  none: "table_steps 0 f f"
| interned: "table_steps n f f1 \<Longrightarrow> table_steps (Suc n) f (snd (intern p f1))"
| allocated: "table_steps n f f1 \<Longrightarrow> table_steps (Suc n) f (snd (alloc_fh p f1))"
| released: "table_steps n f f1 \<Longrightarrow> table_steps n f (f1\<lparr>fhs := (fhs f1)(fh := None)\<rparr>)"

lemma table_steps_trans: "table_steps m f1 f2 \<Longrightarrow> table_steps n f f1 \<Longrightarrow> table_steps (n + m) f f2"
  by (induction rule: table_steps.induct) (auto intro: table_steps.intros)

lemma table_steps_child: "\<exists>m \<le> 1. table_steps m f (snd (child_ino ino p name f))"
  using table_steps.none table_steps.interned[OF table_steps.none]
  by (auto simp: child_ino_def)

lemma readdir_loop_tables:
  "\<exists>m \<le> length xs. table_steps m f (snd (readdir_loop full ino p xs es f))"
proof (induction full ino p xs es f rule: readdir_loop.induct)
  case (1 full ino p es f)
  show ?case using table_steps.none by auto
next
  case (2 full ino p i kind name rest es f)
  obtain n f1 where c: "child_ino ino p name f = (n, f1)" by fastforce
  let ?e = "(n, of_nat (i + 1) :: i64, kind, name)"
  obtain m where m: "m \<le> 1" "table_steps m f f1" using table_steps_child[of f ino p name] c by auto
  show ?case
  proof (cases "full es ?e")
    case True
    then have "snd (readdir_loop full ino p ((i, kind, name) # rest) es f) = f1" using c by simp
    moreover have "m \<le> length ((i, kind, name) # rest)" using m(1) by simp
    ultimately show ?thesis using m(2) by blast
  next
    case False
    obtain m' where m': "m' \<le> length rest" "table_steps m' f1 (snd (readdir_loop full ino p rest (es @ [?e]) f1))"
      using "2.IH"[OF c[symmetric] refl False] by blast
    have "table_steps (m + m') f (snd (readdir_loop full ino p rest (es @ [?e]) f1))"
      using table_steps_trans[OF m'(2) m(2)] .
    moreover have "m + m' \<le> length ((i, kind, name) # rest)" using m(1) m'(1) by simp
    ultimately show ?thesis using False c by auto
  qed
qed

text \<open>How many numbers one request hands out at most.\<close>

definition op_room :: "'w tokimo_vfs \<Rightarrow> fuse_op \<Rightarrow> tokimo_fuse \<times> 'w \<Rightarrow> nat" where
  "op_room V op s =
     (case op of
        FReaddir ino off \<Rightarrow>
          (case path_for (fst s) ino of
             None \<Rightarrow> 0
           | Some p \<Rightarrow> (case fst (vfs_list V p (snd s)) of Ok es \<Rightarrow> length es + 2 | Err _ \<Rightarrow> 0))
      | _ \<Rightarrow> 2)"

lemmas table_one = table_steps.interned[OF table_steps.none] table_steps.allocated[OF table_steps.none]

lemma table_few:
  "\<exists>m \<le> 2. table_steps m f f"
  "\<exists>m \<le> 2. table_steps m f (f\<lparr>fhs := (fhs f)(fh := None)\<rparr>)"
  "intern p f = (ino, f1) \<Longrightarrow> \<exists>m \<le> 2. table_steps m f f1"
  "alloc_fh p f = (fh', f1) \<Longrightarrow> \<exists>m \<le> 2. table_steps m f f1"
  "intern p f = (ino, f1) \<Longrightarrow> alloc_fh p f1 = (fh', f2) \<Longrightarrow> \<exists>m \<le> 2. table_steps m f f2"
proof -
  show "\<exists>m \<le> 2. table_steps m f f" using table_steps.none by blast
  show "\<exists>m \<le> 2. table_steps m f (f\<lparr>fhs := (fhs f)(fh := None)\<rparr>)"
    using table_steps.released[OF table_steps.none] by blast
  show "intern p f = (ino, f1) \<Longrightarrow> \<exists>m \<le> 2. table_steps m f f1"
    using table_one(1)[of f p] by (intro exI[of _ 1]) simp
  show "alloc_fh p f = (fh', f1) \<Longrightarrow> \<exists>m \<le> 2. table_steps m f f1"
    using table_one(2)[of f p] by (intro exI[of _ 1]) simp
  show "\<exists>m \<le> 2. table_steps m f f2" if "intern p f = (ino, f1)" "alloc_fh p f1 = (fh', f2)"
    using table_steps.allocated[OF table_one(1)[of f p], of p] that
    by (intro exI[of _ 2]) (simp add: numeral_2_eq_2)
qed

lemma snd_unit_reply [simp]: "snd (unit_reply f x) = (f, snd x)"
  by (cases x; cases "fst x") auto

lemma unit_reply_apsnd [simp]: "unit_reply f (apsnd g x) = apsnd (apsnd g) (unit_reply f x)"
  by (cases x; cases "fst x") auto

lemma fuse_readdir_tables:
  "\<exists>m \<le> op_room V (FReaddir ino off) (f, w). table_steps m f (fst (snd (fuse_readdir V full ino off (f, w))))"
proof -
  have loop: "\<exists>m \<le> length entries + 2. table_steps m f
      (snd (readdir_loop full ino p (drop k (List.enumerate 0 (dir_listing entries))) [] f))" for p k entries
    using readdir_loop_tables[of "drop k (List.enumerate 0 (dir_listing entries))" f full ino p "[]"]
    by (auto simp: dir_listing_def) (meson diff_le_self le_trans)
  show ?thesis
    using loop table_steps.none
    by (auto simp: fuse_readdir_def op_room_def split: option.split prod.split result.split)
      (metis snd_conv)+
qed

lemma fuse_step_tables:
  "\<exists>m \<le> op_room V op (f, w). table_steps m f (fst (snd (fuse_step V full op (f, w))))"
proof (cases "\<exists>ino off. op = FReaddir ino off")
  case True
  then show ?thesis using fuse_readdir_tables by auto
next
  case False
  then have "op_room V op (f, w) = 2" by (cases op) (auto simp: op_room_def)
  moreover have "\<exists>m \<le> 2. table_steps m f (fst (snd (fuse_step V full op (f, w))))"
    using False
    by (cases op)
      (auto simp: fuse_defs Let_def table_few(1,2) intro: table_few(3-5)
        split: option.split prod.split result.split)
  ultimately show ?thesis by simp
qed



section \<open>The inode table\<close>

text \<open>
  Numbers from 2 below the counter; \<open>rev_inodes\<close> is the inverse of \<open>inodes\<close>; the root has
  no entry (it is inode 1).
\<close>

definition inode_inv :: "tokimo_fuse \<Rightarrow> bool" where
  "inode_inv f \<longleftrightarrow>
     2 \<le> unat (next_ino f) \<and>
     (\<forall>ino p. inodes f ino = Some p \<longrightarrow>
        2 \<le> unat ino \<and> unat ino < unat (next_ino f) \<and> rev_inodes f (components p) = Some ino \<and>
        \<not> path_eq p root_path) \<and>
     (\<forall>cs ino. rev_inodes f cs = Some ino \<longrightarrow> (\<exists>p. inodes f ino = Some p \<and> components p = cs))"

text \<open>Handles from 1 below the counter.\<close>

definition fh_inv :: "tokimo_fuse \<Rightarrow> bool" where
  "fh_inv f \<longleftrightarrow>
     1 \<le> unat (next_fh f) \<and> (\<forall>fh p. fhs f fh = Some p \<longrightarrow> 1 \<le> unat fh \<and> unat fh < unat (next_fh f))"

lemma inode_inv_same:
  "inodes f' = inodes f \<Longrightarrow> rev_inodes f' = rev_inodes f \<Longrightarrow> next_ino f' = next_ino f \<Longrightarrow>
     inode_inv f' = inode_inv f"
  by (simp add: inode_inv_def)

lemma fh_inv_same: "fhs f' = fhs f \<Longrightarrow> next_fh f' = next_fh f \<Longrightarrow> fh_inv f' = fh_inv f"
  by (simp add: fh_inv_def)

lemma fh_inv_release: "fh_inv f \<Longrightarrow> fh_inv (f\<lparr>fhs := (fhs f)(fh := None)\<rparr>)"
  by (auto simp: fh_inv_def)

lemma inode_inv_entry:
  assumes "inode_inv f" and "inodes f ino = Some p"
  shows "2 \<le> unat ino" "unat ino < unat (next_ino f)" "rev_inodes f (components p) = Some ino"
    "\<not> path_eq p root_path"
  using assms by (auto simp: inode_inv_def)

lemma inode_inv_rev:
  "inode_inv f \<Longrightarrow> rev_inodes f cs = Some ino \<Longrightarrow> \<exists>p. inodes f ino = Some p \<and> components p = cs"
  by (auto simp: inode_inv_def)

lemma inode_inv_first: "inode_inv f \<Longrightarrow> 2 \<le> unat (next_ino f)"
  by (simp add: inode_inv_def)

lemma unat_Suc64: "unat (x :: u64) + 1 < 2 ^ 64 \<Longrightarrow> unat (x + 1) = Suc (unat x)"
  by (simp add: unat_word_ariths)

lemma inode_inv_insert:
  assumes inv: "inode_inv f" and new: "\<not> path_eq p root_path" "rev_inodes f (components p) = None"
    and room: "unat (next_ino f) + 1 < 2 ^ 64"
  shows "inode_inv (f\<lparr>next_ino := next_ino f + 1, inodes := (inodes f)(next_ino f \<mapsto> p),
           rev_inodes := (rev_inodes f)(components p \<mapsto> next_ino f)\<rparr>)"
    (is "inode_inv ?g")
  unfolding inode_inv_def
proof (intro conjI allI impI)
  note suc = unat_Suc64[OF room]
  show "2 \<le> unat (next_ino ?g)" using inode_inv_first[OF inv] suc by simp
  fix i q
  have other: "components q \<noteq> components p" if "inodes f i = Some q"
    using inode_inv_entry(3)[OF inv that] new(2) by auto
  assume i: "inodes ?g i = Some q"
  show "2 \<le> unat i"
    using i inode_inv_first[OF inv] inode_inv_entry(1)[OF inv] by (auto split: if_splits)
  show "unat i < unat (next_ino ?g)"
    using i suc inode_inv_entry(2)[OF inv, of i q] by (auto split: if_splits)
  show "\<not> path_eq q root_path"
    using i new(1) inode_inv_entry(4)[OF inv, of i q] by (auto split: if_splits)
  show "rev_inodes ?g (components q) = Some i"
    using i other inode_inv_entry(3)[OF inv, of i q] by (auto split: if_splits)
next
  fix cs i assume i: "rev_inodes ?g cs = Some i"
  show "\<exists>q. inodes ?g i = Some q \<and> components q = cs"
  proof (cases "cs = components p")
    case True
    then show ?thesis using i by auto
  next
    case False
    then obtain q where q: "inodes f i = Some q" "components q = cs"
      using i inode_inv_rev[OF inv] by auto
    then show ?thesis using inode_inv_entry(2)[OF inv q(1)] by auto
  qed
qed

lemma intern_known:
  assumes inv: "inode_inv f" and i: "intern p f = (ino, f1)" and room: "unat (next_ino f) + 1 < 2 ^ 64"
  shows "inode_inv f1" and "inodes f \<subseteq>\<^sub>m inodes f1" and "unat (next_ino f1) \<le> Suc (unat (next_ino f))"
    and "\<exists>q. path_for f1 ino = Some q \<and> path_eq q p" and "fhs f1 = fhs f" and "next_fh f1 = next_fh f"
proof -
  consider (root) "path_eq p root_path" "ino = 1" "f1 = f"
    | (old) q where "inodes f ino = Some q" "components q = components p" "f1 = f"
    | (new) "\<not> path_eq p root_path" "rev_inodes f (components p) = None" "ino = next_ino f"
        "f1 = f\<lparr>next_ino := next_ino f + 1, inodes := (inodes f)(next_ino f \<mapsto> p),
                rev_inodes := (rev_inodes f)(components p \<mapsto> next_ino f)\<rparr>"
  proof (cases "path_eq p root_path")
    case True
    then show ?thesis using root i by (simp add: intern_def)
  next
    case False
    show ?thesis
    proof (cases "rev_inodes f (components p)")
      case None
      then show ?thesis using new False i by (auto simp: intern_def Let_def)
    next
      case (Some n)
      then obtain q where q: "inodes f n = Some q" "components q = components p"
        using inode_inv_rev[OF inv] by blast
      have "ino = n" "f1 = f" using False i Some by (auto simp: intern_def)
      then show ?thesis using old[of q] q by blast
    qed
  qed
  then have "inode_inv f1 \<and> inodes f \<subseteq>\<^sub>m inodes f1 \<and> unat (next_ino f1) \<le> Suc (unat (next_ino f)) \<and>
      (\<exists>q. path_for f1 ino = Some q \<and> path_eq q p) \<and> fhs f1 = fhs f \<and> next_fh f1 = next_fh f"
  proof cases
    case root
    then show ?thesis using inv by (auto simp: path_for_def path_eq_def)
  next
    case old
    then have "ino \<noteq> 1" using inode_inv_entry(1)[OF inv old(1)] by auto
    then show ?thesis using old inv by (auto simp: path_for_def path_eq_def)
  next
    case new
    have fresh: "inodes f (next_ino f) = None"
      using inode_inv_entry(2)[OF inv, of "next_ino f"] by (cases "inodes f (next_ino f)") auto
    have "next_ino f \<noteq> 1" using inode_inv_first[OF inv] by auto
    moreover have "inode_inv f1" using inode_inv_insert[OF inv new(1,2) room] new(4) by simp
    moreover have "inodes f \<subseteq>\<^sub>m inodes f1" using new(4) fresh by (auto simp: map_le_def)
    ultimately show ?thesis using new(3,4) unat_Suc64[OF room] by (simp add: path_for_def path_eq_def)
  qed
  then show "inode_inv f1" "inodes f \<subseteq>\<^sub>m inodes f1" "unat (next_ino f1) \<le> Suc (unat (next_ino f))"
    "\<exists>q. path_for f1 ino = Some q \<and> path_eq q p" "fhs f1 = fhs f" "next_fh f1 = next_fh f"
    by (simp_all only: simp_thms)
qed

lemma alloc_fresh:
  assumes "fh_inv f" and "alloc_fh p f = (fh, f1)" and "unat (next_fh f) + 1 < 2 ^ 64"
  shows "fh_inv f1" and "fhs f fh = None" and "fhs f1 = (fhs f)(fh \<mapsto> p)"
    and "unat (next_fh f1) = Suc (unat (next_fh f))"
    and "inodes f1 = inodes f" and "rev_inodes f1 = rev_inodes f" and "next_ino f1 = next_ino f"
proof -
  note suc = unat_Suc64[OF assms(3)]
  have fh: "fh = next_fh f" "f1 = f\<lparr>next_fh := next_fh f + 1, fhs := (fhs f)(fh \<mapsto> p)\<rparr>"
    using assms(2) by (auto simp: alloc_fh_def Let_def)
  then show "fhs f fh = None" using assms(1) by (cases "fhs f fh") (auto simp: fh_inv_def)
  have "1 \<le> unat (next_fh f)" using assms(1) by (simp add: fh_inv_def)
  moreover have "1 \<le> unat g \<and> unat g < unat (next_fh f)" if "fhs f g = Some q" for g q
    using assms(1) that by (auto simp: fh_inv_def)
  ultimately show "fh_inv f1" using fh suc by (auto simp: fh_inv_def less_Suc_eq)
  show "fhs f1 = (fhs f)(fh \<mapsto> p)" "unat (next_fh f1) = Suc (unat (next_fh f))"
    "inodes f1 = inodes f" "rev_inodes f1 = rev_inodes f" "next_ino f1 = next_ino f"
    using fh suc by simp_all
qed

text \<open>Both invariants along any change of the tables, while the counters have room.\<close>

definition tables_ok :: "nat \<Rightarrow> tokimo_fuse \<Rightarrow> bool" where
  "tables_ok n f \<longleftrightarrow>
     inode_inv f \<and> fh_inv f \<and> unat (next_ino f) \<le> n + 2 \<and> unat (next_fh f) \<le> n + 1"

lemma tables_ok_new: "tables_ok 0 tokimo_fuse_new"
  by (simp add: tables_ok_def inode_inv_def fh_inv_def tokimo_fuse_new_def)

lemma tables_ok_mono: "tables_ok n f \<Longrightarrow> n \<le> m \<Longrightarrow> tables_ok m f"
  by (auto simp: tables_ok_def)

lemma table_steps_ok:
  assumes "table_steps m f f'" and "tables_ok n f" and "n + m + 2 < 2 ^ 64"
  shows "tables_ok (n + m) f' \<and> inodes f \<subseteq>\<^sub>m inodes f'"
  using assms
proof (induction rule: table_steps.induct)
  case (none f)
  then show ?case by simp
next
  case (interned m f f1 p)
  obtain ino f2 where i: "intern p f1 = (ino, f2)" by fastforce
  have "tables_ok (n + m) f1 \<and> inodes f \<subseteq>\<^sub>m inodes f1"
    using interned.IH interned.prems by simp
  then have ok: "inode_inv f1" "fh_inv f1" "unat (next_ino f1) \<le> n + m + 2" "unat (next_fh f1) \<le> n + m + 1"
      "inodes f \<subseteq>\<^sub>m inodes f1"
    by (simp_all add: tables_ok_def)
  have "unat (next_ino f1) + 1 < 2 ^ 64" using ok(3) interned.prems(2) by simp
  note k = intern_known[OF ok(1) i this]
  have "tables_ok (n + Suc m) f2"
    unfolding tables_ok_def using k(1,3) ok(2-4) fh_inv_same[OF k(5,6)] k(6) by simp
  then show ?case using i map_le_trans[OF ok(5) k(2)] by simp
next
  case (allocated m f f1 p)
  obtain fh f2 where a: "alloc_fh p f1 = (fh, f2)" by fastforce
  have "tables_ok (n + m) f1 \<and> inodes f \<subseteq>\<^sub>m inodes f1"
    using allocated.IH allocated.prems by simp
  then have ok: "inode_inv f1" "fh_inv f1" "unat (next_ino f1) \<le> n + m + 2" "unat (next_fh f1) \<le> n + m + 1"
      "inodes f \<subseteq>\<^sub>m inodes f1"
    by (simp_all add: tables_ok_def)
  have "unat (next_fh f1) + 1 < 2 ^ 64" using ok(4) allocated.prems(2) by simp
  note k = alloc_fresh[OF ok(2) a this]
  have "tables_ok (n + Suc m) f2"
    unfolding tables_ok_def using k(1,4,7) ok(1,3,4) inode_inv_same[OF k(5-7)] by simp
  then show ?case using a k(5) ok(5) by simp
next
  case (released m f f1 fh)
  let ?f = "f1\<lparr>fhs := (fhs f1)(fh := None)\<rparr>"
  have "tables_ok (n + m) f1 \<and> inodes f \<subseteq>\<^sub>m inodes f1"
    using released.IH released.prems by simp
  moreover have "inode_inv ?f = inode_inv f1" by (rule inode_inv_same) simp_all
  ultimately show ?case using fh_inv_release[of f1 fh] by (simp add: tables_ok_def)
qed



section \<open>Reachable states\<close>

text \<open>
  The agent from its start, with any kernel requests, and with any change of the provider's
  state by others between them; \<open>n\<close> bounds the numbers handed out.
\<close>

inductive agent_reach :: "'w tokimo_vfs \<Rightarrow> buffer \<Rightarrow> nat \<Rightarrow> tokimo_fuse \<times> 'w \<Rightarrow> bool" for V full where
  start: "agent_reach V full 0 (tokimo_fuse_new, w)"
| op: "agent_reach V full n s \<Longrightarrow>
     agent_reach V full (n + op_room V op s) (snd (fuse_step V full op s))"
| world: "agent_reach V full n (f, w) \<Longrightarrow> agent_reach V full n (f, w')"

lemma reach_tables_ok:
  assumes "agent_reach V full n s" and "n + 2 < 2 ^ 64"
  shows "tables_ok n (fst s)"
  using assms
proof (induction rule: agent_reach.induct)
  case (start w)
  show ?case by (simp add: tables_ok_new)
next
  case (op n s op)
  obtain m where m: "m \<le> op_room V op s" "table_steps m (fst s) (fst (snd (fuse_step V full op s)))"
    using fuse_step_tables[of V op "fst s" "snd s" full] by auto
  have "tables_ok (n + m) (fst (snd (fuse_step V full op s)))"
    using table_steps_ok[OF m(2), of n] op m(1) by simp
  then show ?case using m(1) by (auto intro: tables_ok_mono)
next
  case (world n f w w')
  then show ?case by simp
qed

lemma path_for_inj:
  assumes inv: "inode_inv f" and p: "path_for f i = Some p" and q: "path_for f j = Some q"
  shows "path_eq p q \<longleftrightarrow> i = j"
proof (cases "i = 1 \<or> j = 1")
  case True
  then show ?thesis
    using p q inode_inv_entry(4)[OF inv, of i p] inode_inv_entry(4)[OF inv, of j q]
    by (auto simp: path_for_def path_eq_def split: if_splits)
next
  case False
  then have i: "inodes f i = Some p" and j: "inodes f j = Some q" using p q by (auto simp: path_for_def)
  show ?thesis
    using inode_inv_entry(3)[OF inv i] inode_inv_entry(3)[OF inv j] i j by (auto simp: path_eq_def)
qed

lemma path_for_mono:
  "inodes f \<subseteq>\<^sub>m inodes f' \<Longrightarrow> path_for f i = Some p \<Longrightarrow> path_for f' i = Some p"
  by (auto simp: path_for_def map_le_def dom_def split: if_splits)

text \<open>The numbers a sequence of requests hands out at most.\<close>

fun run_room :: "'w tokimo_vfs \<Rightarrow> buffer \<Rightarrow> fuse_op list \<Rightarrow> tokimo_fuse \<times> 'w \<Rightarrow> nat" where
  "run_room V full [] s = 0"
| "run_room V full (op # ops) s = op_room V op s + run_room V full ops (snd (fuse_step V full op s))"

lemma fuse_run_tables:
  assumes "tables_ok n (fst s)" and "n + run_room V full ops s + 2 < 2 ^ 64"
  shows "tables_ok (n + run_room V full ops s) (fst (snd (fuse_run V full ops s))) \<and>
    inodes (fst s) \<subseteq>\<^sub>m inodes (fst (snd (fuse_run V full ops s)))"
  using assms
proof (induction ops arbitrary: n s)
  case Nil
  then show ?case by simp
next
  case (Cons op ops)
  let ?s1 = "snd (fuse_step V full op s)"
  obtain m where m: "m \<le> op_room V op s" "table_steps m (fst s) (fst ?s1)"
    using fuse_step_tables[of V op "fst s" "snd s" full] by auto
  have "tables_ok (n + m) (fst ?s1) \<and> inodes (fst s) \<subseteq>\<^sub>m inodes (fst ?s1)"
    using table_steps_ok[OF m(2) Cons.prems(1)] Cons.prems(2) m(1) by simp
  then have first: "tables_ok (n + op_room V op s) (fst ?s1)" "inodes (fst s) \<subseteq>\<^sub>m inodes (fst ?s1)"
    using m(1) by (auto intro: tables_ok_mono)
  have "tables_ok (n + op_room V op s + run_room V full ops ?s1) (fst (snd (fuse_run V full ops ?s1))) \<and>
      inodes (fst ?s1) \<subseteq>\<^sub>m inodes (fst (snd (fuse_run V full ops ?s1)))"
    using Cons.IH[OF first(1)] Cons.prems(2) by simp
  then show ?case
    using map_le_trans[OF first(2)] by (simp add: split_beta add.assoc)
qed


section \<open>The agent as a client of the provider\<close>

text \<open>The VFS calls of a handler, in order (\<^verbatim>\<open>setattr\<close> stops after a failed truncation).\<close>

fun at_path :: "path option \<Rightarrow> (path \<Rightarrow> request list) \<Rightarrow> request list" where
  "at_path None k = []"
| "at_path (Some p) k = k p"

fun op_requests :: "tokimo_fuse \<Rightarrow> fuse_op \<Rightarrow> request list" where
  "op_requests f (FLookup d n) = at_path (path_for f d) (\<lambda>p. [ReqStat (join p n)])"
| "op_requests f (FGetattr i) = at_path (path_for f i) (\<lambda>p. [ReqStat p])"
| "op_requests f (FSetattr i None) = at_path (path_for f i) (\<lambda>p. [ReqStat p])"
| "op_requests f (FSetattr i (Some sz)) = at_path (path_for f i) (\<lambda>p. [ReqTruncate p sz, ReqStat p])"
| "op_requests f (FReaddir i off) = at_path (path_for f i) (\<lambda>p. [ReqList p])"
| "op_requests f (FRead h off len) = at_path (fhs f h) (\<lambda>p. [ReqRead p (max0 off) len])"
| "op_requests f (FWrite h off data) = at_path (fhs f h) (\<lambda>p. [ReqWrite p (max0 off) data])"
| "op_requests f (FCreate d n mode) = at_path (path_for f d) (\<lambda>p. [ReqCreate (join p n) mode])"
| "op_requests f (FMkdir d n mode) = at_path (path_for f d) (\<lambda>p. [ReqMkdir (join p n) mode])"
| "op_requests f (FUnlink d n) = at_path (path_for f d) (\<lambda>p. [ReqRemove (join p n)])"
| "op_requests f (FRmdir d n) = at_path (path_for f d) (\<lambda>p. [ReqRmdir (join p n)])"
| "op_requests f (FRename d n d' n') =
     at_path (path_for f d) (\<lambda>p. at_path (path_for f d') (\<lambda>p'. [ReqRename (join p n) (join p' n')]))"
| "op_requests f _ = []"

fun run_carried ::
    "(request \<Rightarrow> 'w \<Rightarrow> bool) \<Rightarrow> 'w tokimo_vfs \<Rightarrow> buffer \<Rightarrow> fuse_op list \<Rightarrow> tokimo_fuse \<times> 'w \<Rightarrow> bool" where
  "run_carried P V full [] s = True"
| "run_carried P V full (op # ops) s =
     (all_carried P V (op_requests (fst s) op) (snd s) \<and>
      run_carried P V full ops (snd (fuse_step V full op s)))"

lemma fuse_step_world:
  "\<exists>rs. snd (snd (fuse_step V full op (f, w))) = snd (run_requests V rs w)"
proof -
  have "snd (snd (fuse_step V full op (f, w))) = snd (run_requests V (op_requests f op) w) \<or>
      snd (snd (fuse_step V full op (f, w))) = snd (run_requests V (take 1 (op_requests f op)) w)"
  proof (cases "\<exists>i sz. op = FSetattr i (Some sz)")
    case True
    then show ?thesis
      by (auto simp: fuse_defs split_beta split: option.split result.split)
  next
    case False
    then show ?thesis
      by (cases "(f, op)" rule: op_requests.cases)
        (auto simp: fuse_defs Let_def split_beta split: option.split result.split)
  qed
  then show ?thesis by blast
qed

lemma fuse_run_world: "\<exists>rs. snd (snd (fuse_run V full ops (f, w))) = snd (run_requests V rs w)"
proof (induction ops arbitrary: f w)
  case Nil
  show ?case by (rule exI[of _ "[]"]) simp
next
  case (Cons op ops)
  obtain r f1 w1 where s1: "fuse_step V full op (f, w) = (r, f1, w1)" by (metis prod_cases3)
  obtain rs where rs: "w1 = snd (run_requests V rs w)"
    using fuse_step_world[of V full op f w] s1 by auto
  obtain rs' where rs': "snd (snd (fuse_run V full ops (f1, w1))) = snd (run_requests V rs' w1)"
    using Cons.IH by blast
  show ?case
    using s1 rs rs' by (intro exI[of _ "rs @ rs'"]) (simp add: run_requests_append split_beta)
qed

context vfs_transport
begin

lemma fuse_step_client:
  assumes "all_carried carried V (op_requests f op) s"
  shows "fuse_step (client_vfs call) full op (f, sync s) =
    apsnd (apsnd sync) (fuse_step V full op (f, s))"
  using assms
  by (cases "(f, op)" rule: op_requests.cases)
    (auto simp: fuse_defs Let_def methods split_beta split: option.split result.split prod.split)

lemma fuse_run_client:
  assumes "run_carried carried V full ops (f, s)"
  shows "fuse_run (client_vfs call) full ops (f, sync s) = apsnd (apsnd sync) (fuse_run V full ops (f, s))"
  using assms
proof (induction ops arbitrary: f s)
  case Nil
  show ?case by simp
next
  case (Cons op ops)
  obtain r f1 s1 where s1: "fuse_step V full op (f, s) = (r, f1, s1)" by (metis prod_cases3)
  have "fuse_step (client_vfs call) full op (f, sync s) = (r, f1, sync s1)"
    using fuse_step_client[of f op s full] Cons.prems s1 by simp
  moreover have "fuse_run (client_vfs call) full ops (f1, sync s1) =
      apsnd (apsnd sync) (fuse_run V full ops (f1, s1))"
    using Cons.IH[of f1 s1] Cons.prems s1 by simp
  ultimately show ?case using s1 by (simp add: split_beta)
qed

end

end
