(* ===== verification/Agent_Props.thy ===== *)
theory Agent_Props
  imports Agent_Laws Memory_Vfs
begin

text \<open>
  The properties of the guest agent: the inode table and the file handles in every
  reachable state, what each kind of failure leaves behind, directory listings in
  pieces, attributes, and the two places where a rename leaves the table stale.
\<close>

section \<open>Sample states\<close>

definition roomy :: buffer where
  "roomy = (\<lambda>_ _. False)"

definition agent_mem :: mem_vfs where
  "agent_mem = \<lparr>mv_nodes = [([RootDir], MDir), ([RootDir, Normal ''f''], MFile [5])], mv_now = 0\<rparr>"

lemma agent_paths [simp]:
  "components ''/f'' = [RootDir, Normal ''f'']" "components ''/'' = [RootDir]"
  "components ''/g'' = [RootDir, Normal ''g'']"
  "join ''/'' ''f'' = ''/f''" "join ''/'' ''g'' = ''/g''"
  by code_simp+

lemma root_for [simp]: "path_for f 1 = Some ''/''"
  by (simp add: path_for_def root_path_def)


section \<open>Properties\<close>

text \<open>C4: in every reachable state the inode table is consistent: a number stands for one path
  and a path for one number, the root for number 1, and no handle the kernel holds is
  handed out again, as long as fewer than \<open>2 ^ 64 - 2\<close> numbers were handed out.\<close>

theorem agent_tables_consistent:
  assumes "agent_reach V full n (f, w)" and "n + 2 < 2 ^ 64"
    and "path_for f i = Some p" and "path_for f j = Some q"
  shows "(path_eq p q \<longleftrightarrow> i = j) \<and> inode_inv f \<and> fh_inv f \<and> fhs f (next_fh f) = None"
proof -
  have ok: "inode_inv f" "fh_inv f" using reach_tables_ok[OF assms(1,2)] by (simp_all add: tables_ok_def)
  moreover have "fhs f (next_fh f) = None"
    using ok(2) by (cases "fhs f (next_fh f)") (auto simp: fh_inv_def)
  ultimately show ?thesis using path_for_inj[OF ok(1) assms(3,4)] by blast
qed

theorem agent_tables_consistent_witness:
  "let s = snd (fuse_step memory_vfs roomy (FLookup 1 ''f'') (tokimo_fuse_new, agent_mem))
   in inode_inv (fst s) \<and> fh_inv (fst s)"
proof -
  let ?s = "snd (fuse_step memory_vfs roomy (FLookup 1 ''f'') (tokimo_fuse_new, agent_mem))"
  obtain f w where s: "?s = (f, w)" by fastforce
  have "agent_reach memory_vfs roomy (0 + op_room memory_vfs (FLookup 1 ''f'') (tokimo_fuse_new, agent_mem)) ?s"
    by (intro agent_reach.op agent_reach.start)
  then have "agent_reach memory_vfs roomy 2 (f, w)"
    using s by (simp add: op_room_def numeral_2_eq_2)
  from agent_tables_consistent[OF this _ root_for root_for] show ?thesis using s by simp
qed

text \<open>C17: inode numbers persist: a number keeps its path through any later requests, so a
  path looked up again, whatever happened in between, gets the number it had.\<close>

theorem agent_ino_stable:
  assumes "tables_ok n f" and "fuse_run V full ops (f, w) = (rs, f', w')"
    and "n + run_room V full ops (f, w) + 3 < 2 ^ 64"
    and "path_for f i = Some p"
  shows "path_for f' i = Some p \<and> (\<forall>q. path_eq q p \<longrightarrow> fst (intern q f') = i)"
proof -
  have ok: "tables_ok (n + run_room V full ops (f, w)) f'" "inodes f \<subseteq>\<^sub>m inodes f'"
    using fuse_run_tables[of n "(f, w)" V full ops] assms(1-3) by auto
  then have p: "path_for f' i = Some p" using path_for_mono assms(4) by blast
  have "fst (intern q f') = i" if q: "path_eq q p" for q
  proof -
    obtain j f2 where j: "intern q f' = (j, f2)" by fastforce
    have inv: "inode_inv f'" and room: "unat (next_ino f') + 1 < 2 ^ 64"
      using ok(1) assms(3) by (auto simp: tables_ok_def)
    note k = intern_known[OF inv j room]
    obtain q' where "path_for f2 j = Some q'" "path_eq q' q" using k(4) by blast
    moreover have "path_for f2 i = Some p" using path_for_mono[OF k(2) p] .
    ultimately have "j = i" using path_for_inj[OF k(1)] q by (auto simp: path_eq_def)
    then show ?thesis using j by simp
  qed
  then show ?thesis using p by blast
qed

theorem agent_ino_stable_witness:
  "\<exists>f' w'. snd (fuse_run memory_vfs roomy [FRename 1 ''f'' 1 ''g''] (tokimo_fuse_new, agent_mem)) = (f', w') \<and>
     path_for f' 1 = Some ''/''"
proof -
  obtain rs f' w' where r: "fuse_run memory_vfs roomy [FRename 1 ''f'' 1 ''g''] (tokimo_fuse_new, agent_mem)
      = (rs, f', w')" by (metis prod_cases3)
  have "run_room memory_vfs roomy [FRename 1 ''f'' 1 ''g''] (tokimo_fuse_new, agent_mem) = 2"
    by (simp add: op_room_def)
  then show ?thesis
    using agent_ino_stable[OF tables_ok_new r _ root_for] r by simp
qed

text \<open>A request that fails changes nothing in the agent: after an error reply the inode
  and handle tables are what they were.\<close>

theorem agent_error_keeps_tables:
  assumes "fuse_step V full op (f, w) = (RError e, f', w')"
  shows "f' = f"
proof -
  have unit: "unit_reply f x = (RError e, f', w') \<Longrightarrow> f' = f" for x
    using snd_unit_reply[of f x] by simp
  show ?thesis using assms
    by (cases op)
      (auto simp: fuse_defs Let_def split: option.splits prod.splits result.splits dest: unit)
qed

theorem agent_error_keeps_tables_witness:
  "snd (fuse_step memory_vfs roomy (FCreate 1 ''f'' 0) (tokimo_fuse_new, agent_mem)) =
     (tokimo_fuse_new, agent_mem)"
proof -
  have "fuse_step memory_vfs roomy (FCreate 1 ''f'' 0) (tokimo_fuse_new, agent_mem) =
      (RError EEXIST, tokimo_fuse_new, agent_mem)"
    by (simp add: fuse_create_def memory_vfs_def mem_create_def mem_insert_new_def agent_mem_def)
  then show ?thesis using agent_error_keeps_tables by fastforce
qed

text \<open>A request for an inode the agent never handed out is answered \<^verbatim>\<open>ENOENT\<close>, one for a
  handle it does not hold \<^verbatim>\<open>EBADF\<close>, without a call to the host.\<close>

theorem agent_unknown_rejected:
  assumes "path_for f i = None" and "fhs f h = None"
  shows "(\<forall>op \<in> {FLookup i nm, FGetattr i, FSetattr i sz, FOpendir i, FReaddir i off, FOpen i,
                FCreate i nm mode, FMkdir i nm mode, FUnlink i nm, FRmdir i nm,
                FRename i nm i' nm', FRename 1 nm i nm'}.
           fuse_step V full op (f, w) = (RError ENOENT, f, w)) \<and>
    (\<forall>op \<in> {FRead h off len, FWrite h off data}.
           fuse_step V full op (f, w) = (RError EBADF, f, w))"
  using assms by (simp_all add: fuse_defs)

theorem agent_unknown_rejected_witness:
  "fuse_step memory_vfs roomy (FUnlink 7 ''f'') (tokimo_fuse_new, agent_mem) =
     (RError ENOENT, tokimo_fuse_new, agent_mem) \<and>
   fuse_step memory_vfs roomy (FRead 7 0 9) (tokimo_fuse_new, agent_mem) =
     (RError EBADF, tokimo_fuse_new, agent_mem)"
  using agent_unknown_rejected[where f = tokimo_fuse_new and i = 7 and h = 7 and nm = "''f''"
      and V = memory_vfs and full = roomy and w = agent_mem and off = 0 and len = 9]
  by (simp add: path_for_def tokimo_fuse_new_def)

definition names_of :: "dir_reply \<Rightarrow> (file_type \<times> name) list" where
  "names_of es = map (\<lambda>(_, _, t, n). (t, n)) es"

definition last_cookie :: "dir_reply \<Rightarrow> i64" where
  "last_cookie es = fst (snd (last es))"

lemma readdir_loop_entries:
  assumes "readdir_loop full ino p xs es f = (es', f')"
  shows "\<exists>new k. es' = es @ new \<and> k \<le> length xs \<and>
    map snd new = map (\<lambda>(i, t, n). (of_nat (i + 1), t, n)) (take k xs) \<and>
    (k = length xs \<or> (\<exists>e. full es' e))"
  using assms
proof (induction full ino p xs es f rule: readdir_loop.induct)
  case (1 full ino p es f)
  then show ?case by simp
next
  case (2 full ino p i t n rest es f)
  obtain m f1 where c: "child_ino ino p n f = (m, f1)" by fastforce
  let ?e = "(m, of_nat (i + 1) :: i64, t, n)"
  show ?case
  proof (cases "full es ?e")
    case True
    then show ?thesis using "2.prems" c by (intro exI[of _ "[]"] exI[of _ 0]) auto
  next
    case False
    then have "readdir_loop full ino p rest (es @ [?e]) f1 = (es', f')" using "2.prems" c by simp
    then obtain new k where new: "es' = (es @ [?e]) @ new" "k \<le> length rest"
        "map snd new = map (\<lambda>(i, t, n). (of_nat (i + 1), t, n)) (take k rest)"
        "k = length rest \<or> (\<exists>e. full es' e)"
      using "2.IH"[OF c[symmetric] refl False] by blast
    then show ?thesis by (intro exI[of _ "?e # new"] exI[of _ "Suc k"]) simp
  qed
qed

lemma readdir_piece:
  assumes p: "path_for f i = Some p" and l: "vfs_list V p w = (Ok entries, w1)"
    and r: "fuse_readdir V full i off (f, w) = (RDir es, f1, w')"
    and small: "length entries + 2 < 2 ^ 63"
  shows "names_of es = take (length es) (drop (unat off) (dir_listing entries))"
    and "es \<noteq> [] \<Longrightarrow> unat (last_cookie es) = unat off + length es"
    and "length es = length (drop (unat off) (dir_listing entries)) \<or> (\<exists>e. full es e)"
    and "\<exists>m \<le> length entries + 2. table_steps m f f1" and "w' = w1"
proof -
  let ?L = "dir_listing entries" and ?o = "unat off"
  have lp: "readdir_loop full i p (drop ?o (List.enumerate 0 ?L)) [] f = (es, f1)" and w: "w' = w1"
    using r p l by (auto simp: fuse_readdir_def split: prod.splits)
  obtain new k where n: "es = [] @ new" "k \<le> length (drop ?o (List.enumerate 0 ?L))"
      "map snd new = map (\<lambda>(i, t, n). (of_nat (i + 1), t, n)) (take k (drop ?o (List.enumerate 0 ?L)))"
      "k = length (drop ?o (List.enumerate 0 ?L)) \<or> (\<exists>e. full es e)"
    using readdir_loop_entries[OF lp] by (elim exE conjE) (rule that)
  have es: "es = new" using n(1) by simp
  have enum: "length (drop ?o (List.enumerate 0 ?L)) = length (drop ?o ?L)" by simp
  note k = n(2)[unfolded enum] n(3)[folded es] n(4)[unfolded enum]
  have len: "length es = k" using arg_cong[OF k(2), of length] k(1) by simp
  have "names_of es = map snd (map snd es)" by (simp add: names_of_def case_prod_beta)
  also have "\<dots> = take k (drop ?o ?L)"
    unfolding k(2) by (simp add: take_map drop_map[symmetric] map_snd_enumerate case_prod_beta comp_def
      flip: take_map)
  finally show "names_of es = take (length es) (drop ?o ?L)" using len by simp
  show "length es = length (drop ?o ?L) \<or> (\<exists>e. full es e)" using k(3) len by simp
  show "unat (last_cookie es) = ?o + length es" if "es \<noteq> []"
  proof -
    have "k \<noteq> 0" "es ! (k - 1) = last es" using that len by (auto simp: last_conv_nth)
    have "?o + k \<le> length ?L" using k(1) \<open>k \<noteq> 0\<close> by simp
    then have "snd (es ! (k - 1)) = (of_nat (?o + k), ?L ! (?o + k - 1))"
      using arg_cong[OF k(2), of "\<lambda>xs. xs ! (k - 1)"] len \<open>k \<noteq> 0\<close>
      by (simp add: nth_enumerate_eq case_prod_beta)
    moreover have "?o + k < 2 ^ 64" using \<open>?o + k \<le> length ?L\<close> small by (simp add: dir_listing_def)
    ultimately show ?thesis using len \<open>es ! (k - 1) = last es\<close>
      by (simp add: last_cookie_def unat_of_nat_u64 del: of_nat_add)
  qed
  have "length (drop ?o (List.enumerate 0 ?L)) \<le> length entries + 2" by (simp add: dir_listing_def)
  moreover obtain m where "m \<le> length (drop ?o (List.enumerate 0 ?L))" "table_steps m f f1"
    using readdir_loop_tables[of "drop ?o (List.enumerate 0 ?L)" f full i p "[]"] lp by auto
  ultimately show "\<exists>m \<le> length entries + 2. table_steps m f f1" by (meson le_trans)
  show "w' = w1" by (rule w)
qed

text \<open>C11: a directory read in pieces, each continuing at the cookie of the last entry, is the
  listing \<^verbatim>\<open>.\<close>, \<^verbatim>\<open>..\<close> and the host's entries in order, with none lost or repeated, however
  small the kernel's buffer, as long as the directory does not change in between.\<close>

theorem agent_readdir_pieces:
  assumes ok: "tables_ok n f" "n + length entries + 5 < 2 ^ 63"
    and p: "path_for f i = Some p" and l: "vfs_list V p w = (Ok entries, w)"
    and first: "fuse_readdir V full i off (f, w) = (RDir es, f1, w1)" "es \<noteq> []"
    and second: "fuse_readdir V full' i (last_cookie es) (f1, w1) = (RDir es2, f2, w2)"
  shows "names_of es @ names_of es2 =
      take (length es + length es2) (drop (unat off) (dir_listing entries)) \<and>
    (unat off + length es + length es2 = length (dir_listing entries) \<or> (\<exists>e. full' es2 e))"
proof -
  have small: "length entries + 2 < 2 ^ 63" using ok(2) by simp
  note a = readdir_piece[OF p l first(1) small]
  obtain m where m: "m \<le> length entries + 2" "table_steps m f f1" using a(4) by blast
  have p1: "path_for f1 i = Some p"
    using table_steps_ok[OF m(2) ok(1)] m(1) ok(2) path_for_mono[OF _ p] by auto
  note b = readdir_piece[OF p1 l second[unfolded a(5)] small]
  let ?L = "dir_listing entries"
  have "length es \<le> length (drop (unat off) ?L)"
    using arg_cong[OF a(1), of length] by (simp add: names_of_def)
  then have fits: "unat off + length es \<le> length ?L" using first(2) by (cases "unat off \<le> length ?L") auto
  have "names_of es2 = take (length es2) (drop (length es) (drop (unat off) ?L))"
    using b(1) a(2)[OF first(2)] by (simp add: add.commute)
  then have "names_of es @ names_of es2 = take (length es + length es2) (drop (unat off) ?L)"
    using a(1) by (simp add: take_add)
  moreover have "unat off + length es + length es2 = length ?L \<or> (\<exists>e. full' es2 e)"
    using b(3) a(2)[OF first(2)] fits by auto
  ultimately show ?thesis by blast
qed

text \<open>A buffer of one entry.\<close>

definition tight :: buffer where
  "tight = (\<lambda>es _. es \<noteq> [])"

theorem agent_readdir_pieces_witness:
  "\<exists>es2 f2 w2. fuse_readdir memory_vfs roomy 1 1 (tokimo_fuse_new, agent_mem) = (RDir es2, f2, w2) \<and>
     names_of [(1, 1, Directory, ''.'')] @ names_of es2 =
       [(Directory, ''.''), (Directory, ''..''), (RegularFile, ''f'')]"
proof -
  let ?ls = "[\<lparr>de_name = ''f'', de_kind = File\<rparr>]" and ?e = "[(1, 1, Directory, ''.'')] :: dir_reply"
  have mem: "vfs_list memory_vfs ''/'' agent_mem = (Ok ?ls, agent_mem)"
    by (simp add: memory_vfs_def mem_list_def agent_mem_def mem_entry_def str_or_empty_def string_bytes_def)
  have first: "fuse_readdir memory_vfs tight 1 0 (tokimo_fuse_new, agent_mem) =
      (RDir ?e, tokimo_fuse_new, agent_mem)"
    using mem by (simp add: fuse_readdir_def dir_listing_def child_ino_def tight_def)
  obtain es2 f2 where loop: "readdir_loop roomy 1 ''/'' (drop 1 (List.enumerate 0 (dir_listing ?ls))) []
      tokimo_fuse_new = (es2, f2)" by fastforce
  have cookie: "last_cookie ?e = 1" by (simp add: last_cookie_def)
  have second: "fuse_readdir memory_vfs roomy 1 (last_cookie ?e) (tokimo_fuse_new, agent_mem) = (RDir es2, f2, agent_mem)"
    using mem loop by (simp add: fuse_readdir_def cookie)
  have "\<not> (\<exists>e. roomy es2 e)" by (simp add: roomy_def)
  then have "names_of ?e @ names_of es2 = [(Directory, ''.''), (Directory, ''..''), (RegularFile, ''f'')]"
    using agent_readdir_pieces[OF tables_ok_new _ root_for mem first _ second]
    by (simp add: dir_listing_def)
  then show ?thesis using second cookie by auto
qed

text \<open>C28: a rename leaves the agent's table stale: the inode number and the handles the kernel
  holds for the renamed entry still lead to the old path, so a successful rename over
  \<^verbatim>\<open>MemoryVfs\<close> makes the open file answer \<^verbatim>\<open>ENOENT\<close> although it exists under its new name.\<close>

theorem agent_rename_stale:
  assumes "path_for f d = Some p" and "path_for f d' = Some p'"
    and "path_for f i = Some q" "fhs f h = Some q" "path_eq q (join p nm)"
    and "mem_get w (join p nm) = Some nd" and "\<not> path_eq (join p nm) (join p' nm')"
  shows "\<exists>w'. fuse_run memory_vfs full [FRename d nm d' nm', FGetattr i, FRead h off len] (f, w) =
      ([ROk, RError ENOENT, RError ENOENT], f, w') \<and> mem_get w' (join p' nm') = Some nd"
proof -
  let ?w = "mem_put (mem_del w (join p nm)) (join p' nm') nd"
  have "mem_get ?w q = None" using assms(5,7) by (simp add: path_eq_def)
  then show ?thesis using assms
    by (simp add: fuse_rename_def fuse_getattr_def stat_reply_def fuse_read_def memory_vfs_def
      mem_rename_def mem_stat_def mem_read_def)
qed

theorem agent_rename_stale_witness:
  "\<exists>w'. fuse_run memory_vfs roomy [FRename 1 ''f'' 1 ''g'', FGetattr 2, FRead 1 0 9]
     (tokimo_fuse_new\<lparr>inodes := [2 \<mapsto> ''/f''], rev_inodes := [[RootDir, Normal ''f''] \<mapsto> 2], next_ino := 3,
        fhs := [1 \<mapsto> ''/f''], next_fh := 2\<rparr>, agent_mem) =
     ([ROk, RError ENOENT, RError ENOENT],
      tokimo_fuse_new\<lparr>inodes := [2 \<mapsto> ''/f''], rev_inodes := [[RootDir, Normal ''f''] \<mapsto> 2], next_ino := 3,
        fhs := [1 \<mapsto> ''/f''], next_fh := 2\<rparr>, w')"
  (is "\<exists>w'. fuse_run _ _ _ (?f, _) = _")
proof -
  have "path_for ?f 2 = Some ''/f''" "fhs ?f 1 = Some ''/f''" by (simp_all add: path_for_def)
  moreover have "path_eq ''/f'' (join ''/'' ''f'')" "\<not> path_eq (join ''/'' ''f'') (join ''/'' ''g'')"
    by (simp_all add: path_eq_def)
  moreover have "mem_get agent_mem (join ''/'' ''f'') = Some (MFile [5])" by (simp add: agent_mem_def)
  ultimately show ?thesis
    using agent_rename_stale[OF root_for root_for, of ?f 2 "''/f''" 1 "''f''" agent_mem "MFile [5]" "''g''"]
    by blast
qed

lemma unat_mod_64 [simp]: "unat (a mod b :: u64) = unat a mod unat b"
  by (simp add: unat_mod_distrib)

lemma round_up_512: "(n + 511) div 512 = (if 0 < n mod 512 then n div 512 + 1 else n div (512 :: nat))"
proof -
  have "(n + 511) div 512 = n div 512 + (n mod 512 + 511) div 512"
    using div_add1_eq[of n 511 512] by simp
  moreover have "(n mod 512 + 511) div 512 = (if 0 < n mod 512 then 1 else 0)"
    by (cases "n mod 512 = 0") (auto intro!: div_nat_eqI simp: less_eq_Suc_le)
  ultimately show ?thesis by simp
qed

text \<open>C40: the attributes the kernel sees: the block count is the size in 512-byte blocks,
  rounded up and never wrapped, the permissions are the low twelve bits of the mode, the
  times of access, modification and change are the provider's unless they are before the
  epoch, which they then become, and the time of creation is that of the change.\<close>

theorem fuse_attr_exact:
  "unat (ua_blocks (to_fuse_attr ino a)) = (unat (fa_size a) + 511) div 512 \<and>
   unat (ua_perm (to_fuse_attr ino a)) = unat (fa_mode a) mod 4096 \<and>
   sint (ua_mtime (to_fuse_attr ino a)) = max 0 (sint (fa_mtime_secs a)) \<and>
   sint (ua_atime (to_fuse_attr ino a)) = max 0 (sint (fa_atime_secs a)) \<and>
   sint (ua_ctime (to_fuse_attr ino a)) = max 0 (sint (fa_ctime_secs a)) \<and>
   sint (ua_crtime (to_fuse_attr ino a)) = max 0 (sint (fa_ctime_secs a)) \<and>
   ua_ino (to_fuse_attr ino a) = ino \<and> ua_size (to_fuse_attr ino a) = fa_size a"
proof -
  let ?s = "fa_size a"
  have q: "unat (?s div 512) = unat ?s div 512" by (simp add: unat_div_distrib)
  have "unat (?s mod 512) = unat ?s mod 512" by simp
  then have r: "0 < ?s mod 512 \<longleftrightarrow> 0 < unat ?s mod 512" by (metis unat_gt_0 word_gt_0)
  have "unat ?s < 2 ^ 64" using unsigned_less[of ?s] by simp
  then have "unat ?s div 512 + 1 < 2 ^ 64" by simp
  then have "unat (?s div 512 + 1) = unat ?s div 512 + 1" using unat_Suc64[of "?s div 512"] q by simp
  then have "unat (div_ceil ?s 512) = (unat ?s + 511) div 512"
    using q r by (simp add: div_ceil_def Let_def round_up_512)
  moreover have "unat (ucast (fa_mode a AND 0xFFF) :: u16) = unat (fa_mode a) mod 4096"
  proof -
    have m: "fa_mode a AND 0xFFF = take_bit 12 (fa_mode a)"
      by (simp add: take_bit_eq_mask mask_eq_exp_minus_1)
    have "unat (fa_mode a AND 0xFFF) = take_bit 12 (unat (fa_mode a))"
      unfolding m by (rule unsigned_take_bit_eq)
    then have "unat (fa_mode a AND 0xFFF) = unat (fa_mode a) mod 4096"
      by (simp add: take_bit_eq_mod)
    then show ?thesis by (simp add: unsigned_ucast_eq take_bit_eq_mod)
  qed
  ultimately show ?thesis by (simp add: to_fuse_attr_def max0_def)
qed

text \<open>A file created through the agent over \<^verbatim>\<open>MemoryVfs\<close> and written in two consecutive
  chunks reads back, through the same handle, as the two chunks together.\<close>

theorem agent_write_then_read:
  assumes "fhs f h = Some p" and "mem_get m p = Some (MFile [])"
    and "length xs + length ys < 2 ^ 32"
  shows "\<exists>m'. fuse_run memory_vfs full
       [FWrite h 0 xs, FWrite h (of_nat (length xs)) ys, FRead h 0 (of_nat (length xs + length ys))] (f, m) =
     ([RWritten (of_nat (length xs)), RWritten (of_nat (length ys)), RData (xs @ ys)], f, m')"
proof -
  obtain m' m'' where w: "mem_write p 0 xs m = (Ok (of_nat (length xs)), m')"
      "mem_write p (of_nat (length xs)) ys m' = (Ok (of_nat (length ys)), m'')"
      "mem_read p 0 (of_nat (length xs + length ys)) m'' = (Ok (xs @ ys), m'')"
    using mem_chunks[OF assms(2,3)] by blast
  have "sint (of_nat (length xs) :: i64) = int (length xs)"
    using assms(3) by (simp add: signed_of_nat signed_take_bit_int_eq_self)
  then have "max0 (of_nat (length xs)) = of_nat (length xs)" "max0 0 = 0" by (simp_all add: max0_def)
  then show ?thesis using assms(1) w
    by (simp add: fuse_write_def fuse_read_def memory_vfs_def del: of_nat_add)
qed

theorem agent_write_then_read_witness:
  "\<exists>m'. fuse_run memory_vfs roomy [FWrite 1 0 [1, 2], FWrite 1 2 [3], FRead 1 0 3]
     (tokimo_fuse_new\<lparr>fhs := [1 \<mapsto> ''/f'']\<rparr>, mem_put agent_mem ''/f'' (MFile [])) =
     ([RWritten 2, RWritten 1, RData [1, 2, 3]], tokimo_fuse_new\<lparr>fhs := [1 \<mapsto> ''/f'']\<rparr>, m')"
proof -
  have "mem_get (mem_put agent_mem ''/f'' (MFile [])) ''/f'' = Some (MFile [])"
    by (simp only: mem_get_put path_eq_refl if_True)
  from agent_write_then_read[OF _ this, of "tokimo_fuse_new\<lparr>fhs := [1 \<mapsto> ''/f'']\<rparr>" 1 "[1, 2]" "[3]" roomy]
  show ?thesis by (simp del: fuse_run.simps)
qed

end
