(* ===== verification/End_To_End.thy ===== *)
theory End_To_End
  imports Host_Share Rpc_Props Agent_Props
begin

text \<open>
  The parts together: the agent in the guest, the RPC, the server and the provider on the
  host. A mount in the guest behaves as the provider itself would behind the same FUSE
  handlers; a shared host directory stays confined against a guest that sends any bytes
  at all.
\<close>

section \<open>Properties\<close>

text \<open>C2: a mount over the RPC is the mount over the provider itself: any sequence of kernel
  requests gets the same replies, leaves the agent with the same tables and the provider
  in the same state, provided each message on the way fits a frame.\<close>

theorem agent_over_rpc:
  assumes "run_carried (carries c V) V full ops (f, s)"
  shows "fuse_run (client_vfs (rpc_call c V)) full ops (f, insync s) =
    apsnd (apsnd insync) (fuse_run V full ops (f, s))"
  by (rule vfs_transport.fuse_run_client[OF frames.vfs_transport_axioms assms])

theorem agent_over_rpc_witness:
  "fuse_run (client_vfs (rpc_call sample_codec memory_vfs)) roomy [FWrite 1 1 [6, 7], FRead 1 0 9]
     (tokimo_fuse_new\<lparr>fhs := [1 \<mapsto> ''/f'']\<rparr>, insync sample_mem) =
   ([RWritten 2, RData [5, 6, 7]], tokimo_fuse_new\<lparr>fhs := [1 \<mapsto> ''/f'']\<rparr>, insync sample_mem')"
proof -
  let ?f = "tokimo_fuse_new\<lparr>fhs := [1 \<mapsto> ''/f'']\<rparr>"
  have run: "fuse_run memory_vfs roomy [FWrite 1 1 [6, 7], FRead 1 0 9] (?f, sample_mem) =
      ([RWritten 2, RData [5, 6, 7]], ?f, sample_mem')"
    by (simp add: fuse_write_def fuse_read_def max0_def sample_write sample_read)
  have "run_carried (carries sample_codec memory_vfs) memory_vfs roomy
      [FWrite 1 1 [6, 7], FRead 1 0 9] (?f, sample_mem)"
    by (simp add: fuse_write_def max0_def sample_write sample_read carries_def fits_frame_def
      sample_codec_def sample_chars max_frame_def)
  from agent_over_rpc[OF this] show ?thesis unfolding run by simp
qed

text \<open>C1: the server of a shared host directory is confined whatever bytes the guest sends,
  well formed or not, and wherever the stream breaks: for a canonical root with no
  symbolic links below it, every entry not strictly below the root stays as it was.\<close>

theorem guest_bytes_confined:
  assumes "jail h r os" and "serve c (host_fs_vfs h) closed bs os w = (running, rest, os', w')"
    and "\<not> below r k"
  shows "node_at os' k = node_at os k \<and> jail h r os'"
proof -
  obtain rs where rs: "os' = snd (run_requests (host_fs_vfs h) rs os)"
    using serve_requests[OF assms(2)] by blast
  have st: "host_steps (below r) os os'" using run_requests_steps[OF assms(1)] rs by simp
  have "os_wf os" using assms(1) by (simp add: jail_def)
  then show ?thesis using host_steps_outside[OF st _ assms(3)] jail_steps[OF assms(1) st] by blast
qed

theorem guest_bytes_confined_witness:
  "node_at (fst (snd (snd (serve sample_codec (host_fs_vfs sample_fs) True
      (frame_bytes [2, 0, 1, 47, 0, 255, 255] @ [1, 2, 3]) jail_os idle)))) [''etc'', ''passwd''] =
     Some (NFile sample_meta [9, 9])"
proof -
  obtain a b os' w where s: "serve sample_codec (host_fs_vfs sample_fs) True
      (frame_bytes [2, 0, 1, 47, 0, 255, 255] @ [1, 2, 3]) jail_os idle = (a, b, os', w)"
    by (metis prod_cases4)
  have "\<not> below [''srv'', ''box''] [''etc'', ''passwd'']" by simp
  moreover have "node_at jail_os [''etc'', ''passwd''] = Some (NFile sample_meta [9, 9])"
    by (simp add: jail_os_def sample_os_def node_at_def)
  ultimately show ?thesis using guest_bytes_confined[OF sample_jail s] s by simp
qed

text \<open>A read-only share is read-only end to end: no kernel request in the guest, through
  the agent, changes the host.\<close>

theorem agent_readonly_mount:
  "snd (snd (fuse_run (host_fs_vfs (host_fs_new root True)) full ops (f, os))) = os"
proof -
  obtain rs where "snd (snd (fuse_run (host_fs_vfs (host_fs_new root True)) full ops (f, os))) =
      snd (run_requests (host_fs_vfs (host_fs_new root True)) rs os)"
    using fuse_run_world[of "host_fs_vfs (host_fs_new root True)" full ops f os] by (elim exE) (rule that)
  then show ?thesis
    by (simp only: readonly_provider.run_requests_ro[OF hostfs_ro.readonly_provider_axioms])
qed

end
