(* ===== verification/Agent_Boot.thy ===== *)
theory Agent_Boot
  imports End_To_End Rust_Text
begin

text \<open>
  How the guest agent comes up: finding the virtio-serial port (\<^verbatim>\<open>resolve_virtio_port\<close> and
  \<^verbatim>\<open>connect_port\<close> in \<^verbatim>\<open>client.rs\<close>) and \<^verbatim>\<open>run\<close> of the agent, from its arguments to the mounted
  file system. The devices of the guest at each attempt, the clock and the opening of a
  device are parameters; a wait is bounded by the clock.
\<close>

section \<open>Finding the port\<close>

record guest_devs =
  gd_exists :: "path \<Rightarrow> bool"
  gd_scan :: "((name \<times> (string, string) result) option list, string) result"
    \<comment> \<open>the entries of \<^verbatim>\<open>/sys/class/virtio-ports\<close>, each with the contents of its \<^verbatim>\<open>name\<close> file\<close>

definition sys_ports :: path where
  "sys_ports = ''/sys/class/virtio-ports''"

text \<open>Entry names are UTF-8; the kernel makes them of ASCII.\<close>

definition dev_path :: "name \<Rightarrow> path" where
  "dev_path n = ''/dev/'' @ n"

fun scan_ports :: "(path \<Rightarrow> bool) \<Rightarrow> string \<Rightarrow> (name \<times> (string, string) result) option list \<Rightarrow> path option" where
  "scan_ports ex port [] = None"
| "scan_ports ex port (None # es) = scan_ports ex port es"
| "scan_ports ex port (Some (n, Err e) # es) = scan_ports ex port es"
| "scan_ports ex port (Some (n, Ok contents) # es) =
     (if trim (points contents) = points port \<and> ex (dev_path n) then Some (dev_path n)
      else scan_ports ex port es)"

definition resolve_virtio_port :: "guest_devs \<Rightarrow> string \<Rightarrow> (path option, anyhow) result" where
  "resolve_virtio_port d port =
     (if prefix ''/'' port then Ok (if gd_exists d port then Some port else None)
      else
        let by_name = ''/dev/virtio-ports/'' @ port
        in if gd_exists d by_name then Ok (Some by_name)
           else if \<not> gd_exists d sys_ports then Ok None
           else (case gd_scan d of
                   Err e \<Rightarrow> Err e
                 | Ok es \<Rightarrow> Ok (scan_ports (gd_exists d) port es)))"

text \<open>
  The loop of \<^verbatim>\<open>connect_port\<close>: attempt \<open>k\<close> sees the devices \<open>devs k\<close>, and \<open>clock k\<close>
  milliseconds have passed when it checks the deadline. \<open>None\<close>: out of fuel.
\<close>

definition connect_deadline :: nat where
  "connect_deadline = 30000"

fun wait_port :: "nat \<Rightarrow> (nat \<Rightarrow> guest_devs) \<Rightarrow> (nat \<Rightarrow> nat) \<Rightarrow> string \<Rightarrow> nat \<Rightarrow> (path, anyhow) result option" where
  "wait_port 0 devs clock port k = None"
| "wait_port (Suc fuel) devs clock port k =
     (case resolve_virtio_port (devs k) port of
        Err e \<Rightarrow> Some (Err e)
      | Ok (Some p) \<Rightarrow> Some (Ok p)
      | Ok None \<Rightarrow>
          if connect_deadline \<le> clock k then Some (Err (''virtio-serial port '' @ port @ '' never appeared''))
          else wait_port fuel devs clock port (k + 1))"


section \<open>\<^verbatim>\<open>run\<close>\<close>

record agent_args =
  aa_port_name :: "string option"
  aa_stdio :: bool
  aa_mount :: path
  aa_tag :: string

record 'w agent_mount =
  am_fuse :: tokimo_fuse
  am_conn :: 'w
  am_point :: path
  am_fsname :: string
  am_allow_other :: bool

text \<open>
  The connection comes from the standard streams (\<open>stdio\<close>) or from opening the port found
  (\<open>dial\<close>, which waits for the port and opens it); then the handshake, then the mount.
\<close>

definition agent_run ::
    "'w caller \<Rightarrow> 'w \<Rightarrow> (string \<Rightarrow> ('w, anyhow) result option) \<Rightarrow> agent_args \<Rightarrow> ('w agent_mount, anyhow) result option"
where
  "agent_run C stdio dial args =
     (let conn = (if aa_stdio args then Some (Ok stdio)
                  else case aa_port_name args of
                         None \<Rightarrow> Some (Err ''either --port-name or --stdio is required'')
                       | Some port \<Rightarrow> dial port)
      in case conn of
           None \<Rightarrow> None
         | Some (Err e) \<Rightarrow> Some (Err e)
         | Some (Ok w) \<Rightarrow>
             (case client_hello C w of
                (Err e, _) \<Rightarrow> Some (Err e)
              | (Ok _, w1) \<Rightarrow>
                  Some (Ok \<lparr>am_fuse = tokimo_fuse_new, am_conn = w1, am_point = aa_mount args,
                            am_fsname = ''tokimo-'' @ aa_tag args, am_allow_other = True\<rparr>)))"

definition dial_port ::
    "(nat \<Rightarrow> guest_devs) \<Rightarrow> (nat \<Rightarrow> nat) \<Rightarrow> (path \<Rightarrow> ('w, anyhow) result) \<Rightarrow> nat \<Rightarrow> string \<Rightarrow> ('w, anyhow) result option"
where
  "dial_port devs clock opens fuel port =
     (case wait_port fuel devs clock port 0 of
        None \<Rightarrow> None
      | Some (Err e) \<Rightarrow> Some (Err e)
      | Some (Ok p) \<Rightarrow> Some (opens p))"


text \<open>
  The program: \<^verbatim>\<open>run\<close> parses the arguments (\<^verbatim>\<open>clap\<close>, a parameter, which ends the process with
  status 2 when they are not accepted); built for another system than Linux, \<^verbatim>\<open>main\<close> exits at once.
\<close>

datatype 'w agent_process =
    Exited nat
  | Ran "('w agent_mount, anyhow) result option"

definition run_argv ::
    "(string list \<Rightarrow> agent_args option) \<Rightarrow> 'w caller \<Rightarrow> 'w \<Rightarrow> (string \<Rightarrow> ('w, anyhow) result option) \<Rightarrow> string list \<Rightarrow> 'w agent_process"
where
  "run_argv parse C stdio dial argv =
     (case parse argv of
        None \<Rightarrow> Exited 2
      | Some args \<Rightarrow> Ran (agent_run C stdio dial args))"

definition agent_main ::
    "bool \<Rightarrow> (string list \<Rightarrow> agent_args option) \<Rightarrow> 'w caller \<Rightarrow> 'w \<Rightarrow> (string \<Rightarrow> ('w, anyhow) result option) \<Rightarrow> string list \<Rightarrow>
     'w agent_process"
where
  "agent_main on_linux parse C stdio dial argv =
     (if on_linux then run_argv parse C stdio dial argv else Exited 1)"


section \<open>The port found\<close>

lemma scan_ports_Some:
  "scan_ports ex port es = Some p \<Longrightarrow>
     \<exists>n contents. Some (n, Ok contents) \<in> set es \<and> p = dev_path n \<and> trim (points contents) = points port \<and> ex p"
  by (induction ex port es rule: scan_ports.induct) (auto split: if_splits)

text \<open>A path with the port's name: given as such, linked under it, or named so by the kernel.\<close>

definition names_port :: "guest_devs \<Rightarrow> string \<Rightarrow> path \<Rightarrow> bool" where
  "names_port d port p \<longleftrightarrow> gd_exists d p \<and>
     (p = port \<or> p = ''/dev/virtio-ports/'' @ port \<or>
      (\<exists>es n contents. gd_scan d = Ok es \<and> Some (n, Ok contents) \<in> set es \<and> p = dev_path n \<and>
         trim (points contents) = points port))"

lemma resolve_names: "resolve_virtio_port d port = Ok (Some p) \<Longrightarrow> names_port d port p"
  unfolding resolve_virtio_port_def names_port_def
  by (auto simp: Let_def split: if_splits result.splits dest!: scan_ports_Some)

text \<open>An attempt before \<open>n\<close> that saw nothing, in time.\<close>

definition still_waiting :: "(nat \<Rightarrow> guest_devs) \<Rightarrow> (nat \<Rightarrow> nat) \<Rightarrow> string \<Rightarrow> nat \<Rightarrow> bool" where
  "still_waiting devs clock port j \<longleftrightarrow>
     resolve_virtio_port (devs j) port = Ok None \<and> clock j < connect_deadline"

lemma wait_port_result:
  assumes "\<forall>j. 200 * j \<le> clock j" and "150 < k + fuel" and "k \<le> 150"
  shows "\<exists>r n. wait_port fuel devs clock port k = Some r \<and> (\<forall>j. k \<le> j \<longrightarrow> j < n \<longrightarrow> still_waiting devs clock port j) \<and>
    (k \<le> n) \<and>
    (case r of
       Ok p \<Rightarrow> resolve_virtio_port (devs n) port = Ok (Some p)
     | Err e \<Rightarrow> resolve_virtio_port (devs n) port = Err e \<or>
         resolve_virtio_port (devs n) port = Ok None \<and> connect_deadline \<le> clock n)"
  using assms(2,3)
proof (induction fuel arbitrary: k)
  case 0
  then show ?case by simp
next
  case (Suc fuel)
  show ?case
  proof (cases "still_waiting devs clock port k")
    case True
    have "k < 150"
      using True spec[OF assms(1), of k] by (simp add: still_waiting_def connect_deadline_def)
    then obtain r n where ind: "wait_port fuel devs clock port (k + 1) = Some r"
        "\<forall>j. k + 1 \<le> j \<longrightarrow> j < n \<longrightarrow> still_waiting devs clock port j" "k + 1 \<le> n"
        "case r of
           Ok p \<Rightarrow> resolve_virtio_port (devs n) port = Ok (Some p)
         | Err e \<Rightarrow> resolve_virtio_port (devs n) port = Err e \<or>
             resolve_virtio_port (devs n) port = Ok None \<and> connect_deadline \<le> clock n"
      using Suc.IH[of "k + 1"] Suc.prems by auto
    have "\<forall>j. k \<le> j \<longrightarrow> j < n \<longrightarrow> still_waiting devs clock port j"
      using ind(2) True by (metis Suc_eq_plus1 le_neq_implies_less less_eq_Suc_le)
    moreover have "wait_port (Suc fuel) devs clock port k = Some r"
      using True ind(1) by (simp add: still_waiting_def not_le[symmetric])
    ultimately show ?thesis using ind(3,4) by (intro exI[of _ r] exI[of _ n]) simp
  next
    case False
    then show ?thesis
      by (intro exI[of _ "the (wait_port (Suc fuel) devs clock port k)"] exI[of _ k])
        (auto simp: still_waiting_def split: result.splits option.splits)
  qed
qed



section \<open>Properties\<close>

text \<open>C27: waiting for a port ends: when an attempt takes at least its 200 milliseconds of sleep,
  151 attempts are enough, and the outcome is that of the first attempt that found a device
  of the name, failed, or came after the deadline.\<close>

theorem connect_port_finds:
  assumes "\<forall>j. 200 * j \<le> clock j"
  shows "\<exists>r n. wait_port 151 devs clock port 0 = Some r \<and> (\<forall>j < n. still_waiting devs clock port j) \<and>
    (case r of
       Ok p \<Rightarrow> names_port (devs n) port p
     | Err e \<Rightarrow> resolve_virtio_port (devs n) port = Err e \<or>
         resolve_virtio_port (devs n) port = Ok None \<and> connect_deadline \<le> clock n)"
proof -
  obtain r n where "wait_port 151 devs clock port 0 = Some r" "\<forall>j. 0 \<le> j \<longrightarrow> j < n \<longrightarrow> still_waiting devs clock port j"
      "case r of
       Ok p \<Rightarrow> resolve_virtio_port (devs n) port = Ok (Some p)
     | Err e \<Rightarrow> resolve_virtio_port (devs n) port = Err e \<or>
         resolve_virtio_port (devs n) port = Ok None \<and> connect_deadline \<le> clock n"
    using wait_port_result[OF assms, of 0 151 devs port] by auto
  then show ?thesis
    by (intro exI[of _ r] exI[of _ n]) (auto dest: resolve_names split: result.splits)
qed

text \<open>The kernel names the device at the third attempt; there is no link.\<close>

definition sample_devs :: "nat \<Rightarrow> guest_devs" where
  "sample_devs k =
     \<lparr>gd_exists = (\<lambda>p. p \<in> {''/dev/vport0p1'', ''/dev/vport0p2'', sys_ports}),
      gd_scan = (if k < 2 then Ok [None]
                 else Ok [None, Some (''vport0p1'', Err ''gone''), Some (''vport0p2'', Ok ''tokimo.rpc.h\<newline>'')])\<rparr>"

theorem connect_port_finds_witness:
  "\<exists>r. wait_port 151 sample_devs (\<lambda>k. 200 * k + 1) ''tokimo.rpc.h'' 0 = Some r"
proof -
  have "\<forall>j. 200 * j \<le> 200 * j + (1::nat)" by simp
  from connect_port_finds[OF this, of sample_devs "''tokimo.rpc.h''"] show ?thesis by blast
qed

text \<open>The agent comes up over a live connection and serves: started on its standard streams
  with a server of any provider at the other end, it passes the handshake, mounts at the
  configured point, and any kernel requests then get the provider's own replies; without
  a transport it refuses to start.\<close>

theorem agent_boot:
  assumes "carries c V (ReqHello protocol_version) s"
    and "run_carried (carries c V) V full ops (tokimo_fuse_new, s)"
  shows "(\<exists>m. agent_run (rpc_call c V) (insync s) dial \<lparr>aa_port_name = port, aa_stdio = True, aa_mount = mp, aa_tag = tag\<rparr> =
       Some (Ok m) \<and> am_point m = mp \<and> am_fsname m = ''tokimo-'' @ tag \<and>
       fuse_run (client_vfs (rpc_call c V)) full ops (am_fuse m, am_conn m) =
         apsnd (apsnd insync) (fuse_run V full ops (tokimo_fuse_new, s))) \<and>
    agent_run (rpc_call c V) k dial \<lparr>aa_port_name = None, aa_stdio = False, aa_mount = mp, aa_tag = tag\<rparr> =
      Some (Err ''either --port-name or --stdio is required'')"
proof -
  have "client_hello (rpc_call c V) (insync s) = (Ok (), insync s)" by (rule frames.hello[OF assms(1)])
  then show ?thesis
    using vfs_transport.fuse_run_client[OF frames.vfs_transport_axioms assms(2)]
    by (simp add: agent_run_def Let_def)
qed

text \<open>A codec that also knows the handshake.\<close>

definition boot_codec :: codec where
  "boot_codec = sample_codec\<lparr>
     enc_req := (\<lambda>r. case r of ReqHello v \<Rightarrow> Ok [9, ucast v] | _ \<Rightarrow> sample_enc_req r),
     dec_req := (\<lambda>b. if take 1 b = [9] then Ok (ReqHello (ucast (last b))) else sample_dec_req b),
     enc_resp := (\<lambda>r. case r of RespHello v \<Rightarrow> Ok [9, ucast v] | _ \<Rightarrow> sample_enc_resp r),
     dec_resp := (\<lambda>b. if take 1 b = [9] then Ok (RespHello (ucast (last b))) else sample_dec_resp b)\<rparr>"

theorem agent_boot_witness:
  "\<exists>m. agent_run (rpc_call boot_codec memory_vfs) (insync sample_mem) (\<lambda>_. None)
       \<lparr>aa_port_name = None, aa_stdio = True, aa_mount = ''/mnt/mem'', aa_tag = ''mem''\<rparr> = Some (Ok m) \<and>
     fst (fuse_run (client_vfs (rpc_call boot_codec memory_vfs)) roomy [FGetattr 7, FRead 1 0 9]
       (am_fuse m, am_conn m)) = [RError ENOENT, RError EBADF]"
proof -
  have hello: "carries boot_codec memory_vfs (ReqHello protocol_version) sample_mem"
    by (simp add: carries_def fits_frame_def boot_codec_def max_frame_def protocol_version_def)
  have ops: "run_carried (carries boot_codec memory_vfs) memory_vfs roomy [FGetattr 7, FRead 1 0 9]
      (tokimo_fuse_new, sample_mem)"
    by (simp add: fuse_getattr_def path_for_def tokimo_fuse_new_def)
  have run: "fst (fuse_run memory_vfs roomy [FGetattr 7, FRead 1 0 9] (tokimo_fuse_new, sample_mem)) =
      [RError ENOENT, RError EBADF]"
    by (simp add: fuse_getattr_def fuse_read_def path_for_def tokimo_fuse_new_def)
  obtain m where "agent_run (rpc_call boot_codec memory_vfs) (insync sample_mem) (\<lambda>_. None)
      \<lparr>aa_port_name = None, aa_stdio = True, aa_mount = ''/mnt/mem'', aa_tag = ''mem''\<rparr> = Some (Ok m)"
    "fuse_run (client_vfs (rpc_call boot_codec memory_vfs)) roomy [FGetattr 7, FRead 1 0 9] (am_fuse m, am_conn m) =
       apsnd (apsnd insync) (fuse_run memory_vfs roomy [FGetattr 7, FRead 1 0 9] (tokimo_fuse_new, sample_mem))"
    using agent_boot[OF hello ops, of "\<lambda>_. None" None "''/mnt/mem''" "''mem''"] by blast
  then show ?thesis using run by (intro exI[of _ m]) (simp del: fuse_run.simps)
qed

end
