(* ===== verification/Linux_Mount.thy ===== *)
theory Linux_Mount
  imports Linux_Props Agent_Boot
begin

text \<open>
  A mount of the Linux backend from one end to the other: what \<^verbatim>\<open>start\<close> set up on the host,
  the agents that the guest's init launches from the kernel command line
  (\<^verbatim>\<open>scripts/image/build.sh\<close>), the port an agent finds, and the provider it then talks to.
  QEMU and the guest kernel are in between: which socket of the host a device of the
  guest is attached to is a parameter.
\<close>

section \<open>Both ends\<close>

text \<open>The agents the init starts, one for each pair of the mounts argument.\<close>

definition agent_for :: "string \<times> string \<Rightarrow> agent_args" where
  "agent_for m =
     (let (tag, mpath) = m
      in \<lparr>aa_port_name = Some (''tokimo.rpc.'' @ tag), aa_stdio = False, aa_mount = mpath, aa_tag = tag\<rparr>)"

definition guest_agents :: "string \<Rightarrow> agent_args list" where
  "guest_agents line = map agent_for (guest_mounts line)"

text \<open>
  Connecting to a Unix socket reaches the listener bound to its path last. The accept task
  gives every connection a server of its own on the provider.
\<close>

definition listening :: "'v linux_world \<Rightarrow> path \<Rightarrow> 'v served option" where
  "listening w sock = map_of (rev (map snd (lw_listeners w))) sock"

definition accept_conn :: "'v linux_world \<Rightarrow> 's \<Rightarrow> path \<Rightarrow> ('v served \<times> 's conn) option" where
  "accept_conn w s sock = map_option (\<lambda>prov. (prov, insync s)) (listening w sock)"

text \<open>
  Opening a port device in the guest gives the connection of the socket it is attached to: the
  provider that was accepted there, and its stream. A call goes to that provider's server.
\<close>

definition open_port ::
    "'v linux_world \<Rightarrow> 's \<Rightarrow> (path \<Rightarrow> path option) \<Rightarrow> path \<Rightarrow> ('v served \<times> 's conn, anyhow) result" where
  "open_port w s wire dev =
     (case Option.bind (wire dev) (accept_conn w s) of
        None \<Rightarrow> Err ''no such device''
      | Some k \<Rightarrow> Ok k)"

definition served_call :: "codec \<Rightarrow> ('v served \<Rightarrow> 's tokimo_vfs) \<Rightarrow> ('v served \<times> 's conn) caller" where
  "served_call c vfs_of req = (\<lambda>(prov, k). apsnd (Pair prov) (rpc_call c (vfs_of prov) req k))"

interpretation accepted: vfs_transport "served_call c vfs_of" "vfs_of prov" "\<lambda>s. (prov, insync s)" "carries c (vfs_of prov)"
  for c vfs_of prov
  by unfold_locales (simp add: served_call_def frames.exchange)

text \<open>
  QEMU documents that a \<^verbatim>\<open>virtserialport\<close> appears in the guest as a port of its \<^verbatim>\<open>name\<close>,
  attached to the \<^verbatim>\<open>chardev\<close> it is given, here the socket of a server of the sandbox.
\<close>

definition server_port :: "string \<Rightarrow> vfs_server \<Rightarrow> serial_port" where
  "server_port chardev v =
     \<lparr>sp_chardev_id = chardev, sp_port_name = ''tokimo.rpc.'' @ vs_tag v, sp_socket_path = vs_socket_path v\<rparr>"

definition qemu_attaches :: "string list \<Rightarrow> vfs_server list \<Rightarrow> (nat \<Rightarrow> guest_devs) \<Rightarrow> (path \<Rightarrow> path option) \<Rightarrow> bool" where
  "qemu_attaches args vs devs wire \<longleftrightarrow>
     (\<forall>chardev n dev. \<forall>v \<in> set vs. passes args (port_args (server_port chardev v)) \<longrightarrow>
        names_port (devs n) (''tokimo.rpc.'' @ vs_tag v) dev \<longrightarrow> wire dev = Some (vs_socket_path v))"


section \<open>Sockets are distinct\<close>

lemma show_nat_inj: "show_nat m = show_nat n \<Longrightarrow> m = n"
proof (induction m arbitrary: n rule: show_nat.induct)
  case (1 m)
  have digit: "char_of (48 + a) = (char_of (48 + b) :: char) \<Longrightarrow> a < 10 \<Longrightarrow> b < 10 \<Longrightarrow> a = b" for a b :: nat
    by (simp add: char_of_eq_iff take_bit_eq_mod)
  show ?case
  proof (cases "m < 10"; cases "n < 10")
    assume "m < 10" "n < 10"
    then show ?thesis using 1(2) digit[of m n] by (simp add: show_nat.simps[of m] show_nat.simps[of n])
  next
    assume "\<not> m < 10" "\<not> n < 10"
    then have "show_nat (m div 10) = show_nat (n div 10)" and "m mod 10 = n mod 10"
      using 1(2) digit[of "m mod 10" "n mod 10"] by (simp_all add: show_nat.simps[of m] show_nat.simps[of n])
    then show ?thesis using "1.IH"[OF \<open>\<not> m < 10\<close>] by (metis div_mult_mod_eq)
  next
    assume "m < 10" "\<not> n < 10"
    then show ?thesis using 1(2) show_nat_nonempty[of "n div 10", symmetric] by (simp add: show_nat.simps[of m] show_nat.simps[of n])
  next
    assume "\<not> m < 10" "n < 10"
    then show ?thesis using 1(2) by (simp add: show_nat.simps[of m] show_nat.simps[of n])
  qed
qed

lemma rpc_socket_inj: "rpc_socket root i = rpc_socket root j \<longleftrightarrow> i = j"
  using show_nat_inj by (auto simp: rpc_socket_def path_join_def has_root_def)

lemma map_of_rev_distinct:
  "distinct (map fst ys) \<Longrightarrow> (a, b) \<in> set ys \<Longrightarrow> map_of (rev (xs @ ys)) a = Some b"
  by (simp add: rev_map[symmetric] map_add_Some_iff)

lemma listening_at:
  assumes "map snd (lw_listeners w) = before @
      map2 (\<lambda>j m. (rpc_socket root j, mount_provider m)) [0..<length ms] ms"
    and "i < length ms"
  shows "listening w (rpc_socket root i) = Some (mount_provider (ms ! i))"
proof -
  let ?new = "map2 (\<lambda>j m. (rpc_socket root j, mount_provider m)) [0..<length ms] ms"
  have "distinct (map fst ?new)"
    by (auto simp: distinct_conv_nth rpc_socket_inj)
  moreover have "(rpc_socket root i, mount_provider (ms ! i)) \<in> set ?new"
    using map2_upt_nth[OF assms(2), of "\<lambda>j m. (rpc_socket root j, mount_provider m)"] by simp
  ultimately show ?thesis unfolding listening_def assms(1) by (rule map_of_rev_distinct)
qed

text \<open>A wait that found a device found one of the name.\<close>

lemma wait_port_names:
  "wait_port fuel devs clock port k = Some (Ok dev) \<Longrightarrow> \<exists>n. names_port (devs n) port dev"
proof (induction fuel arbitrary: k)
  case (Suc fuel)
  then show ?case
    by (auto split: result.splits option.splits if_splits dest: resolve_names)
qed simp



section \<open>What a start leaves for each mount\<close>

lemma bind_mounts_servers:
  assumes "bind_mounts root i ms acc (s, w) = (Ok acc', s', w')"
  shows "map (\<lambda>v. (vs_tag v, vs_socket_path v)) (qx_servers s') =
    map (\<lambda>v. (vs_tag v, vs_socket_path v)) (qx_servers s) @
    map2 (\<lambda>j m. (ms_tag m, rpc_socket root j)) [i..<i + length ms] ms"
  using assms
proof (induction ms arbitrary: i acc s w)
  case Nil
  then show ?case by (cases acc) simp
next
  case (Cons m ms)
  obtain ports mounts ids where acc: "acc = (ports, mounts, ids)" by (metis prod_cases3)
  have up: "[i..<i + length (m # ms)] = i # [i + 1..<i + 1 + length ms]" by (simp add: upt_rec)
  show ?case using Cons.prems Cons.IH unfolding acc up
    by (auto simp: Let_def split: option.splits)
qed

text \<open>Everything a start has set up for a mount.\<close>

definition mount_ready :: "path \<Rightarrow> 'v qemu_sandbox \<Rightarrow> 'v linux_world \<Rightarrow> string list \<Rightarrow> nat \<Rightarrow> 'v mount_spec \<Rightarrow> bool" where
  "mount_ready root s w args i m \<longleftrightarrow>
     (ms_tag m, rpc_socket root i) \<in> set (map (\<lambda>v. (vs_tag v, vs_socket_path v)) (qx_servers s)) \<and>
     passes args (port_args (port_for root i m)) \<and>
     listening w (rpc_socket root i) = Some (mount_provider m)"

lemma linux_start_mounts:
  assumes start: "linux_start js (s, w) = (Done (Ok u), s', w')"
    and extra: "list_all no_mount_words (sc_extra_cmdline (qx_config s))"
    and plain: "list_all plain_mount (map (\<lambda>m. (ms_tag m, ms_guest_path m)) (sc_mounts (qx_config s)))"
  obtains pid and cmd :: qemu_command and root line where
    "qx_child s' = Some pid" "(pid, cmd) \<in> set (lw_procs w')" "passes (qc_args cmd) [''-append'', line]"
    "guest_mounts line = map (\<lambda>m. (ms_tag m, ms_guest_path m)) (sc_mounts (qx_config s))"
    "\<forall>i < length (sc_mounts (qx_config s)). mount_ready root s' w' (qc_args cmd) i (sc_mounts (qx_config s) ! i)"
    "map (\<lambda>v. (vs_tag v, vs_socket_path v)) (qx_servers s') =
       map (\<lambda>v. (vs_tag v, vs_socket_path v)) (qx_servers s) @
       map2 (\<lambda>j m. (ms_tag m, rpc_socket root j)) [0..<length (sc_mounts (qx_config s))] (sc_mounts (qx_config s))"
proof -
  let ?ms = "sc_mounts (qx_config s)"
  obtain rt im ports mounts ids s1 w1 s2 w2 s3 where
    b: "bind_mounts (rt_root rt) 0 ?ms ([], [], []) (s1, w1) = (Ok (ports, mounts, ids), s2, w2)"
    and l: "launch js (linux_spec s2 rt im ports mounts) (s2, w2) = (Done (Ok u), s3, w')"
    and s': "s' = s3\<lparr>qx_mount_ids := ids, qx_state := Running\<rparr>" and conf: "qx_config s2 = qx_config s"
    and old: "qx_servers s1 = qx_servers s"
    by (rule linux_start_ok[OF start])
  let ?spec = "linux_spec s2 rt im ports mounts" and ?root = "rt_root rt"
  obtain pid and cmd :: qemu_command where
    p: "qx_child s3 = Some pid" "(pid, cmd) \<in> set (lw_procs w')" "qc_args cmd = qemu_args ?spec"
    using launch_ok[OF l] by blast
  have bound: "ports = map2 (port_for ?root) [0..<length ?ms] ?ms"
      "mounts = map (\<lambda>m. (ms_tag m, ms_guest_path m)) ?ms"
      "map snd (lw_listeners w2) = map snd (lw_listeners w1) @
        map2 (\<lambda>j m. (rpc_socket ?root j, mount_provider m)) [0..<length ?ms] ?ms"
    using bind_mounts_ok[OF b] by simp_all
  have same: "lw_listeners w' = lw_listeners w2" "qx_servers s' = qx_servers s2"
    using launch_effect[OF l] s' by simp_all
  have servers: "map (\<lambda>v. (vs_tag v, vs_socket_path v)) (qx_servers s') =
       map (\<lambda>v. (vs_tag v, vs_socket_path v)) (qx_servers s) @
       map2 (\<lambda>j m. (ms_tag m, rpc_socket ?root j)) [0..<length ?ms] ?ms"
    using bind_mounts_servers[OF b] same(2) old by simp
  have "mount_ready ?root s' w' (qc_args cmd) i (?ms ! i)" if "i < length ?ms" for i
  proof -
    have "port_for ?root i (?ms ! i) \<in> set (qs_serial_ports ?spec)"
      using map2_upt_nth[OF that] bound(1) by (simp add: linux_spec_def)
    then have "passes (qc_args cmd) (port_args (port_for ?root i (?ms ! i)))"
      using passes_port p(3) by simp
    moreover have "listening w' (rpc_socket ?root i) = Some (mount_provider (?ms ! i))"
      using listening_at[of w'] bound(3) that same(1) by simp
    moreover have "(ms_tag (?ms ! i), rpc_socket ?root i) \<in> set (map (\<lambda>v. (vs_tag v, vs_socket_path v)) (qx_servers s'))"
      unfolding servers using map2_upt_nth[OF that, of "\<lambda>j m. (ms_tag m, rpc_socket ?root j)"] by simp
    ultimately show ?thesis by (simp add: mount_ready_def)
  qed
  moreover have "guest_mounts (qs_cmdline ?spec) = map (\<lambda>m. (ms_tag m, ms_guest_path m)) ?ms"
    using cmdline_mounts_rt extra plain conf bound(2) by (simp add: linux_spec_def)
  ultimately show ?thesis
    using that[of pid cmd "qs_cmdline ?spec" ?root] p s' passes_append_line[of ?spec] servers by simp
qed

text \<open>An agent with the port of a mount, once it has found a device of that name.\<close>

lemma agent_on_port:
  assumes ready: "mount_ready root s w args i m"
    and att: "qemu_attaches args (qx_servers s) devs wire"
    and found: "wait_port fuel devs clock (''tokimo.rpc.'' @ ms_tag m) 0 = Some (Ok dev)"
    and hello: "carries c (vfs_of (mount_provider m)) (ReqHello protocol_version) st"
    and args: "aa_port_name a = Some (''tokimo.rpc.'' @ ms_tag m)" "\<not> aa_stdio a"
  shows "agent_run (served_call c vfs_of) k (dial_port devs clock (open_port w st wire) fuel) a =
    Some (Ok \<lparr>am_fuse = tokimo_fuse_new, am_conn = (mount_provider m, insync st), am_point = aa_mount a,
              am_fsname = ''tokimo-'' @ aa_tag a, am_allow_other = True\<rparr>)"
proof -
  obtain n where n: "names_port (devs n) (''tokimo.rpc.'' @ ms_tag m) dev" using wait_port_names[OF found] by blast
  obtain v where v: "v \<in> set (qx_servers s)" "vs_tag v = ms_tag m" "vs_socket_path v = rpc_socket root i"
    using ready by (auto simp: mount_ready_def)
  then have "server_port (''rpc'' @ show_nat i) v = port_for root i m"
    by (simp add: server_port_def port_for_def)
  then have "passes args (port_args (server_port (''rpc'' @ show_nat i) v))"
    using ready by (simp only: mount_ready_def)
  moreover have "names_port (devs n) (''tokimo.rpc.'' @ vs_tag v) dev" using n v(2) by (simp only:)
  ultimately have "wire dev = Some (vs_socket_path v)"
    using att v(1) unfolding qemu_attaches_def by blast
  then have "wire dev = Some (rpc_socket root i)" using v(3) by simp
  then have "open_port w st wire dev = Ok (mount_provider m, insync st)"
    using ready by (simp add: open_port_def accept_conn_def mount_ready_def)
  then show ?thesis
    using args found accepted.hello[where prov = "mount_provider m" and vfs_of = vfs_of, OF hello] by (simp add: agent_run_def dial_port_def)
qed


section \<open>Properties\<close>

text \<open>C7: A mount configured on the host is that mount in the guest, from the configuration to the
  replies of the file system: after a successful start the guest's init launches one agent
  per mount, in order, and each agent that finds its port comes up on the configured path,
  connected to the provider of its own mount; whatever the guest's kernel then asks, it gets
  the replies of that provider itself behind the same FUSE handlers.\<close>

theorem linux_mount_end_to_end:
  assumes "linux_start js (s, w) = (Done (Ok u), s', w')"
    and "list_all no_mount_words (sc_extra_cmdline (qx_config s))"
    and "list_all plain_mount (map (\<lambda>m. (ms_tag m, ms_guest_path m)) (sc_mounts (qx_config s)))"
    and "\<And>pid cmd. (pid, cmd) \<in> set (lw_procs w') \<Longrightarrow> qx_child s' = Some pid \<Longrightarrow> qemu_attaches (qc_args cmd) (qx_servers s') devs wire"
    and "i < length (sc_mounts (qx_config s))" and "m = sc_mounts (qx_config s) ! i"
    and "wait_port fuel devs clock (''tokimo.rpc.'' @ ms_tag m) 0 = Some (Ok dev)"
    and "carries c (vfs_of (mount_provider m)) (ReqHello protocol_version) st"
    and "run_carried (carries c (vfs_of (mount_provider m))) (vfs_of (mount_provider m)) full ops (tokimo_fuse_new, st)"
  shows "\<exists>pid cmd line mnt. qx_child s' = Some pid \<and> (pid, cmd) \<in> set (lw_procs w') \<and>
    passes (qc_args cmd) [''-append'', line] \<and>
    length (guest_agents line) = length (sc_mounts (qx_config s)) \<and>
    agent_run (served_call c vfs_of) k
      (dial_port devs clock (open_port w' st wire) fuel) (guest_agents line ! i) = Some (Ok mnt) \<and>
    am_point mnt = ms_guest_path m \<and> am_fsname mnt = ''tokimo-'' @ ms_tag m \<and>
    am_conn mnt = (mount_provider m, insync st) \<and>
    fuse_run (client_vfs (served_call c vfs_of)) full ops (am_fuse mnt, am_conn mnt) =
      apsnd (apsnd (\<lambda>s. (mount_provider m, insync s))) (fuse_run (vfs_of (mount_provider m)) full ops (tokimo_fuse_new, st))"
proof -
  let ?ms = "sc_mounts (qx_config s)" and ?V = "vfs_of (mount_provider m)"
  obtain pid and cmd :: qemu_command and root line where
    p: "qx_child s' = Some pid" "(pid, cmd) \<in> set (lw_procs w')" "passes (qc_args cmd) [''-append'', line]"
      "guest_mounts line = map (\<lambda>m. (ms_tag m, ms_guest_path m)) ?ms"
    and each: "\<forall>i < length ?ms. mount_ready root s' w' (qc_args cmd) i (?ms ! i)"
    and "map (\<lambda>v. (vs_tag v, vs_socket_path v)) (qx_servers s') =
       map (\<lambda>v. (vs_tag v, vs_socket_path v)) (qx_servers s) @
       map2 (\<lambda>j m. (ms_tag m, rpc_socket root j)) [0..<length ?ms] ?ms"
    by (rule linux_start_mounts[OF assms(1-3)])
  note line = p(4)
  have ready: "mount_ready root s' w' (qc_args cmd) i m" using each assms(5,6) by simp
  let ?a = "guest_agents line ! i"
  have a: "?a = \<lparr>aa_port_name = Some (''tokimo.rpc.'' @ ms_tag m), aa_stdio = False,
      aa_mount = ms_guest_path m, aa_tag = ms_tag m\<rparr>"
    using line assms(5,6) by (simp add: guest_agents_def agent_for_def)
  let ?mnt = "\<lparr>am_fuse = tokimo_fuse_new, am_conn = (mount_provider m, insync st), am_point = aa_mount ?a,
      am_fsname = ''tokimo-'' @ aa_tag ?a, am_allow_other = True\<rparr>"
  have up: "agent_run (served_call c vfs_of) k (dial_port devs clock (open_port w' st wire) fuel) ?a = Some (Ok ?mnt)"
    using a by (intro agent_on_port[where vfs_of = vfs_of, OF ready assms(4)[OF p(2,1)] assms(7,8)]) simp_all
  have len: "length (guest_agents line) = length ?ms" using line by (simp add: guest_agents_def agent_for_def)
  have run: "fuse_run (client_vfs (served_call c vfs_of)) full ops (tokimo_fuse_new, mount_provider m, insync st) =
      apsnd (apsnd (\<lambda>s. (mount_provider m, insync s))) (fuse_run ?V full ops (tokimo_fuse_new, st))"
    by (rule vfs_transport.fuse_run_client[OF accepted.vfs_transport_axioms[of c vfs_of "mount_provider m"] assms(9)])
  have at_a: "am_point ?mnt = ms_guest_path m" "am_fsname ?mnt = ''tokimo-'' @ ms_tag m"
    "am_fuse ?mnt = tokimo_fuse_new" "am_conn ?mnt = (mount_provider m, insync st)"
    using a by simp_all
  show ?thesis
    by (rule exI[of _ pid], rule exI[of _ cmd], rule exI[of _ line], rule exI[of _ ?mnt])
      (intro conjI p(1-3) len up at_a(1,2,4), unfold at_a(3,4), rule run)
qed


text \<open>The guest of the sample sandbox has one port device, named for the mount of the VFS.\<close>

definition mem_devs :: "nat \<Rightarrow> guest_devs" where
  "mem_devs k =
     \<lparr>gd_exists = (\<lambda>p. p = ''/dev/virtio-ports/tokimo.rpc.mem''), gd_scan = Ok []\<rparr>"

lemma mem_devs_names: "names_port (mem_devs n) (''tokimo.rpc.'' @ t) dev \<longleftrightarrow> t = ''mem'' \<and> dev = ''/dev/virtio-ports/tokimo.rpc.mem''"
  by (auto simp: names_port_def mem_devs_def)

theorem linux_mount_end_to_end_witness:
  "\<exists>s' w' line mnt wire. linux_start sample_json (sample_sandbox, sample_world [''hello'', ''return''] False) = (Done (Ok ()), s', w') \<and>
     agent_run (served_call boot_codec (\<lambda>_. memory_vfs)) (ServeVfs 7, insync sample_mem)
       (dial_port mem_devs (\<lambda>k. 200 * k) (open_port w' sample_mem wire) 1) (guest_agents line ! 1) = Some (Ok mnt) \<and>
     am_point mnt = ''/mnt/mem'' \<and> fst (am_conn mnt) = ServeVfs 0"
proof -
  obtain s' w' where start: "linux_start sample_json (sample_sandbox, sample_world [''hello'', ''return''] False) =
      (Done (Ok ()), s', w')"
    using sample_start by blast
  have plain: "list_all no_mount_words (sc_extra_cmdline (qx_config sample_sandbox))"
    "list_all plain_mount (map (\<lambda>m. (ms_tag m, ms_guest_path m)) (sc_mounts (qx_config sample_sandbox)))"
    unfolding sample_mounts by code_simp+
  obtain pid and cmd :: qemu_command and root line where
    servers: "map (\<lambda>v. (vs_tag v, vs_socket_path v)) (qx_servers s') =
       map (\<lambda>v. (vs_tag v, vs_socket_path v)) (qx_servers sample_sandbox) @
       map2 (\<lambda>j m. (ms_tag m, rpc_socket root j)) [0..<length (sc_mounts (qx_config sample_sandbox))]
         (sc_mounts (qx_config sample_sandbox))"
    by (rule linux_start_mounts[OF start plain])
  have pairs: "map (\<lambda>v. (vs_tag v, vs_socket_path v)) (qx_servers s') = [(''h'', rpc_socket root 0), (''mem'', rpc_socket root 1)]"
    unfolding servers by (simp add: sample_mounts) (simp add: sample_sandbox_def qemu_sandbox_new_def)
  let ?wire = "\<lambda>dev :: path. Some (rpc_socket root 1)"
  have "vs_socket_path v = rpc_socket root 1" if "v \<in> set (qx_servers s')" "vs_tag v = ''mem''" for v
  proof -
    have "(vs_tag v, vs_socket_path v) \<in> set (map (\<lambda>v. (vs_tag v, vs_socket_path v)) (qx_servers s'))"
      using that(1) by auto
    then show ?thesis unfolding pairs using that(2) by auto
  qed
  then have att: "qemu_attaches args (qx_servers s') mem_devs ?wire" for args
    unfolding qemu_attaches_def mem_devs_names by auto
  let ?m = "VfsMount ''/mnt/mem'' 0 False ''mem'' :: nat mount_spec"
  have m: "1 < length (sc_mounts (qx_config sample_sandbox))" "?m = sc_mounts (qx_config sample_sandbox) ! 1"
    by (simp_all add: sample_mounts)
  have found: "wait_port 1 mem_devs (\<lambda>k. 200 * k) (''tokimo.rpc.'' @ ms_tag ?m) 0 = Some (Ok ''/dev/virtio-ports/tokimo.rpc.mem'')"
    by (simp add: resolve_virtio_port_def mem_devs_def Let_def)
  have hello: "carries boot_codec memory_vfs (ReqHello protocol_version) sample_mem"
    by (simp add: carries_def fits_frame_def boot_codec_def max_frame_def protocol_version_def)
  have ops: "run_carried (carries boot_codec memory_vfs) memory_vfs roomy [FGetattr 7] (tokimo_fuse_new, sample_mem)"
    by (simp add: fuse_getattr_def path_for_def tokimo_fuse_new_def)
  obtain line mnt where "agent_run (served_call boot_codec (\<lambda>_. memory_vfs)) (ServeVfs 7, insync sample_mem)
       (dial_port mem_devs (\<lambda>k. 200 * k) (open_port w' sample_mem ?wire) 1) (guest_agents line ! 1) = Some (Ok mnt)"
     "am_point mnt = ms_guest_path ?m" "am_conn mnt = (mount_provider ?m, insync sample_mem)"
    using linux_mount_end_to_end[where vfs_of = "\<lambda>_. memory_vfs", OF start plain att m found hello ops,
      of "(ServeVfs 7, insync sample_mem)"] by blast
  then show ?thesis using start
    by (intro exI[of _ s'] exI[of _ w'] exI[of _ line] exI[of _ mnt] exI[of _ ?wire]) simp
qed

end
