(* ===== verification/Wsl_Text.thy ===== *)
theory Wsl_Text
  imports Rust_Text
begin

text \<open>
  Text from \<^verbatim>\<open>wsl.exe\<close> (\<^verbatim>\<open>decode_wsl_text\<close>, \<^verbatim>\<open>sanitize\<close> in \<^verbatim>\<open>tokimo-packages-vm-wsl/src/lib.rs\<close>):
  how a listing of distributions is decoded and searched.
\<close>

section \<open>Decoding\<close>

definition decode_wsl_text :: "byte list \<Rightarrow> codes" where
  "decode_wsl_text bytes =
     (if 2 \<le> length bytes \<and> even (length bytes) then utf16_lossy (u16s_le bytes)
      else utf8_lossy bytes)"


text \<open>\<^verbatim>\<open>listing.lines().any(|l| l.trim() == name)\<close>\<close>

definition lists_distro :: "codes \<Rightarrow> string \<Rightarrow> bool" where
  "lists_distro listing name = list_ex (\<lambda>l. trim l = points name) (text_lines listing)"


section \<open>Names\<close>

definition ascii_alphanumeric :: "char \<Rightarrow> bool" where
  "ascii_alphanumeric c =
     (let n = of_char c :: nat
      in 48 \<le> n \<and> n \<le> 57 \<or> 65 \<le> n \<and> n \<le> 90 \<or> 97 \<le> n \<and> n \<le> 122)"

text \<open>A character outside ASCII is a byte that is no continuation, with the continuations
  after it; it becomes one dash.\<close>

definition sanitize :: "string \<Rightarrow> string" where
  "sanitize s = concat (map (\<lambda>c.
     if ascii_alphanumeric c \<or> c = CHR ''-'' then [c]
     else if cont (of_char c) then [] else ''-'') s)"



section \<open>Listings\<close>

text \<open>A listing of names, one per line, as text and in two encodings.\<close>

definition crlf_lines :: "string list \<Rightarrow> string" where
  "crlf_lines names = concat (map (\<lambda>n. n @ [CHR 0x0D, CHR 0x0A]) names)"

definition utf16_bytes :: "string \<Rightarrow> byte list" where
  "utf16_bytes s = concat (map (\<lambda>c. [of_char c, 0]) s)"

text \<open>A name without white space, in ASCII.\<close>

definition plain_name :: "string \<Rightarrow> bool" where
  "plain_name n \<longleftrightarrow> n \<noteq> [] \<and> list_all (\<lambda>c. 32 < (of_char c :: nat) \<and> (of_char c :: nat) < 127) n"

text \<open>ASCII text.\<close>

abbreviation ascii :: "string \<Rightarrow> bool" where
  "ascii s \<equiv> list_all (\<lambda>c. (of_char c :: nat) < 128) s"

lemma unat_of_char [simp]: "unat (of_char c :: byte) = of_char c"
  using unat_of_nat[of "of_char c :: nat", where 'a = 8] by (simp add: of_nat_of_char)

lemma points_ascii: "ascii s \<Longrightarrow> points s = map of_char s"
  unfolding points_def string_bytes_def by (induction s) auto

lemma points_inj: "ascii a \<Longrightarrow> ascii b \<Longrightarrow> points a = points b \<longleftrightarrow> a = b"
  by (simp add: points_ascii inj_map_eq_map[OF inj_of_char])

lemma plain_ascii: "plain_name n \<Longrightarrow> ascii n"
  by (auto simp: plain_name_def list_all_iff)

lemma crlf_ascii: "list_all plain_name names \<Longrightarrow> ascii (crlf_lines names)"
  by (induction names) (auto simp: crlf_lines_def dest: plain_ascii)

lemma u16s_utf16: "u16s_le (utf16_bytes s) = map of_char s"
  by (induction s) (simp_all add: utf16_bytes_def)

lemma utf16_lossy_low: "list_all (\<lambda>u. u < 0xD800) us \<Longrightarrow> utf16_lossy us = us"
  by (induction us) auto

lemma decode_utf16: "decode_wsl_text (utf16_bytes s) = map of_char s"
proof (cases "s = []")
  case True
  then show ?thesis by (simp add: decode_wsl_text_def utf16_bytes_def)
next
  case False
  have len: "length (utf16_bytes s) = 2 * length s" by (induction s) (simp_all add: utf16_bytes_def)
  have "list_all (\<lambda>u. u < 0xD800) (map of_char s :: nat list)"
    unfolding list_all_iff
    using order_less_trans[OF nat_of_char_less_256, of "0xD800"] by auto
  then show ?thesis using False len
    by (simp add: decode_wsl_text_def u16s_utf16 utf16_lossy_low Suc_le_eq)
qed

lemma points_no_lf: "plain_name n \<Longrightarrow> 10 \<notin> set (points n)"
  by (auto simp: points_ascii[OF plain_ascii] plain_name_def list_all_iff)

lemma split_lines: "list_all plain_name names \<Longrightarrow>
    split_on 10 (map of_char (crlf_lines names)) = map (\<lambda>n. points n @ [13]) names @ [[]]"
proof (induction names)
  case Nil
  show ?case by (simp add: crlf_lines_def)
next
  case (Cons n ns)
  have "map of_char (crlf_lines (n # ns)) = (points n @ [13]) @ 10 # map of_char (crlf_lines ns)"
    using Cons.prems by (simp add: crlf_lines_def points_ascii[OF plain_ascii])
  moreover have "split_on 10 (points n @ [13]) = [points n @ [13]]"
    using points_no_lf[of n] Cons.prems by (intro split_on_no_sep) auto
  ultimately show ?case using Cons by (simp only: split_on_append_sep) simp
qed

lemma text_lines_crlf: "list_all plain_name names \<Longrightarrow> text_lines (map of_char (crlf_lines names)) = map points names"
  by (simp add: text_lines_def split_lines Let_def butlast_append strip_cr_def comp_def)

lemma trim_plain: "plain_name n \<Longrightarrow> trim (points n) = points n"
proof -
  assume n: "plain_name n"
  have "\<not> white_space c" if "c \<in> set (points n)" for c
    using n that by (auto simp: points_ascii[OF plain_ascii[OF n]] plain_name_def list_all_iff white_space_def)
  then have "dropWhile white_space (points n) = points n" "dropWhile white_space (rev (points n)) = rev (points n)"
    by (metis dropWhile_eq_self_iff hd_in_set, metis dropWhile_eq_self_iff hd_in_set set_rev)
  then show "trim (points n) = points n" by (simp add: trim_def)
qed

lemma lists_distro_crlf:
  assumes "list_all plain_name names" and "plain_name name"
  shows "lists_distro (map of_char (crlf_lines names)) name \<longleftrightarrow> name \<in> set names"
proof -
  have "list_ex (\<lambda>l. trim l = points name) (map points names) = list_ex (\<lambda>n. n = name) names"
    using assms by (induction names) (auto simp: trim_plain points_inj plain_ascii)
  then show ?thesis
    using assms by (simp add: lists_distro_def text_lines_crlf list_ex_iff)
qed

text \<open>ASCII text of even length is read as UTF-16: no character of it survives.\<close>

lemma u16s_high:
  "list_all (\<lambda>b. 0 < unat b \<and> unat b < 0x80) bs \<Longrightarrow> list_all (\<lambda>u. 256 \<le> u \<and> u < 0xD800) (u16s_le bs)"
proof (induction bs rule: u16s_le.induct)
  case (1 a b bs)
  then have "1 \<le> unat b" "unat b \<le> 127" "unat a \<le> 127" by auto
  then have "256 \<le> unat a + 256 * unat b" "unat a + 256 * unat b < 0xD800" by linarith+
  then show ?case using 1 by simp
qed simp_all

lemma trim_subset: "set (trim t) \<subseteq> set t"
  unfolding trim_def using set_dropWhileD by (metis set_rev subsetI)

lemma ascii_not_listed:
  assumes "list_all (\<lambda>b. 0 < unat b \<and> unat b < 0x80) bs" and "even (length bs)" and "plain_name name"
  shows "\<not> lists_distro (decode_wsl_text bs) name"
proof (cases "bs = []")
  case True
  then show ?thesis by (simp add: decode_wsl_text_def lists_distro_def text_lines_def Let_def)
next
  case False
  then have "2 \<le> length bs" using assms(2) by (cases bs; cases "tl bs") auto
  let ?t = "u16s_le bs"
  have high: "\<forall>u \<in> set ?t. 256 \<le> u" and low: "list_all (\<lambda>u. u < 0xD800) ?t"
    using u16s_high[OF assms(1)] by (simp_all add: list_all_iff)
  have decoded: "decode_wsl_text bs = ?t"
    using \<open>2 \<le> length bs\<close> assms(2) utf16_lossy_low[OF low] by (simp add: decode_wsl_text_def)
  have "split_on 10 ?t = [?t]" using high by (intro split_on_no_sep) auto
  then have lines: "text_lines ?t = (if ?t = [] then [] else [?t])" by (simp add: text_lines_def)
  have "trim ?t \<noteq> points name"
  proof
    assume eq: "trim ?t = points name"
    obtain c cs where name: "name = c # cs" using assms(3) by (cases name) (auto simp: plain_name_def)
    have "of_char c \<in> set (trim ?t)"
      unfolding eq points_ascii[OF plain_ascii[OF assms(3)]] by (simp add: name)
    then have "256 \<le> (of_char c :: nat)" using high trim_subset by blast
    then show False using nat_of_char_less_256[of c] by linarith
  qed
  then show ?thesis by (simp add: decoded lists_distro_def lines)
qed

end
