(* ===== verification/Wsl_Backend.thy ===== *)
theory Wsl_Backend
  imports Sandbox Wsl_Text
begin

text \<open>
  The WSL backend (\<^verbatim>\<open>tokimo-packages-vm-wsl/src/lib.rs\<close>). What \<^verbatim>\<open>wsl.exe\<close> does is a
  parameter: running a command to its end gives an output and changes the state \<open>'h\<close> of
  the machine. The world also holds the agents' processes, the tasks that serve a mount
  over the standard streams of a process, and the outcome of every call that can fail.
  Paths are joined as in the other backends.
\<close>

section \<open>The world\<close>

record proc_command =
  pc_bin :: path
  pc_args :: "string list"
  pc_dir :: "path option"
  pc_env :: "(string \<times> string) list"

record proc_output =
  po_code :: "int option"
  po_stdout :: "byte list"
  po_stderr :: "byte list"

definition plain_command :: "path \<Rightarrow> string list \<Rightarrow> proc_command" where
  "plain_command bin args = \<lparr>pc_bin = bin, pc_args = args, pc_dir = None, pc_env = []\<rparr>"

record ('h, 'v) wsl_world =
  ww_host :: 'h
  ww_run :: "proc_command \<Rightarrow> 'h \<Rightarrow> (proc_output, string) result \<times> 'h"
  ww_status_text :: "int option \<Rightarrow> string"  \<comment> \<open>how an exit status is printed\<close>
  ww_env :: proc_env
  ww_local_appdata :: "path option"  \<comment> \<open>set on Windows only\<close>
  ww_mkdir_fails :: "path \<Rightarrow> string option"
  ww_create_fails :: "path \<Rightarrow> string option"
  ww_spawn_fails :: "proc_command \<Rightarrow> string option"
  ww_procs :: "(nat \<times> proc_command) list"
  ww_tasks :: "(nat \<times> nat \<times> 'v served) list"  \<comment> \<open>a task, the process it talks to, what it serves\<close>
  ww_next :: nat

definition run_command :: "proc_command \<Rightarrow> ('h, 'v) wsl_world \<Rightarrow> (proc_output, string) result \<times> ('h, 'v) wsl_world" where
  "run_command c w = (case ww_run w c (ww_host w) of (r, h) \<Rightarrow> (r, w\<lparr>ww_host := h\<rparr>))"


section \<open>The sandbox\<close>

record wsl_config =
  wc_distro_name :: "string option"
  wc_install_dir :: "path option"
  wc_rootfs_tar :: "path option"
  wc_wsl_bin :: path

definition wsl_config_default :: wsl_config where
  "wsl_config_default =
     \<lparr>wc_distro_name = None, wc_install_dir = None, wc_rootfs_tar = None, wc_wsl_bin = ''wsl.exe''\<rparr>"

record 'v wsl_sandbox =
  wx_id :: string  \<comment> \<open>the id in its simple form\<close>
  wx_state :: sandbox_state
  wx_config :: "'v sandbox_config"
  wx_wsl :: wsl_config
  wx_distro :: "string option"
  wx_children :: "nat list"
  wx_tasks :: "nat list"
  wx_runtime_dir :: "path option"

definition with_wsl_config :: "string \<Rightarrow> 'v sandbox_config \<Rightarrow> wsl_config \<Rightarrow> 'v wsl_sandbox" where
  "with_wsl_config sid cfg wsl =
     \<lparr>wx_id = sid, wx_state = Created, wx_config = cfg, wx_wsl = wsl, wx_distro = None,
      wx_children = [], wx_tasks = [], wx_runtime_dir = None\<rparr>"

definition wsl_sandbox_new :: "string \<Rightarrow> 'v sandbox_config \<Rightarrow> 'v wsl_sandbox" where
  "wsl_sandbox_new sid cfg = with_wsl_config sid cfg wsl_config_default"

type_synonym ('h, 'v) wsl = "'v wsl_sandbox \<times> ('h, 'v) wsl_world"

definition resolve_distro_name :: "'v wsl_sandbox \<Rightarrow> string" where
  "resolve_distro_name s =
     (case wc_distro_name (wx_wsl s) of
        Some n \<Rightarrow> n
      | None \<Rightarrow> ''tokimo-'' @ sanitize (sc_name (wx_config s)) @ ''-'' @ take 8 (wx_id s))"

definition default_install_dir :: "('h, 'v) wsl_world \<Rightarrow> string \<Rightarrow> path" where
  "default_install_dir w distro =
     path_join (path_join (path_join
       (case ww_local_appdata w of Some base \<Rightarrow> base | None \<Rightarrow> pe_temp_dir (ww_env w))
       ''tokimo'') ''sandboxes'') distro"

definition default_runtime_dir :: "'v wsl_sandbox \<Rightarrow> ('h, 'v) wsl_world \<Rightarrow> path" where
  "default_runtime_dir s w =
     path_join (pe_temp_dir (ww_env w))
       (''tokimo-'' @ sc_name (wx_config s) @ ''-'' @ show_nat (pe_pid (ww_env w)))"

text \<open>The \<^verbatim>\<open>Debug\<close> form of a path, as the messages quote it: printable text with quotes,
  backslashes, tabs and line ends escaped.\<close>

definition debug_char :: "char \<Rightarrow> string" where
  "debug_char c =
     (if c = CHR 0x22 then [CHR 0x5C, CHR 0x22]
      else if c = CHR 0x5C then [CHR 0x5C, CHR 0x5C]
      else if c = CHR 0x09 then [CHR 0x5C, CHR ''t'']
      else if c = CHR 0x0A then [CHR 0x5C, CHR ''n'']
      else if c = CHR 0x0D then [CHR 0x5C, CHR ''r'']
      else [c])"

definition debug_path :: "path \<Rightarrow> string" where
  "debug_path p = [CHR 0x22] @ concat (map debug_char p) @ [CHR 0x22]"

definition no_tarball_msg :: "path \<Rightarrow> string" where
  "no_tarball_msg tar =
     ''rootfs tarball not found at '' @ debug_path tar @ '' '' @ [CHR 0xE2, CHR 0x80, CHR 0x94] @
     '' run scripts/image/build.sh (WSL backend expects a .tar, not .squashfs)''"

definition rootfs_tar_of :: "'v wsl_sandbox \<Rightarrow> ('h, 'v) wsl_world \<Rightarrow> path" where
  "rootfs_tar_of s w =
     (case wc_rootfs_tar (wx_wsl s) of
        Some t \<Rightarrow> t
      | None \<Rightarrow>
          (case pe_img_dir (ww_env w) of
             Some d \<Rightarrow> path_join d ''rootfs.tar''
           | None \<Rightarrow> ''img/rootfs.tar''))"

definition ensure_distro :: "('h, 'v) wsl \<Rightarrow> (string, error) result \<times> ('h, 'v) wsl" where
  "ensure_distro = (\<lambda>(s, w).
     let name = resolve_distro_name s; bin = wc_wsl_bin (wx_wsl s)
     in case run_command (plain_command bin [''--list'', ''--quiet'']) w of
          (Err e, w1) \<Rightarrow> (Err (Hypervisor (''wsl --list: '' @ e)), s, w1)
        | (Ok out, w1) \<Rightarrow>
            if lists_distro (decode_wsl_text (po_stdout out)) name
            then (Ok name, s\<lparr>wx_distro := Some name\<rparr>, w1)
            else
              let dir = (case wc_install_dir (wx_wsl s) of Some d \<Rightarrow> d | None \<Rightarrow> default_install_dir w1 name)
              in case ww_mkdir_fails w1 dir of
                   Some e \<Rightarrow> (Err (ConfigError (''create '' @ debug_path dir @ '': '' @ e)), s, w1)
                 | None \<Rightarrow>
                     let tar = rootfs_tar_of s w1
                     in if \<not> pe_exists (ww_env w1) tar then (Err (ConfigError (no_tarball_msg tar)), s, w1)
                        else (case run_command (plain_command bin [''--import'', name, dir, tar, ''--version'', ''2'']) w1 of
                                (Err e, w2) \<Rightarrow> (Err (Hypervisor (''wsl --import: '' @ e)), s, w2)
                              | (Ok st, w2) \<Rightarrow>
                                  if po_code st = Some 0 then (Ok name, s\<lparr>wx_distro := Some name\<rparr>, w2)
                                  else (Err (Hypervisor (''wsl --import exited '' @ ww_status_text w2 (po_code st))), s, w2)))"

definition agent_command :: "path \<Rightarrow> string \<Rightarrow> 'v mount_spec \<Rightarrow> proc_command" where
  "agent_command bin distro m =
     plain_command bin
       [''-d'', distro, ''--exec'', ''/sbin/tokimo-agent'', ''--stdio'', ''--mount'', ms_guest_path m,
        ''--tag'', ms_tag m]"

text \<open>The loop over the mounts: a process per mount and a task on its streams. The streams
  were asked for, so taking them from the child succeeds.\<close>

fun start_agents :: "path \<Rightarrow> string \<Rightarrow> nat \<Rightarrow> 'v mount_spec list \<Rightarrow> ('h, 'v) wsl \<Rightarrow> (unit, error) result \<times> ('h, 'v) wsl" where
  "start_agents dir distro i [] sw = (Ok (), sw)"
| "start_agents dir distro i (m # ms) (s, w) =
     (case ww_create_fails w (path_join dir (''agent-'' @ ms_tag m @ ''.log'')) of
        Some e \<Rightarrow> (Err (ConfigError (''agent log: '' @ e)), s, w)
      | None \<Rightarrow>
          let cmd = agent_command (wc_wsl_bin (wx_wsl s)) distro m
          in case ww_spawn_fails w cmd of
               Some e \<Rightarrow> (Err (Hypervisor (''spawn wsl agent #'' @ show_nat i @ '': '' @ e)), s, w)
             | None \<Rightarrow>
                 let pid = ww_next w; task = pid + 1
                 in start_agents dir distro (i + 1) ms
                      (s\<lparr>wx_children := wx_children s @ [pid], wx_tasks := wx_tasks s @ [task]\<rparr>,
                       w\<lparr>ww_next := task + 1, ww_procs := ww_procs w @ [(pid, cmd)],
                         ww_tasks := ww_tasks w @ [(task, pid, mount_provider m)]\<rparr>))"

definition wsl_start :: "('h, 'v) wsl life_call" where
  "wsl_start = (\<lambda>(s, w).
     if wx_state s \<noteq> Created then (Done (Err AlreadyStarted), s, w)
     else
       let s1 = s\<lparr>wx_state := Starting\<rparr>;
           dir = (case sc_runtime_dir (wx_config s) of Some d \<Rightarrow> d | None \<Rightarrow> default_runtime_dir s w)
       in case ww_mkdir_fails w dir of
            Some e \<Rightarrow> (Done (Err (ConfigError (''runtime_dir: '' @ e))), s1, w)
          | None \<Rightarrow>
              (case ensure_distro (s1\<lparr>wx_runtime_dir := Some dir\<rparr>, w) of
                 (Err e, sw2) \<Rightarrow> (Done (Err e), sw2)
               | (Ok distro, s2, w2) \<Rightarrow>
                   (case start_agents dir distro 0 (sc_mounts (wx_config s2)) (s2, w2) of
                      (Err e, sw3) \<Rightarrow> (Done (Err e), sw3)
                    | (Ok _, s3, w3) \<Rightarrow> (Done (Ok ()), s3\<lparr>wx_state := Running\<rparr>, w3))))"

definition wsl_stop :: "('h, 'v) wsl life_call" where
  "wsl_stop = (\<lambda>(s, w).
     if wx_state s = Stopped then (Done (Ok ()), s, w)
     else
       let w1 = w\<lparr>ww_procs := filter (\<lambda>(p, _). p \<notin> set (wx_children s)) (ww_procs w),
                  ww_tasks := filter (\<lambda>(t, _). t \<notin> set (wx_tasks s)) (ww_tasks w)\<rparr>;
           w2 = (case wx_distro s of
                   None \<Rightarrow> w1
                 | Some d \<Rightarrow> snd (run_command (plain_command (wc_wsl_bin (wx_wsl s)) [''--terminate'', d]) w1))
       in (Done (Ok ()), s\<lparr>wx_children := [], wx_tasks := [], wx_state := Stopped\<rparr>, w2))"

text \<open>\<^verbatim>\<open>wait\<close> takes the processes out of the sandbox before it waits for them.\<close>

definition wsl_wait :: "('h, 'v) wsl life_call" where
  "wsl_wait = (\<lambda>(s, w).
     if list_ex (\<lambda>p. map_of (ww_procs w) p \<noteq> None) (wx_children s)
     then (Pending, s\<lparr>wx_children := []\<rparr>, w)
     else (Done (Ok ()), s\<lparr>wx_children := [], wx_state := Stopped\<rparr>, w))"

definition wsl_add_mount :: "'v mount_spec \<Rightarrow> ('h, 'v) wsl \<Rightarrow> (uid, error) result \<times> ('h, 'v) wsl" where
  "wsl_add_mount m sw = (Err (Unsupported ''hot add_mount not implemented on WSL backend''), sw)"

definition wsl_remove_mount :: "uid \<Rightarrow> ('h, 'v) wsl \<Rightarrow> (unit, error) result \<times> ('h, 'v) wsl" where
  "wsl_remove_mount i sw = (Err (Unsupported ''hot remove_mount not implemented on WSL backend''), sw)"

definition exec_command :: "path \<Rightarrow> string \<Rightarrow> exec_spec \<Rightarrow> proc_command" where
  "exec_command bin distro spec =
     \<lparr>pc_bin = bin, pc_args = [''-d'', distro, ''--exec'', ex_program spec] @ ex_args spec,
      pc_dir = ex_cwd spec, pc_env = ex_env spec\<rparr>"

definition wsl_exec :: "exec_spec \<Rightarrow> ('h, 'v) wsl \<Rightarrow> (exec_output, error) result \<times> ('h, 'v) wsl" where
  "wsl_exec spec = (\<lambda>(s, w).
     case wx_distro s of
       None \<Rightarrow> (Err (Hypervisor ''sandbox not started''), s, w)
     | Some distro \<Rightarrow>
         (case run_command (exec_command (wc_wsl_bin (wx_wsl s)) distro spec) w of
            (Err e, w1) \<Rightarrow> (Err (Hypervisor (''wsl exec: '' @ e)), s, w1)
          | (Ok out, w1) \<Rightarrow>
              (Ok \<lparr>eo_id = ww_next w1, eo_exit_code = po_code out, eo_stdout = po_stdout out,
                   eo_stderr = po_stderr out\<rparr>, s, w1\<lparr>ww_next := ww_next w1 + 1\<rparr>)))"

definition wsl_serial_log_path :: "'v wsl_sandbox \<Rightarrow> path option" where
  "wsl_serial_log_path s = map_option (\<lambda>d. path_join d ''serial.log'') (wx_runtime_dir s)"

end
