(* ===== verification/Wsl_Props.thy ===== *)
theory Wsl_Props
  imports Wsl_Backend
begin

text \<open>
  The WSL backend: which parts of the world each stage of \<^verbatim>\<open>start\<close> touches, what a
  successful \<^verbatim>\<open>start\<close> has running, that \<^verbatim>\<open>stop\<close> undoes it, how a distribution is found in
  the listing, and what an unfinished \<^verbatim>\<open>wait\<close> loses. The backend is an instance of the
  life-cycle interface.
\<close>

section \<open>What each stage touches\<close>

lemma run_command_world:
  "run_command c w = (r, w') \<Longrightarrow> \<exists>h. w' = w\<lparr>ww_host := h\<rparr>"
  by (auto simp: run_command_def split: prod.splits)

lemma run_command_host [simp]:
  "ww_procs (snd (run_command c w)) = ww_procs w" "ww_tasks (snd (run_command c w)) = ww_tasks w"
  "ww_next (snd (run_command c w)) = ww_next w"
  by (simp_all add: run_command_def split_beta)

lemma ensure_distro_world:
  assumes "ensure_distro (s, w) = (r, s', w')"
  shows "(\<exists>h. w' = w\<lparr>ww_host := h\<rparr>) \<and> (\<exists>d. s' = s\<lparr>wx_distro := d\<rparr>) \<and>
    (\<forall>name. r = Ok name \<longrightarrow> wx_distro s' = Some name)"
proof -
  have same: "\<exists>d. s = s\<lparr>wx_distro := d\<rparr>" by (rule exI[of _ "wx_distro s"]) simp
  show ?thesis
    using assms same
    by (auto simp: ensure_distro_def run_command_def Let_def
        split: result.splits prod.splits option.splits if_splits)
qed

text \<open>The processes and tasks the loop over the mounts has added.\<close>

lemma start_agents_effect:
  assumes "start_agents dir d i ms (s, w) = (r, s', w')"
  shows "\<exists>ps ts. s' = s\<lparr>wx_children := wx_children s @ map fst ps, wx_tasks := wx_tasks s @ map fst ts\<rparr> \<and>
    ww_procs w' = ww_procs w @ ps \<and> ww_tasks w' = ww_tasks w @ ts \<and>
    list_all (\<lambda>(p, _). ww_next w \<le> p) ps \<and> list_all (\<lambda>(t, _). ww_next w \<le> t) ts \<and>
    (r = Ok () \<longrightarrow> map snd ps = map (agent_command (wc_wsl_bin (wx_wsl s)) d) ms \<and>
       map snd ts = zip (map fst ps) (map mount_provider ms))"
  using assms
proof (induction ms arbitrary: i s w)
  case Nil
  then show ?case by (auto intro!: exI[of _ "[]"])
next
  case (Cons m ms)
  let ?cmd = "agent_command (wc_wsl_bin (wx_wsl s)) d m"
  let ?log = "path_join dir (''agent-'' @ ms_tag m @ ''.log'')"
  show ?case
  proof (cases "ww_create_fails w ?log = None \<and> ww_spawn_fails w ?cmd = None")
    case False
    then have "r \<noteq> Ok () \<and> s' = s \<and> w' = w"
      using Cons.prems by (auto simp: Let_def split: option.splits)
    then show ?thesis by (intro exI[of _ "[]"]) simp
  next
    case True
    let ?n = "ww_next w"
    let ?s1 = "s\<lparr>wx_children := wx_children s @ [?n], wx_tasks := wx_tasks s @ [?n + 1]\<rparr>"
    let ?w1 = "w\<lparr>ww_next := ?n + 1 + 1, ww_procs := ww_procs w @ [(?n, ?cmd)],
                 ww_tasks := ww_tasks w @ [(?n + 1, ?n, mount_provider m)]\<rparr>"
    have "start_agents dir d (i + 1) ms (?s1, ?w1) = (r, s', w')"
      using Cons.prems True by (simp add: Let_def)
    from Cons.IH[OF this] obtain ps ts where
      ind: "s' = ?s1\<lparr>wx_children := wx_children ?s1 @ map fst ps, wx_tasks := wx_tasks ?s1 @ map fst ts\<rparr>"
        "ww_procs w' = ww_procs ?w1 @ ps" "ww_tasks w' = ww_tasks ?w1 @ ts"
        "list_all (\<lambda>(p, _). ww_next ?w1 \<le> p) ps" "list_all (\<lambda>(t, _). ww_next ?w1 \<le> t) ts"
        "r = Ok () \<longrightarrow> map snd ps = map (agent_command (wc_wsl_bin (wx_wsl ?s1)) d) ms \<and>
           map snd ts = zip (map fst ps) (map mount_provider ms)"
      by (elim exE conjE) (rule that)
    have "list_all (\<lambda>(p, _). ?n \<le> p) ((?n, ?cmd) # ps)"
      "list_all (\<lambda>(t, _). ?n \<le> t) ((?n + 1, ?n, mount_provider m) # ts)"
      using ind(4,5) by (auto simp: list_all_iff)
    then show ?thesis using ind(1-3,6)
      by (intro exI[of _ "(?n, ?cmd) # ps"] exI[of _ "(?n + 1, ?n, mount_provider m) # ts"]) simp
  qed
qed

text \<open>The ids in use are below the next one.\<close>

definition wsl_ids :: "('h, 'v) wsl_world \<Rightarrow> bool" where
  "wsl_ids w \<longleftrightarrow> list_all (\<lambda>(p, _). p < ww_next w) (ww_procs w) \<and>
     list_all (\<lambda>(t, _). t < ww_next w) (ww_tasks w)"

text \<open>Everything \<^verbatim>\<open>start\<close> leaves behind, whether it succeeds or fails.\<close>

lemma wsl_start_effect:
  assumes "wsl_start (s, w) = (r, s', w')" and "wx_state s = Created"
  shows "\<exists>ps ts. wx_children s' = wx_children s @ map fst ps \<and> wx_tasks s' = wx_tasks s @ map fst ts \<and>
    ww_procs w' = ww_procs w @ ps \<and> ww_tasks w' = ww_tasks w @ ts \<and>
    list_all (\<lambda>(p, _). ww_next w \<le> p) ps \<and> list_all (\<lambda>(t, _). ww_next w \<le> t) ts \<and>
    wx_state s' = (if r = Done (Ok ()) then Running else Starting) \<and>
    (r = Done (Ok ()) \<longrightarrow> (\<exists>d. wx_distro s' = Some d \<and>
       map snd ps = map (agent_command (wc_wsl_bin (wx_wsl s)) d) (sc_mounts (wx_config s)) \<and>
       map snd ts = zip (map fst ps) (map mount_provider (sc_mounts (wx_config s)))))"
proof -
  let ?dir = "case sc_runtime_dir (wx_config s) of Some d \<Rightarrow> d | None \<Rightarrow> default_runtime_dir s w"
  let ?s1 = "s\<lparr>wx_state := Starting, wx_runtime_dir := Some ?dir\<rparr>"
  show ?thesis
  proof (cases "ww_mkdir_fails w ?dir")
    case (Some e)
    then have "r = Done (Err (ConfigError (''runtime_dir: '' @ e)))" "s' = s\<lparr>wx_state := Starting\<rparr>" "w' = w"
      using assms by (simp_all add: wsl_start_def Let_def)
    then show ?thesis by (intro exI[of _ "[]"]) simp
  next
    case None
    obtain rd s2 w2 where e: "ensure_distro (?s1, w) = (rd, s2, w2)" by (metis prod_cases3)
    obtain h d0 where w2: "w2 = w\<lparr>ww_host := h\<rparr>" and s2: "s2 = ?s1\<lparr>wx_distro := d0\<rparr>"
      and named: "\<forall>name. rd = Ok name \<longrightarrow> wx_distro s2 = Some name"
      using ensure_distro_world[OF e] by (elim exE conjE) (rule that)
    show ?thesis
    proof (cases rd)
      case (Err x)
      then have "r = Done (Err x) \<and> s' = s2 \<and> w' = w2"
        using assms None e by (simp add: wsl_start_def Let_def)
      then show ?thesis using s2 w2 by (intro exI[of _ "[]"]) simp
    next
      case (Ok d)
      obtain ra s3 w3 where a: "start_agents ?dir d 0 (sc_mounts (wx_config s2)) (s2, w2) = (ra, s3, w3)"
        by (metis prod_cases3)
      have fin: "w' = w3 \<and> wx_children s' = wx_children s3 \<and> wx_tasks s' = wx_tasks s3 \<and>
          wx_distro s' = wx_distro s3 \<and> (r = Done (Ok ()) \<longleftrightarrow> ra = Ok ()) \<and>
          wx_state s' = (if ra = Ok () then Running else wx_state s3)"
        using assms None e Ok a by (cases ra) (auto simp: wsl_start_def Let_def)
      have "wx_distro s2 = Some d" using named Ok by simp
      then show ?thesis using start_agents_effect[OF a] fin s2 w2 by auto
    qed
  qed
qed

lemma drop_new_ids:
  "list_all (\<lambda>(i, _). i < n) old \<Longrightarrow> list_all (\<lambda>(i, _). n \<le> i) new \<Longrightarrow>
     filter (\<lambda>(i, _). i \<notin> set (map fst new)) (old @ new) = old"
  for n :: nat
  by (fastforce simp: filter_id_conv filter_empty_conv list_all_iff split_beta)

lemma wsl_stop_effect:
  assumes "wx_state s \<noteq> Stopped"
  shows "\<exists>s' w'. wsl_stop (s, w) = (Done (Ok ()), s', w') \<and> wx_state s' = Stopped \<and> wx_children s' = [] \<and>
    ww_procs w' = filter (\<lambda>(p, _). p \<notin> set (wx_children s)) (ww_procs w) \<and>
    ww_tasks w' = filter (\<lambda>(t, _). t \<notin> set (wx_tasks s)) (ww_tasks w)"
  using assms by (simp add: wsl_stop_def Let_def split: option.splits)

lemma wsl_start_state:
  "wx_state s = Created \<Longrightarrow>
     wx_state (fst (snd (wsl_start (s, w)))) = (if fst (wsl_start (s, w)) = Done (Ok ()) then Running else Starting)"
  using wsl_start_effect[of s w] by (cases "wsl_start (s, w)") force

interpretation wsl: sandbox_backend wsl_start wsl_stop wsl_wait "wx_state \<circ> fst"
proof
  fix sw :: "('h, 'v) wsl"
  obtain s w where sw: "sw = (s, w)" by (cases sw)
  show again: "(wx_state \<circ> fst) sw \<noteq> Created \<Longrightarrow> wsl_start sw = (Done (Err AlreadyStarted), sw)"
    by (simp add: sw wsl_start_def)
  then show "(wx_state \<circ> fst) sw \<noteq> Created \<Longrightarrow> fst (wsl_start sw) \<noteq> Done (Ok ()) \<and>
      (wx_state \<circ> fst) (snd (wsl_start sw)) \<noteq> Created"
    by simp
  show "(wx_state \<circ> fst) (snd (wsl_start sw)) \<noteq> Created"
    using wsl_start_state[of s w] by (cases "wx_state s = Created") (simp_all add: sw wsl_start_def)
  show "fst (wsl_start sw) = Done (Ok ()) \<Longrightarrow> (wx_state \<circ> fst) (snd (wsl_start sw)) = Running"
    using wsl_start_state[of s w] by (cases "wx_state s = Created") (simp_all add: sw wsl_start_def)
  show "(wx_state \<circ> fst) sw \<noteq> Created \<Longrightarrow> (wx_state \<circ> fst) (snd (wsl_stop sw)) \<noteq> Created"
    by (simp add: sw wsl_stop_def Let_def)
  show "(wx_state \<circ> fst) sw \<in> {Running, Starting} \<Longrightarrow> fst (wsl_stop sw) = Done (Ok ()) \<Longrightarrow>
      (wx_state \<circ> fst) (snd (wsl_stop sw)) = Stopped"
    by (simp add: sw wsl_stop_def Let_def)
  show "(wx_state \<circ> fst) sw \<noteq> Created \<Longrightarrow> (wx_state \<circ> fst) (snd (wsl_wait sw)) \<noteq> Created"
    by (simp add: sw wsl_wait_def)
qed


section \<open>Properties\<close>

text \<open>A sandbox with two mounts whose distribution \<^verbatim>\<open>wsl.exe\<close> lists, in either encoding.\<close>

definition sample_wsl :: "nat wsl_sandbox" where
  "sample_wsl =
     wsl_sandbox_new ''0123abcd9999''
       ((sandbox_config_new ''b x'' :: nat sandbox_config)\<lparr>
          sc_mounts := [HostDir ''/h'' ''/home'' False ''h'', VfsMount ''/mnt/mem'' 0 False ''mem'']\<rparr>)"

definition sample_wsl_world :: "byte list \<Rightarrow> bool \<Rightarrow> (nat, nat) wsl_world" where
  "sample_wsl_world listing spawns =
     \<lparr>ww_host = 0,
      ww_run = (\<lambda>c h. (Ok \<lparr>po_code = Some 0, po_stdout = listing, po_stderr = []\<rparr>, h + 1)),
      ww_status_text = (\<lambda>_. ''exit code''), ww_env = sample_env\<lparr>pe_exists := (\<lambda>_. False)\<rparr>,
      ww_local_appdata = None, ww_mkdir_fails = (\<lambda>_. None), ww_create_fails = (\<lambda>_. None),
      ww_spawn_fails = (\<lambda>c. if ''mem'' \<in> set (pc_args c) \<and> \<not> spawns then Some ''no'' else None),
      ww_procs = [(0, plain_command ''notepad.exe'' [])], ww_tasks = [], ww_next = 1\<rparr>"

definition sample_listing :: "string list" where
  "sample_listing = [''Debian1'', ''tokimo-b-x-0123abcd'']"

lemma sample_name: "resolve_distro_name sample_wsl = ''tokimo-b-x-0123abcd''"
  by (simp add: resolve_distro_name_def sample_wsl_def wsl_sandbox_new_def with_wsl_config_def
      wsl_config_default_def sandbox_config_new_def sanitize_def ascii_alphanumeric_def cont_def Let_def)

lemma sample_plain: "list_all plain_name sample_listing" "plain_name ''tokimo-b-x-0123abcd''"
  "even (length (crlf_lines sample_listing))"
  by (simp_all add: sample_listing_def plain_name_def crlf_lines_def)

lemma ensure_listed:
  assumes "run_command (plain_command (wc_wsl_bin (wx_wsl s)) [''--list'', ''--quiet'']) w = (Ok out, w1)"
    and "lists_distro (decode_wsl_text (po_stdout out)) (resolve_distro_name s)"
  shows "ensure_distro (s, w) = (Ok (resolve_distro_name s), s\<lparr>wx_distro := Some (resolve_distro_name s)\<rparr>, w1)"
  using assms by (simp add: ensure_distro_def Let_def)

text \<open>The listing finds the distribution; the second agent can be spawned or not.\<close>

lemma sample_listed:
  "lists_distro (decode_wsl_text (utf16_bytes (crlf_lines sample_listing))) ''tokimo-b-x-0123abcd''"
  using sample_plain by (simp add: decode_utf16 lists_distro_crlf) (simp add: sample_listing_def)

lemma sample_wsl_mounts:
  "sc_mounts (wx_config sample_wsl) = [HostDir ''/h'' ''/home'' False ''h'', VfsMount ''/mnt/mem'' 0 False ''mem'']"
  "wx_state sample_wsl = Created" "wx_children sample_wsl = []" "wx_tasks sample_wsl = []"
  "wc_wsl_bin (wx_wsl sample_wsl) = ''wsl.exe''" "sc_runtime_dir (wx_config sample_wsl) = None"
  by (simp_all add: sample_wsl_def wsl_sandbox_new_def with_wsl_config_def sandbox_config_new_def
      wsl_config_default_def)

lemma sample_ids: "wsl_ids (sample_wsl_world l ok)"
  by (simp add: wsl_ids_def sample_wsl_world_def)

lemma resolve_updates [simp]:
  "resolve_distro_name (s\<lparr>wx_state := x\<rparr>) = resolve_distro_name s"
  "resolve_distro_name (s\<lparr>wx_runtime_dir := y\<rparr>) = resolve_distro_name s"
  by (simp_all add: resolve_distro_name_def split: option.splits)

lemma sample_ensure:
  fixes ok :: bool
  defines "w \<equiv> sample_wsl_world (utf16_bytes (crlf_lines sample_listing)) ok"
  defines "s \<equiv> sample_wsl\<lparr>wx_state := Starting, wx_runtime_dir := Some (default_runtime_dir sample_wsl w)\<rparr>"
  shows "ensure_distro (s, w) =
    (Ok ''tokimo-b-x-0123abcd'', s\<lparr>wx_distro := Some ''tokimo-b-x-0123abcd''\<rparr>, w\<lparr>ww_host := 1\<rparr>)"
proof -
  have "run_command (plain_command (wc_wsl_bin (wx_wsl s)) [''--list'', ''--quiet'']) w =
      (Ok \<lparr>po_code = Some 0, po_stdout = utf16_bytes (crlf_lines sample_listing), po_stderr = []\<rparr>,
       w\<lparr>ww_host := 1\<rparr>)"
    by (simp add: run_command_def sample_wsl_world_def w_def)
  from ensure_listed[OF this] show ?thesis using sample_listed by (simp add: sample_name s_def)
qed

lemma sample_calls:
  "ww_mkdir_fails (sample_wsl_world l ok) = (\<lambda>_. None)" "ww_create_fails (sample_wsl_world l ok) = (\<lambda>_. None)"
  "ww_spawn_fails (sample_wsl_world l ok) = (\<lambda>c. if ''mem'' \<in> set (pc_args c) \<and> \<not> ok then Some ''no'' else None)"
  "ww_procs (sample_wsl_world l ok) = [(0, plain_command ''notepad.exe'' [])]"
  by (simp_all add: sample_wsl_world_def)

lemma sample_wsl_start:
  "\<exists>s' w'. wsl_start (sample_wsl, sample_wsl_world (utf16_bytes (crlf_lines sample_listing)) True) =
     (Done (Ok ()), s', w')"
  using sample_ensure[of True] by (auto simp: wsl_start_def sample_wsl_mounts sample_calls Let_def)

lemma sample_wsl_half:
  "\<exists>s' w'. wsl_start (sample_wsl, sample_wsl_world (utf16_bytes (crlf_lines sample_listing)) False) =
     (Done (Err (Hypervisor ''spawn wsl agent #1: no'')), s', w') \<and> length (ww_procs w') = 2"
proof -
  have "show_nat (Suc 0) = ''1''" by code_simp
  moreover have "show_nat 1 = ''1''" by code_simp
  ultimately show ?thesis using sample_ensure[of False]
    by (auto simp: wsl_start_def sample_wsl_mounts sample_calls Let_def agent_command_def plain_command_def)
qed

text \<open>A WSL sandbox that started has, for each configured mount, an agent in the
  sandbox's distribution that mounts the configured path, and a task that serves the
  mount's provider over that agent's standard streams.\<close>

theorem wsl_start_serves_mounts:
  assumes "wsl_start (s, w) = (Done (Ok u), s', w')" and "m \<in> set (sc_mounts (wx_config s))"
  shows "wx_state s' = Running \<and>
    (\<exists>d pid task. wx_distro s' = Some d \<and> pid \<in> set (wx_children s') \<and> task \<in> set (wx_tasks s') \<and>
       (pid, \<lparr>pc_bin = wc_wsl_bin (wx_wsl s),
              pc_args = [''-d'', d, ''--exec'', ''/sbin/tokimo-agent'', ''--stdio'', ''--mount'',
                ms_guest_path m, ''--tag'', ms_tag m], pc_dir = None, pc_env = []\<rparr>) \<in> set (ww_procs w') \<and>
       (task, pid, mount_provider m) \<in> set (ww_tasks w'))"
proof -
  let ?ms = "sc_mounts (wx_config s)"
  have "wx_state s = Created" using assms(1) by (auto simp: wsl_start_def split: if_splits)
  from wsl_start_effect[OF assms(1) this] obtain ps ts d where
    st: "wx_children s' = wx_children s @ map fst ps" "wx_tasks s' = wx_tasks s @ map fst ts"
      "ww_procs w' = ww_procs w @ ps" "ww_tasks w' = ww_tasks w @ ts" "wx_state s' = Running"
      "wx_distro s' = Some d" "map snd ps = map (agent_command (wc_wsl_bin (wx_wsl s)) d) ?ms"
      "map snd ts = zip (map fst ps) (map mount_provider ?ms)"
    by auto
  obtain i where i: "i < length ?ms" "?ms ! i = m" using assms(2) by (meson in_set_conv_nth)
  have lens: "length ps = length ?ms" using arg_cong[OF st(7), of length] by simp
  then have lent: "length ts = length ?ms" using arg_cong[OF st(8), of length] by simp
  have "map snd ps ! i = agent_command (wc_wsl_bin (wx_wsl s)) d m" unfolding st(7) using i by simp
  then have proc: "ps ! i = (fst (ps ! i), agent_command (wc_wsl_bin (wx_wsl s)) d m)"
    using i lens by (metis nth_map prod.collapse)
  have "map snd ts ! i = (fst (ps ! i), mount_provider m)" unfolding st(8) using i lens by simp
  then have task: "ts ! i = (fst (ts ! i), fst (ps ! i), mount_provider m)"
    using i lent by (metis nth_map prod.collapse)
  have "ps ! i \<in> set ps" "ts ! i \<in> set ts" using i lens lent by simp_all
  then show ?thesis
    using st proc task unfolding agent_command_def plain_command_def
    by (intro conjI exI[of _ d] exI[of _ "fst (ps ! i)"] exI[of _ "fst (ts ! i)"]) auto
qed

theorem wsl_start_serves_mounts_witness:
  "\<exists>s' w' d pid task.
     wsl_start (sample_wsl, sample_wsl_world (utf16_bytes (crlf_lines sample_listing)) True) = (Done (Ok ()), s', w') \<and>
     wx_distro s' = Some d \<and>
     (pid, \<lparr>pc_bin = ''wsl.exe'', pc_args = [''-d'', d, ''--exec'', ''/sbin/tokimo-agent'', ''--stdio'',
        ''--mount'', ''/mnt/mem'', ''--tag'', ''mem''], pc_dir = None, pc_env = []\<rparr>) \<in> set (ww_procs w') \<and>
     (task, pid, ServeVfs 0) \<in> set (ww_tasks w')"
proof -
  obtain s' w' where start: "wsl_start (sample_wsl, sample_wsl_world (utf16_bytes (crlf_lines sample_listing)) True) =
      (Done (Ok ()), s', w')"
    using sample_wsl_start by blast
  have "VfsMount ''/mnt/mem'' 0 False ''mem'' \<in> set (sc_mounts (wx_config sample_wsl))"
    by (simp add: sample_wsl_mounts)
  from wsl_start_serves_mounts[OF start this] obtain d pid task where "wx_distro s' = Some d"
      "(pid, \<lparr>pc_bin = ''wsl.exe'', pc_args = [''-d'', d, ''--exec'', ''/sbin/tokimo-agent'', ''--stdio'',
        ''--mount'', ''/mnt/mem'', ''--tag'', ''mem''], pc_dir = None, pc_env = []\<rparr>) \<in> set (ww_procs w')"
      "(task, pid, ServeVfs 0) \<in> set (ww_tasks w')"
    by (auto simp: sample_wsl_mounts)
  then show ?thesis using start
    by (intro exI[of _ s'] exI[of _ w'] exI[of _ d] exI[of _ pid] exI[of _ task]) simp
qed

text \<open>C25: stopping undoes a start of the WSL backend, however far it got: the processes and
  tasks are those of before, and the state is \<open>Stopped\<close>.\<close>

theorem wsl_stop_undoes_start:
  assumes "wsl_start (s, w) = (r, s1, w1)" and "wx_state s = Created"
    and "wx_children s = []" and "wx_tasks s = []" and "wsl_ids w"
  shows "\<exists>s2 w2. wsl_stop (s1, w1) = (Done (Ok ()), s2, w2) \<and> wx_state s2 = Stopped \<and>
    wx_children s2 = [] \<and> ww_procs w2 = ww_procs w \<and> ww_tasks w2 = ww_tasks w"
proof -
  obtain ps ts where eff: "wx_children s1 = map fst ps" "wx_tasks s1 = map fst ts"
      "ww_procs w1 = ww_procs w @ ps" "ww_tasks w1 = ww_tasks w @ ts"
      "list_all (\<lambda>(p, _). ww_next w \<le> p) ps" "list_all (\<lambda>(t, _). ww_next w \<le> t) ts"
      "wx_state s1 \<noteq> Stopped"
    using wsl_start_effect[OF assms(1,2)] assms(3,4) by (auto split: if_splits)
  have "filter (\<lambda>(p, _). p \<notin> set (wx_children s1)) (ww_procs w1) = ww_procs w"
    "filter (\<lambda>(t, _). t \<notin> set (wx_tasks s1)) (ww_tasks w1) = ww_tasks w"
    using drop_new_ids[OF _ eff(5)] drop_new_ids[OF _ eff(6)] assms(5) unfolding eff(1-4) wsl_ids_def
    by simp_all
  moreover obtain s2 w2 where "wsl_stop (s1, w1) = (Done (Ok ()), s2, w2)" "wx_state s2 = Stopped"
      "wx_children s2 = []" "ww_procs w2 = filter (\<lambda>(p, _). p \<notin> set (wx_children s1)) (ww_procs w1)"
      "ww_tasks w2 = filter (\<lambda>(t, _). t \<notin> set (wx_tasks s1)) (ww_tasks w1)"
    using wsl_stop_effect[OF eff(7), of w1] by (elim exE conjE) (rule that)
  ultimately show ?thesis by (intro exI[of _ s2] exI[of _ w2]) simp
qed

theorem wsl_stop_undoes_start_witness:
  "\<exists>s1 w1 s2 w2. wsl_start (sample_wsl, sample_wsl_world (utf16_bytes (crlf_lines sample_listing)) False) =
       (Done (Err (Hypervisor ''spawn wsl agent #1: no'')), s1, w1) \<and> length (ww_procs w1) = 2 \<and>
     wsl_stop (s1, w1) = (Done (Ok ()), s2, w2) \<and> ww_procs w2 = [(0, plain_command ''notepad.exe'' [])]"
proof -
  obtain s1 w1 where start: "wsl_start (sample_wsl, sample_wsl_world (utf16_bytes (crlf_lines sample_listing)) False) =
      (Done (Err (Hypervisor ''spawn wsl agent #1: no'')), s1, w1)" and two: "length (ww_procs w1) = 2"
    using sample_wsl_half by (elim exE conjE) (rule that)
  obtain s2 w2 where "wsl_stop (s1, w1) = (Done (Ok ()), s2, w2)"
      "ww_procs w2 = ww_procs (sample_wsl_world (utf16_bytes (crlf_lines sample_listing)) False)"
    using wsl_stop_undoes_start[OF start sample_wsl_mounts(2,3,4) sample_ids] by (elim exE conjE) (rule that)
  then show ?thesis using start two
    by (intro exI[of _ s1] exI[of _ w1] exI[of _ s2] exI[of _ w2]) (simp add: sample_calls)
qed

text \<open>A distribution that is in the listing is used without an import when \<^verbatim>\<open>wsl.exe\<close>
  lists in UTF-16; when it lists in ASCII and the listing has an even length, a distribution
  that is there is not found, and without a tarball the start fails.\<close>

theorem wsl_distro_lookup:
  assumes "list_all plain_name names" and "plain_name (resolve_distro_name s)"
    and "resolve_distro_name s \<in> set names"
    and "ww_run w (plain_command (wc_wsl_bin (wx_wsl s)) [''--list'', ''--quiet'']) (ww_host w) = (Ok out, h)"
    and "ww_mkdir_fails w = (\<lambda>_. None)" and "pe_exists (ww_env w) = (\<lambda>_. False)"
  shows "(po_stdout out = utf16_bytes (crlf_lines names) \<longrightarrow>
      ensure_distro (s, w) =
        (Ok (resolve_distro_name s), s\<lparr>wx_distro := Some (resolve_distro_name s)\<rparr>, w\<lparr>ww_host := h\<rparr>)) \<and>
    (po_stdout out = string_bytes (crlf_lines names) \<and> even (length (crlf_lines names)) \<longrightarrow>
      ensure_distro (s, w) =
        (Err (ConfigError (no_tarball_msg (rootfs_tar_of s w))), s, w\<lparr>ww_host := h\<rparr>))"
proof -
  let ?name = "resolve_distro_name s"
  have list: "run_command (plain_command (wc_wsl_bin (wx_wsl s)) [''--list'', ''--quiet'']) w = (Ok out, w\<lparr>ww_host := h\<rparr>)"
    using assms(4) by (simp add: run_command_def)
  have tar: "rootfs_tar_of s (w\<lparr>ww_host := h\<rparr>) = rootfs_tar_of s w" by (simp add: rootfs_tar_of_def split: option.splits)
  have utf16: "lists_distro (decode_wsl_text (po_stdout out)) ?name"
    if "po_stdout out = utf16_bytes (crlf_lines names)"
    using that assms(3) by (simp add: decode_utf16 lists_distro_crlf[OF assms(1,2)])
  have "list_all (\<lambda>b. 0 < unat b \<and> unat b < 0x80) (string_bytes (crlf_lines names))"
    using assms(1) by (induction names) (auto simp: string_bytes_def crlf_lines_def plain_name_def list_all_iff)
  then have ascii: "\<not> lists_distro (decode_wsl_text (po_stdout out)) ?name"
    if "po_stdout out = string_bytes (crlf_lines names)" "even (length (crlf_lines names))"
    using that by (simp add: ascii_not_listed[OF _ _ assms(2)] string_bytes_def)
  show ?thesis
    using utf16 ascii assms(5,6) by (simp add: ensure_distro_def list tar Let_def)
qed

theorem wsl_distro_lookup_witness:
  "fst (ensure_distro (sample_wsl, sample_wsl_world (utf16_bytes (crlf_lines sample_listing)) True)) =
     Ok ''tokimo-b-x-0123abcd'' \<and>
   fst (ensure_distro (sample_wsl, sample_wsl_world (string_bytes (crlf_lines sample_listing)) True)) =
     Err (ConfigError (no_tarball_msg (rootfs_tar_of sample_wsl
       (sample_wsl_world (string_bytes (crlf_lines sample_listing)) True))))"
proof -
  have listed: "resolve_distro_name sample_wsl \<in> set sample_listing"
    and plain: "plain_name (resolve_distro_name sample_wsl)"
    using sample_plain(2) by (simp_all add: sample_name sample_listing_def)
  have run: "ww_run (sample_wsl_world l True) (plain_command (wc_wsl_bin (wx_wsl sample_wsl)) [''--list'', ''--quiet''])
      (ww_host (sample_wsl_world l True)) = (Ok \<lparr>po_code = Some 0, po_stdout = l, po_stderr = []\<rparr>, 1)"
    and calls: "ww_mkdir_fails (sample_wsl_world l True) = (\<lambda>_. None)" "pe_exists (ww_env (sample_wsl_world l True)) = (\<lambda>_. False)" for l
    by (simp_all add: sample_wsl_world_def)
  show ?thesis
    using wsl_distro_lookup[OF sample_plain(1) plain listed run calls] sample_plain(3)
    by (simp add: sample_name)
qed

text \<open>\<^verbatim>\<open>wait\<close> takes the agents out of the sandbox before it waits: when it is given up
  while an agent runs, a later \<^verbatim>\<open>stop\<close> reports success and kills no agent.\<close>

theorem wsl_wait_loses_agents:
  assumes "wsl_wait (s, w) = (Pending, s1, w1)" and "wx_state s \<noteq> Stopped"
  shows "(\<exists>pid \<in> set (wx_children s). map_of (ww_procs w) pid \<noteq> None) \<and>
    (\<exists>s2 w2. wsl_stop (s1, w1) = (Done (Ok ()), s2, w2) \<and> wx_state s2 = Stopped \<and> ww_procs w2 = ww_procs w)"
proof -
  have wait: "s1 = s\<lparr>wx_children := []\<rparr>" "w1 = w" "\<exists>pid \<in> set (wx_children s). map_of (ww_procs w) pid \<noteq> None"
    using assms(1) by (auto simp: wsl_wait_def list_ex_iff split: if_splits)
  have "wx_state s1 \<noteq> Stopped" using wait(1) assms(2) by simp
  then show ?thesis using wsl_stop_effect[of s1 w1] wait by (auto simp: filter_id_conv split_beta)
qed


theorem wsl_wait_loses_agents_witness:
  "\<exists>s2 w2. wsl_stop (sample_wsl\<lparr>wx_state := Running, wx_children := []\<rparr>, sample_wsl_world [] True) =
       (Done (Ok ()), s2, w2) \<and> wx_state s2 = Stopped \<and> ww_procs w2 = [(0, plain_command ''notepad.exe'' [])]"
proof -
  let ?s = "sample_wsl\<lparr>wx_state := Running, wx_children := [0]\<rparr>"
  have procs: "ww_procs (sample_wsl_world [] True) = [(0, plain_command ''notepad.exe'' [])]"
    by (simp add: sample_wsl_world_def)
  then have wait: "wsl_wait (?s, sample_wsl_world [] True) = (Pending, ?s\<lparr>wx_children := []\<rparr>, sample_wsl_world [] True)"
    by (simp add: wsl_wait_def)
  have "wx_state ?s \<noteq> Stopped" by simp
  from wsl_wait_loses_agents[OF wait this] procs show ?thesis by simp
qed

end
