(* ===== verification/Mac_Vm.thy ===== *)
theory Mac_Vm
  imports Sandbox Rust_Text "HOL-Library.Multiset"
begin

text \<open>
  The virtual machine of the macOS backend (\<^verbatim>\<open>tokimo-packages-vm-macos/src/imp.rs\<close>): how it
  is built and started, and the worker thread that owns it and answers commands. Apple's
  framework is a parameter: a machine is a value of type \<open>'m\<close>, and each call into the
  framework gives an outcome and the machine after it.
\<close>

section \<open>Building and starting\<close>

record mac_port =
  mp_name :: string
  mp_fd :: nat

text \<open>What the calls on the framework's configuration objects set; the entropy device, the
  generic platform and the empty list of shared directories are the same for all.\<close>

record vz_config =
  vz_kernel :: path
  vz_initrd :: path
  vz_rootfs :: "path option"  \<comment> \<open>attached read-only\<close>
  vz_cmdline :: string
  vz_cpus :: u32
  vz_memory :: u64
  vz_serial_fd :: nat
  vz_ports :: "mac_port list"
  vz_nat :: bool

datatype 'm boot = Booted 'm | BootFailed string | BootDropped | BootGone

datatype stop_outcome = StopOk | StopFailed string | StopTimeout

record 'm vz =
  va_attach_fails :: "path \<Rightarrow> string option"
  va_invalid :: "vz_config \<Rightarrow> string option"
  va_boot :: "vz_config \<Rightarrow> 'm boot"  \<comment> \<open>\<open>BootGone\<close>: the thread ends without a result\<close>
  va_request_stop :: "'m \<Rightarrow> bool \<times> 'm"
  va_pause :: "'m \<Rightarrow> 'm"  \<comment> \<open>two seconds pass\<close>
  va_stop :: "'m \<Rightarrow> stop_outcome \<times> 'm"

definition utf8_path :: "path \<Rightarrow> bool" where
  "utf8_path p = utf8_valid (string_bytes p)"

text \<open>
  \<^verbatim>\<open>build_and_start_vm\<close>, and whether it got so far that the framework owns the file
  descriptors; it closes those it owns when the machine or its configuration goes away.
  \<open>None\<close>: the thread ends without a result.
\<close>

definition build_and_start_vm :: "'m vz \<Rightarrow> vz_config \<Rightarrow> ('m, error) result option \<times> bool" where
  "build_and_start_vm z c =
     (if \<not> utf8_path (vz_kernel c) then (Some (Err (ConfigError (''kernel path: '' @ display_path (vz_kernel c)))), False)
      else if \<not> utf8_path (vz_initrd c) then (Some (Err (ConfigError (''initrd path: '' @ display_path (vz_initrd c)))), False)
      else
        case (case vz_rootfs c of
                None \<Rightarrow> None
              | Some r \<Rightarrow>
                  if \<not> utf8_path r then Some (ConfigError (''rootfs: '' @ display_path r))
                  else map_option (\<lambda>e. Hypervisor (''rootfs attach: '' @ e)) (va_attach_fails z r)) of
          Some e \<Rightarrow> (Some (Err e), True)
        | None \<Rightarrow>
            (case va_invalid z c of
               Some e \<Rightarrow> (Some (Err (ConfigError (''VZ config invalid: '' @ e))), True)
             | None \<Rightarrow>
                 (case va_boot z c of
                    Booted m \<Rightarrow> (Some (Ok m), True)
                  | BootFailed e \<Rightarrow> (Some (Err (Hypervisor (''VM start: '' @ e))), True)
                  | BootDropped \<Rightarrow> (Some (Err (Hypervisor ''VM start completion dropped'')), True)
                  | BootGone \<Rightarrow> (None, True))))"

definition request_stop_blocking :: "'m vz \<Rightarrow> 'm \<Rightarrow> (unit, error) result \<times> 'm" where
  "request_stop_blocking z m =
     (case va_request_stop z m of
        (ok, m1) \<Rightarrow>
          (case va_stop z (if ok then va_pause z m1 else m1) of
             (StopOk, m2) \<Rightarrow> (Ok (), m2)
           | (StopFailed e, m2) \<Rightarrow> (Err (Hypervisor (''VM stop: '' @ e)), m2)
           | (StopTimeout, m2) \<Rightarrow> (Err (Hypervisor ''VM stop timed out''), m2)))"


section \<open>The worker thread\<close>

text \<open>A command carries the channel its answer goes to.\<close>

datatype vm_cmd = CStop nat | CWait nat | CShutdown

type_synonym answer = "nat \<times> (unit, error) result"

record 'm vm_thread =
  vt_vm :: 'm
  vt_stopped :: bool
  vt_waiters :: "nat list"

definition answer_all :: "nat list \<Rightarrow> answer list" where
  "answer_all rs = map (\<lambda>r. (r, Ok ())) rs"

text \<open>One command: the thread after it, or the machine as it is dropped, and the answers.\<close>

datatype 'm vm_after = Going "'m vm_thread" | Gone 'm

fun vm_command :: "'m vz \<Rightarrow> vm_cmd \<Rightarrow> 'm vm_thread \<Rightarrow> 'm vm_after \<times> answer list" where
  "vm_command z (CStop r) t =
     (if vt_stopped t then (Going t, [(r, Ok ())])
      else case request_stop_blocking z (vt_vm t) of
             (res, m) \<Rightarrow>
               if is_ok res
               then (Going \<lparr>vt_vm = m, vt_stopped = True, vt_waiters = []\<rparr>, answer_all (vt_waiters t) @ [(r, res)])
               else (Going (t\<lparr>vt_vm := m\<rparr>), [(r, res)]))"
| "vm_command z (CWait r) t =
     (if vt_stopped t then (Going t, [(r, Ok ())]) else (Going (t\<lparr>vt_waiters := vt_waiters t @ [r]\<rparr>), []))"
| "vm_command z CShutdown t =
     (Gone (if vt_stopped t then vt_vm t else snd (request_stop_blocking z (vt_vm t))), answer_all (vt_waiters t))"

fun vm_loop :: "'m vz \<Rightarrow> vm_cmd list \<Rightarrow> 'm vm_thread \<Rightarrow> 'm vm_after \<times> answer list" where
  "vm_loop z [] t = (Going t, [])"
| "vm_loop z (c # cs) t =
     (case vm_command z c t of
        (Gone m, as) \<Rightarrow> (Gone m, as)
      | (Going t1, as) \<Rightarrow> (case vm_loop z cs t1 of (a, bs) \<Rightarrow> (a, as @ bs)))"


section \<open>Answers\<close>

fun channel :: "vm_cmd \<Rightarrow> nat list" where
  "channel (CStop r) = [r]"
| "channel (CWait r) = [r]"
| "channel CShutdown = []"

fun waiting :: "'m vm_after \<Rightarrow> nat list" where
  "waiting (Going t) = vt_waiters t"
| "waiting (Gone m) = []"

lemma answer_channels [simp]: "image_mset fst (mset (answer_all rs)) = mset rs"
  by (simp add: answer_all_def image_mset.compositionality comp_def)

lemma answer_all_ok: "(r, res) \<in> set (answer_all rs) \<Longrightarrow> res = Ok ()"
  by (auto simp: answer_all_def)

text \<open>Every channel received is answered or waiting, none twice.\<close>

lemma vm_command_channels:
  assumes "vm_command z c t = (a, as)"
  shows "mset (map fst as) + mset (waiting a) = mset (vt_waiters t) + mset (channel c)"
  using assms by (cases c) (auto split: if_splits prod.splits)

lemma vm_loop_channels:
  assumes "vm_loop z cs t = (Going t', as)"
  shows "mset (map fst as) + mset (vt_waiters t') = mset (vt_waiters t) + mset (concat (map channel cs))"
  using assms
proof (induction cs arbitrary: t as)
  case Nil
  then show ?case by simp
next
  case (Cons c cs)
  obtain a bs where c: "vm_command z c t = (a, bs)" by (cases "vm_command z c t")
  then obtain t1 ds where a: "a = Going t1" and l: "vm_loop z cs t1 = (Going t', ds)" and as: "as = bs @ ds"
    using Cons.prems by (auto split: vm_after.splits prod.splits)
  show ?case
    using Cons.IH[OF l] vm_command_channels[OF c] unfolding a as
    by (simp add: add.assoc)
qed

lemma vm_loop_append:
  "vm_loop z (cs @ ds) t =
     (case vm_loop z cs t of
        (Gone m, as) \<Rightarrow> (Gone m, as)
      | (Going t1, as) \<Rightarrow> (case vm_loop z ds t1 of (a, bs) \<Rightarrow> (a, as @ bs)))"
  by (induction cs arbitrary: t) (auto split: vm_after.splits prod.splits)

lemma vm_loop_going: "CShutdown \<notin> set cs \<Longrightarrow> \<exists>t' as. vm_loop z cs t = (Going t', as)"
proof (induction cs arbitrary: t)
  case Nil
  then show ?case by simp
next
  case (Cons c cs)
  have "\<exists>t1 as. vm_command z c t = (Going t1, as)"
    using Cons.prems by (cases c; cases "request_stop_blocking z (vt_vm t)") auto
  then obtain t1 as where "vm_command z c t = (Going t1, as)" by blast
  moreover obtain t2 bs where "vm_loop z cs t1 = (Going t2, bs)" using Cons.IH[of t1] Cons.prems by auto
  ultimately show ?case by simp
qed

end
