(* ===== verification/Mac_Backend.thy ===== *)
theory Mac_Backend
  imports Mac_Vm Cmdline Qemu
begin

text \<open>
  The macOS backend (\<^verbatim>\<open>tokimo-packages-vm-macos/src/\<close>: \<^verbatim>\<open>lib.rs\<close>, \<^verbatim>\<open>Inner\<close> in \<^verbatim>\<open>imp.rs\<close>,
  \<^verbatim>\<open>runtime.rs\<close>), and its stand-in on other systems. The world holds the tasks that serve
  a mount at the host end of a socket pair, the guest ends that are open, and the worker
  threads with their machines. A call to the worker thread is a command and its answer.
\<close>

section \<open>The world\<close>

record ('m, 'v) mac_world =
  mw_env :: proc_env
  mw_tasks :: "(nat \<times> 'v served) list"  \<comment> \<open>the socket pair a task serves, and what it serves\<close>
  mw_open :: "nat list"  \<comment> \<open>open guest ends and log files\<close>
  mw_threads :: "nat \<Rightarrow> (vz_config \<times> 'm vm_thread) option"
  mw_next :: nat
  mw_mkdir_fails :: "path \<Rightarrow> string option"
  mw_create_fails :: "path \<Rightarrow> string option"
  mw_append_fails :: "path \<Rightarrow> string option"
  mw_socket_fails :: "nat \<Rightarrow> string option"  \<comment> \<open>making the pair, or using its host end\<close>
  mw_thread_fails :: "string option"

record mac_runtime =
  mr_root :: path
  mr_serial_log :: path

definition mac_runtime_new :: "path \<Rightarrow> ('m, 'v) mac_world \<Rightarrow> (mac_runtime, string) result" where
  "mac_runtime_new root w =
     (case mw_mkdir_fails w root of
        Some e \<Rightarrow> Err e
      | None \<Rightarrow>
          let log = path_join root ''serial.log''
          in case mw_create_fails w log of
               Some e \<Rightarrow> Err e
             | None \<Rightarrow> Ok \<lparr>mr_root = root, mr_serial_log = log\<rparr>)"

definition mac_default_runtime_root :: "proc_env \<Rightarrow> string \<Rightarrow> path" where
  "mac_default_runtime_root env name =
     path_join (pe_temp_dir env) (''tokimo-'' @ name @ ''-'' @ show_nat (pe_pid env))"


section \<open>\<^verbatim>\<open>Inner\<close>\<close>

record mac_inner =
  mi_thread :: nat
  mi_tasks :: "nat list"

text \<open>The loop over the mounts: a socket pair each, a task on its host end. The guest end is
  a bare descriptor: nothing closes it when a later step fails.\<close>

type_synonym wired = "mac_port list \<times> (string \<times> string) list"

fun wire_mounts :: "'v mount_spec list \<Rightarrow> wired \<Rightarrow> ('m, 'v) mac_world \<Rightarrow> (wired, error) result \<times> ('m, 'v) mac_world" where
  "wire_mounts [] acc w = (Ok acc, w)"
| "wire_mounts (m # ms) (ports, mounts) w =
     (let p = mw_next w in
      case mw_socket_fails w p of
        Some e \<Rightarrow> (Err (IoError e), w)
      | None \<Rightarrow>
          wire_mounts ms
            (ports @ [\<lparr>mp_name = ''tokimo.rpc.'' @ ms_tag m, mp_fd = p\<rparr>], mounts @ [(ms_tag m, ms_guest_path m)])
            (w\<lparr>mw_next := p + 1, mw_tasks := mw_tasks w @ [(p, mount_provider m)], mw_open := mw_open w @ [p]\<rparr>))"

definition mac_config :: "'v sandbox_config \<Rightarrow> image_paths \<Rightarrow> mac_port list \<Rightarrow> (string \<times> string) list \<Rightarrow> nat \<Rightarrow> vz_config" where
  "mac_config cfg img ports mounts serial =
     \<lparr>vz_kernel = im_kernel img, vz_initrd = im_initrd img, vz_rootfs = im_rootfs img,
      vz_cmdline = mac_build_cmdline (sc_extra_cmdline cfg) mounts (im_rootfs img \<noteq> None),
      vz_cpus = sc_vcpus cfg, vz_memory = ucast (sc_memory_mib cfg) * 1024 * 1024,
      vz_serial_fd = serial, vz_ports = ports, vz_nat = ns_user_mode (sc_network cfg)\<rparr>"

definition config_fds :: "vz_config \<Rightarrow> nat list" where
  "config_fds c = vz_serial_fd c # map mp_fd (vz_ports c)"

definition close_fds :: "nat list \<Rightarrow> ('m, 'v) mac_world \<Rightarrow> ('m, 'v) mac_world" where
  "close_fds fds w = w\<lparr>mw_open := filter (\<lambda>fd. fd \<notin> set fds) (mw_open w)\<rparr>"

text \<open>The worker thread, up to the result it sends back.\<close>

definition spawn_vm :: "'m vz \<Rightarrow> vz_config \<Rightarrow> ('m, 'v) mac_world \<Rightarrow> (nat, error) result \<times> ('m, 'v) mac_world" where
  "spawn_vm z c w =
     (case mw_thread_fails w of
        Some e \<Rightarrow> (Err (IoError e), w)
      | None \<Rightarrow>
          let t = mw_next w; w1 = w\<lparr>mw_next := t + 1\<rparr>
          in case build_and_start_vm z c of
               (Some (Ok m), _) \<Rightarrow>
                 (Ok t, w1\<lparr>mw_threads := (mw_threads w1)(t \<mapsto> (c, \<lparr>vt_vm = m, vt_stopped = False, vt_waiters = []\<rparr>))\<rparr>)
             | (Some (Err e), owned) \<Rightarrow> (Err e, if owned then close_fds (config_fds c) w1 else w1)
             | (None, owned) \<Rightarrow>
                 (Err (Hypervisor ''VM thread exited before start result''),
                  if owned then close_fds (config_fds c) w1 else w1))"

definition mac_no_image_msg :: string where
  "mac_no_image_msg = ''no image (set TOKIMO_IMG_DIR or build img/)''"

definition inner_start ::
    "'m vz \<Rightarrow> 'v sandbox_config \<Rightarrow> ('m, 'v) mac_world \<Rightarrow> (mac_inner \<times> path, error) result \<times> ('m, 'v) mac_world" where
  "inner_start z cfg w =
     (case (case sc_image cfg of Some im \<Rightarrow> Some im | None \<Rightarrow> from_env_or_default (mw_env w)) of
        None \<Rightarrow> (Err (ConfigError mac_no_image_msg), w)
      | Some img \<Rightarrow>
          let root = (case sc_runtime_dir cfg of
                        Some r \<Rightarrow> r | None \<Rightarrow> mac_default_runtime_root (mw_env w) (sc_name cfg))
          in case mac_runtime_new root w of
               Err e \<Rightarrow> (Err (IoError e), w)
             | Ok rt \<Rightarrow>
                 (case wire_mounts (sc_mounts cfg) ([], []) w of
                    (Err e, w1) \<Rightarrow> (Err e, w1)
                  | (Ok (ports, mounts), w1) \<Rightarrow>
                      (case mw_append_fails w1 (mr_serial_log rt) of
                         Some e \<Rightarrow> (Err (IoError e), w1)
                       | None \<Rightarrow>
                           let fd = mw_next w1;
                               w2 = w1\<lparr>mw_next := fd + 1, mw_open := mw_open w1 @ [fd]\<rparr>
                           in case spawn_vm z (mac_config cfg img ports mounts fd) w2 of
                                (Err e, w3) \<Rightarrow> (Err e, w3)
                              | (Ok t, w3) \<Rightarrow>
                                  (Ok (\<lparr>mi_thread = t, mi_tasks = map mp_fd ports\<rparr>, mr_serial_log rt), w3))))"

text \<open>A command to the worker thread; \<open>None\<close> when the thread has ended. A thread that ends
  drops its machine, which closes the descriptors the framework owns.\<close>

definition send_cmd :: "'m vz \<Rightarrow> nat \<Rightarrow> vm_cmd \<Rightarrow> ('m, 'v) mac_world \<Rightarrow> answer list option \<times> ('m, 'v) mac_world" where
  "send_cmd z t c w =
     (case mw_threads w t of
        None \<Rightarrow> (None, w)
      | Some (cfg, th) \<Rightarrow>
          (case vm_command z c th of
             (Going th1, as) \<Rightarrow> (Some as, w\<lparr>mw_threads := (mw_threads w)(t \<mapsto> (cfg, th1))\<rparr>)
           | (Gone _, as) \<Rightarrow>
               (Some as, close_fds (config_fds cfg) (w\<lparr>mw_threads := (mw_threads w)(t := None)\<rparr>))))"

definition inner_stop :: "'m vz \<Rightarrow> mac_inner \<Rightarrow> ('m, 'v) mac_world \<Rightarrow> (unit, error) result awaited \<times> ('m, 'v) mac_world" where
  "inner_stop z inner w =
     (let r = mw_next w in
      case send_cmd z (mi_thread inner) (CStop r) (w\<lparr>mw_next := r + 1\<rparr>) of
        (None, w1) \<Rightarrow> (Done (Ok ()), w1)
      | (Some as, w1) \<Rightarrow>
          (case map_of as r of
             None \<Rightarrow> (Pending, w1)
           | Some res \<Rightarrow> (Done res, snd (send_cmd z (mi_thread inner) CShutdown w1))))"

definition inner_wait :: "'m vz \<Rightarrow> mac_inner \<Rightarrow> ('m, 'v) mac_world \<Rightarrow> (unit, error) result awaited \<times> ('m, 'v) mac_world" where
  "inner_wait z inner w =
     (let r = mw_next w in
      case send_cmd z (mi_thread inner) (CWait r) (w\<lparr>mw_next := r + 1\<rparr>) of
        (None, w1) \<Rightarrow> (Done (Ok ()), w1)
      | (Some as, w1) \<Rightarrow> (case map_of as r of None \<Rightarrow> (Pending, w1) | Some res \<Rightarrow> (Done res, w1)))"

definition inner_drop :: "'m vz \<Rightarrow> mac_inner \<Rightarrow> ('m, 'v) mac_world \<Rightarrow> ('m, 'v) mac_world" where
  "inner_drop z inner w = snd (send_cmd z (mi_thread inner) CShutdown w)"


section \<open>\<^verbatim>\<open>MacosSandbox\<close>\<close>

record 'v mac_sandbox =
  mx_config :: "'v sandbox_config"
  mx_state :: sandbox_state
  mx_inner :: "mac_inner option"
  mx_serial_log :: "path option"

definition mac_sandbox_new :: "'v sandbox_config \<Rightarrow> 'v mac_sandbox" where
  "mac_sandbox_new cfg = \<lparr>mx_config = cfg, mx_state = Created, mx_inner = None, mx_serial_log = None\<rparr>"

type_synonym ('m, 'v) mac = "'v mac_sandbox \<times> ('m, 'v) mac_world"

definition mac_start :: "'m vz \<Rightarrow> ('m, 'v) mac life_call" where
  "mac_start z = (\<lambda>(s, w).
     if mx_state s \<noteq> Created then (Done (Err AlreadyStarted), s, w)
     else
       case inner_start z (mx_config s) w of
         (Ok (inner, log), w1) \<Rightarrow>
           (Done (Ok ()), s\<lparr>mx_inner := Some inner, mx_serial_log := Some log, mx_state := Running\<rparr>, w1)
       | (Err e, w1) \<Rightarrow> (Done (Err e), s\<lparr>mx_state := FailedState\<rparr>, w1))"

definition mac_stop :: "'m vz \<Rightarrow> ('m, 'v) mac life_call" where
  "mac_stop z = (\<lambda>(s, w).
     if mx_state s \<noteq> Running \<and> mx_state s \<noteq> Starting then (Done (Ok ()), s, w)
     else
       let s1 = s\<lparr>mx_state := Stopping, mx_inner := None\<rparr>
       in case mx_inner s of
            None \<Rightarrow> (Done (Ok ()), s1\<lparr>mx_state := Stopped\<rparr>, w)
          | Some inner \<Rightarrow>
              (case inner_stop z inner w of
                 (Pending, w1) \<Rightarrow> (Pending, s1, w1)
               | (Done (Err e), w1) \<Rightarrow> (Done (Err e), s1, w1)
               | (Done (Ok _), w1) \<Rightarrow> (Done (Ok ()), s1\<lparr>mx_state := Stopped\<rparr>, w1)))"

definition mac_wait :: "'m vz \<Rightarrow> ('m, 'v) mac life_call" where
  "mac_wait z = (\<lambda>(s, w).
     case mx_inner s of
       None \<Rightarrow> (Done (Ok ()), s, w)
     | Some inner \<Rightarrow>
         (case inner_wait z inner w of
            (Pending, w1) \<Rightarrow> (Pending, s, w1)
          | (Done (Err e), w1) \<Rightarrow> (Done (Err e), s, w1)
          | (Done (Ok _), w1) \<Rightarrow> (Done (Ok ()), s\<lparr>mx_state := Stopped\<rparr>, w1)))"

definition mac_add_mount :: "'v mount_spec \<Rightarrow> ('m, 'v) mac \<Rightarrow> (uid, error) result \<times> ('m, 'v) mac" where
  "mac_add_mount m sw =
     (Err (Unsupported (''hot mount add not yet implemented on macOS '' @ [CHR 0xE2, CHR 0x80, CHR 0x94] @
        '' declare mounts in SandboxConfig'')), sw)"

definition mac_remove_mount :: "uid \<Rightarrow> ('m, 'v) mac \<Rightarrow> (unit, error) result \<times> ('m, 'v) mac" where
  "mac_remove_mount i sw = (Err (Unsupported ''hot mount remove not yet implemented on macOS''), sw)"

definition mac_exec :: "exec_spec \<Rightarrow> ('m, 'v) mac \<Rightarrow> (exec_output, error) result \<times> ('m, 'v) mac" where
  "mac_exec e sw = (Err (Unsupported ''guest exec requires a guest agent (not yet wired up in v0.1)''), sw)"

definition mac_serial_log_path :: "'v mac_sandbox \<Rightarrow> path option" where
  "mac_serial_log_path s = mx_serial_log s"

definition mac_drop :: "'m vz \<Rightarrow> ('m, 'v) mac \<Rightarrow> ('m, 'v) mac_world" where
  "mac_drop z = (\<lambda>(s, w). case mx_inner s of None \<Rightarrow> w | Some inner \<Rightarrow> inner_drop z inner w)"


section \<open>The stand-in on other systems\<close>

definition stub_error :: error where
  "stub_error = Unsupported ''macOS backend only runs on macOS''"

definition stub_life :: "('v sandbox_config \<times> sandbox_state) life_call" where
  "stub_life s = (Done (Err stub_error), s)"

definition stub_call :: "'v sandbox_config \<times> sandbox_state \<Rightarrow> ('a, error) result \<times> 'v sandbox_config \<times> sandbox_state" where
  "stub_call s = (Err stub_error, s)"


text \<open>The memory size does not wrap.\<close>

lemma memory_exact: "unat (ucast (m :: u32) * 1024 * 1024 :: u64) = unat m * 2 ^ 20"
proof -
  have "unat m < 2 ^ 32" using unsigned_less[of m, where 'a = nat] by simp
  then have "unat m * 2 ^ 20 < 2 ^ 64" by simp
  moreover have "(ucast m * 1024 * 1024 :: u64) = of_nat (unat m * 2 ^ 20)"
    by (simp add: mult.assoc)
  ultimately show ?thesis using unat_of_nat_u64 by metis
qed

end
