(* ===== verification/Mac_Props.thy ===== *)
theory Mac_Props
  imports Mac_Backend
begin

text \<open>
  The macOS backend: what a successful \<^verbatim>\<open>start\<close> has wired, that the worker thread answers
  every call once, that \<^verbatim>\<open>stop\<close> always ends the machine, and the two places where the
  code does not do what it means to: \<^verbatim>\<open>wait\<close> on a running machine never returns, and a
  failed \<^verbatim>\<open>start\<close> leaves tasks and descriptors behind. The backend and its stand-in are
  instances of the life-cycle interface.
\<close>

section \<open>What each stage touches\<close>

lemma wire_mounts_ok:
  assumes "wire_mounts ms (ports, mounts) w = (Ok (ports', mounts'), w')"
  shows "ports' = ports @ map2 (\<lambda>p m. \<lparr>mp_name = ''tokimo.rpc.'' @ ms_tag m, mp_fd = p\<rparr>) [mw_next w..<mw_next w + length ms] ms \<and>
    mounts' = mounts @ map (\<lambda>m. (ms_tag m, ms_guest_path m)) ms \<and>
    mw_tasks w' = mw_tasks w @ zip [mw_next w..<mw_next w + length ms] (map mount_provider ms) \<and>
    mw_open w' = mw_open w @ [mw_next w..<mw_next w + length ms] \<and> mw_next w' = mw_next w + length ms \<and>
    mw_threads w' = mw_threads w"
  using assms
proof (induction ms arbitrary: ports mounts w)
  case Nil
  then show ?case by simp
next
  case (Cons m ms)
  let ?p = "mw_next w"
  let ?w1 = "w\<lparr>mw_next := ?p + 1, mw_tasks := mw_tasks w @ [(?p, mount_provider m)], mw_open := mw_open w @ [?p]\<rparr>"
  have "mw_socket_fails w ?p = None" using Cons.prems by (auto simp: Let_def split: option.splits)
  then have rest: "wire_mounts ms (ports @ [\<lparr>mp_name = ''tokimo.rpc.'' @ ms_tag m, mp_fd = ?p\<rparr>],
      mounts @ [(ms_tag m, ms_guest_path m)]) ?w1 = (Ok (ports', mounts'), w')"
    using Cons.prems by (simp add: Let_def)
  have range: "[?p..<?p + length (m # ms)] = ?p # [?p + 1..<?p + 1 + length ms]"
    using upt_conv_Cons[of ?p "?p + length (m # ms)"] by (simp del: upt_Suc)
  show ?case using Cons.IH[OF rest] unfolding range by simp
qed

lemma wire_mounts_fail:
  assumes "\<forall>i < length ms. mw_socket_fails w (mw_next w + i) = None"
    and "mw_socket_fails w (mw_next w + length ms) = Some e"
  shows "\<exists>w'. wire_mounts (ms @ m # ms') acc w = (Err (IoError e), w') \<and>
    mw_tasks w' = mw_tasks w @ zip [mw_next w..<mw_next w + length ms] (map mount_provider ms) \<and>
    mw_open w' = mw_open w @ [mw_next w..<mw_next w + length ms]"
  using assms
proof (induction ms arbitrary: acc w)
  case Nil
  obtain ports mounts where "acc = (ports, mounts)" by (cases acc)
  then show ?case using Nil by simp
next
  case (Cons m0 ms)
  let ?p = "mw_next w"
  let ?w1 = "w\<lparr>mw_next := ?p + 1, mw_tasks := mw_tasks w @ [(?p, mount_provider m0)], mw_open := mw_open w @ [?p]\<rparr>"
  obtain ports mounts where acc: "acc = (ports, mounts)" by (cases acc)
  have "\<forall>i < length ms. mw_socket_fails ?w1 (mw_next ?w1 + i) = None"
  proof (intro allI impI)
    fix i assume "i < length ms"
    then show "mw_socket_fails ?w1 (mw_next ?w1 + i) = None" using spec[OF Cons.prems(1), of "Suc i"] by simp
  qed
  moreover have "mw_socket_fails ?w1 (mw_next ?w1 + length ms) = Some e" using Cons.prems(2) by simp
  ultimately obtain w' where rest:
    "wire_mounts (ms @ m # ms') (ports @ [\<lparr>mp_name = ''tokimo.rpc.'' @ ms_tag m0, mp_fd = ?p\<rparr>],
       mounts @ [(ms_tag m0, ms_guest_path m0)]) ?w1 = (Err (IoError e), w')"
    "mw_tasks w' = mw_tasks ?w1 @ zip [mw_next ?w1..<mw_next ?w1 + length ms] (map mount_provider ms)"
    "mw_open w' = mw_open ?w1 @ [mw_next ?w1..<mw_next ?w1 + length ms]"
    using Cons.IH by blast
  have range: "[?p..<?p + length (m0 # ms)] = ?p # [?p + 1..<?p + 1 + length ms]"
    using upt_conv_Cons[of ?p "?p + length (m0 # ms)"] by (simp del: upt_Suc)
  have "mw_socket_fails w ?p = None" using spec[OF Cons.prems(1), of 0] by simp
  then show ?case unfolding acc range using rest by (simp add: Let_def del: upt_Suc)
qed

text \<open>A start that succeeded: its image, its ports, its serial log, its machine.\<close>

lemma inner_start_ok:
  assumes "inner_start z cfg w = (Ok (inner, log), w')"
  shows "\<exists>img serial m. let n = mw_next w; ms = sc_mounts cfg;
      ports = map2 (\<lambda>p m. \<lparr>mp_name = ''tokimo.rpc.'' @ ms_tag m, mp_fd = p\<rparr>) [n..<n + length ms] ms;
      c = mac_config cfg img ports (map (\<lambda>m. (ms_tag m, ms_guest_path m)) ms) serial
    in build_and_start_vm z c = (Some (Ok m), True) \<and>
      mw_threads w' = (mw_threads w)(mi_thread inner \<mapsto> (c, \<lparr>vt_vm = m, vt_stopped = False, vt_waiters = []\<rparr>)) \<and>
      mw_tasks w' = mw_tasks w @ zip [n..<n + length ms] (map mount_provider ms) \<and>
      mw_open w' = mw_open w @ [n..<n + length ms] @ [serial]"
proof -
  let ?n = "mw_next w" and ?ms = "sc_mounts cfg"
  obtain img rt where img: "(case sc_image cfg of Some im \<Rightarrow> Some im | None \<Rightarrow> from_env_or_default (mw_env w)) = Some img"
      and rt: "mac_runtime_new (case sc_runtime_dir cfg of Some r \<Rightarrow> r
        | None \<Rightarrow> mac_default_runtime_root (mw_env w) (sc_name cfg)) w = Ok rt"
    using assms by (auto simp: inner_start_def Let_def split: option.splits result.splits)
  obtain rw w1 where wr: "wire_mounts ?ms ([], []) w = (rw, w1)" by (cases "wire_mounts ?ms ([], []) w")
  obtain ports mounts where ok: "rw = Ok (ports, mounts)"
    using assms img rt wr by (cases rw) (auto simp: inner_start_def Let_def)
  note wired = wire_mounts_ok[OF wr[unfolded ok]]
  let ?fd = "mw_next w1"
  let ?w2 = "w1\<lparr>mw_next := ?fd + 1, mw_open := mw_open w1 @ [?fd]\<rparr>"
  let ?c = "mac_config cfg img ports mounts ?fd"
  have "mw_append_fails w1 (mr_serial_log rt) = None"
    using assms img rt wr ok by (auto simp: inner_start_def Let_def split: option.splits)
  moreover obtain rs w3 where sp: "spawn_vm z ?c ?w2 = (rs, w3)" by (cases "spawn_vm z ?c ?w2")
  ultimately have fin: "rs = Ok (mi_thread inner) \<and> w' = w3"
    using assms img rt wr ok by (cases rs) (auto simp: inner_start_def Let_def)
  obtain m where m: "build_and_start_vm z ?c = (Some (Ok m), True)"
      "w3 = ?w2\<lparr>mw_next := mw_next ?w2 + 1, mw_threads := (mw_threads ?w2)(mi_thread inner \<mapsto>
        (?c, \<lparr>vt_vm = m, vt_stopped = False, vt_waiters = []\<rparr>))\<rparr>"
    using sp fin
    by (auto simp: spawn_vm_def build_and_start_vm_def Let_def
        split: option.splits prod.splits result.splits boot.splits if_splits)
  show ?thesis
    unfolding Let_def using wired m fin
    by (intro exI[of _ img] exI[of _ ?fd] exI[of _ m]) (simp add: wired del: upt_Suc)
qed


section \<open>The state the operations keep\<close>

text \<open>The sandbox is running exactly while it holds a worker thread, whose machine has not
  been stopped.\<close>

definition mac_live :: "('m, 'v) mac \<Rightarrow> bool" where
  "mac_live sw \<longleftrightarrow>
     (case mx_inner (fst sw) of
        None \<Rightarrow> mx_state (fst sw) \<noteq> Running
      | Some i \<Rightarrow> mx_state (fst sw) = Running \<and>
          (\<exists>c th. mw_threads (snd sw) (mi_thread i) = Some (c, th) \<and> \<not> vt_stopped th))"

lemma mac_new_live: "mac_live (mac_sandbox_new cfg, w)"
  by (simp add: mac_live_def mac_sandbox_new_def)

lemma mac_start_live: "mac_live sw \<Longrightarrow> mac_live (snd (mac_start z sw))"
proof -
  assume live: "mac_live sw"
  obtain s w where sw: "sw = (s, w)" by (cases sw)
  show ?thesis
  proof (cases "mx_state s = Created")
    case False
    then show ?thesis using live by (simp add: sw mac_start_def)
  next
    case True
    then have none: "mx_inner s = None" using live by (auto simp: sw mac_live_def split: option.splits)
    obtain r w1 where st: "inner_start z (mx_config s) w = (r, w1)" by (cases "inner_start z (mx_config s) w")
    show ?thesis
    proof (cases r)
      case (Ok a)
      obtain inner log where "a = (inner, log)" by (cases a)
      then show ?thesis using True st Ok inner_start_ok[of z "mx_config s" w inner log w1]
        by (auto simp: sw mac_start_def mac_live_def Let_def)
    next
      case (Err e)
      then show ?thesis using True st none by (simp add: sw mac_start_def mac_live_def)
    qed
  qed
qed

lemma send_stop:
  assumes "mw_threads w t = Some (c, th)" and "\<not> vt_stopped th"
    and "request_stop_blocking z (vt_vm th) = (res, m)"
  shows "\<exists>as th1. send_cmd z t (CStop r) w = (Some as, w\<lparr>mw_threads := (mw_threads w)(t \<mapsto> (c, th1))\<rparr>) \<and>
    map_of as r = Some res"
proof -
  have "map_of (answer_all rs @ [(r, Ok ())]) r = Some (Ok ())" for rs
    by (induction rs) (auto simp: answer_all_def)
  then show ?thesis using assms by (cases res) (auto simp: send_cmd_def)
qed

lemma send_wait:
  assumes "mw_threads w t = Some (c, th)" and "\<not> vt_stopped th"
  shows "send_cmd z t (CWait r) w =
    (Some [], w\<lparr>mw_threads := (mw_threads w)(t \<mapsto> (c, th\<lparr>vt_waiters := vt_waiters th @ [r]\<rparr>))\<rparr>)"
  using assms by (simp add: send_cmd_def)

lemma send_shutdown:
  assumes "mw_threads w t = Some (c, th)"
  shows "snd (send_cmd z t CShutdown w) = close_fds (config_fds c) (w\<lparr>mw_threads := (mw_threads w)(t := None)\<rparr>)"
  using assms by (simp add: send_cmd_def)

lemma inner_stop_live:
  assumes "mw_threads w (mi_thread i) = Some (c, th)" and "\<not> vt_stopped th"
  shows "\<exists>w'. inner_stop z i w = (Done (fst (request_stop_blocking z (vt_vm th))), w') \<and>
    mw_threads w' = (mw_threads w)(mi_thread i := None) \<and>
    mw_open w' = filter (\<lambda>fd. fd \<notin> set (config_fds c)) (mw_open w) \<and> mw_tasks w' = mw_tasks w"
proof -
  let ?w0 = "w\<lparr>mw_next := mw_next w + 1\<rparr>"
  obtain res m where res: "request_stop_blocking z (vt_vm th) = (res, m)"
    by (cases "request_stop_blocking z (vt_vm th)")
  have "mw_threads ?w0 (mi_thread i) = Some (c, th)" using assms(1) by simp
  from send_stop[OF this assms(2) res] obtain as th1 where
    sent: "send_cmd z (mi_thread i) (CStop (mw_next w)) ?w0 =
      (Some as, ?w0\<lparr>mw_threads := (mw_threads ?w0)(mi_thread i \<mapsto> (c, th1))\<rparr>)" "map_of as (mw_next w) = Some res"
    by blast
  then show ?thesis
    by (simp add: inner_stop_def Let_def res send_shutdown close_fds_def)
qed

lemma inner_wait_live:
  assumes "mw_threads w (mi_thread i) = Some (c, th)" and "\<not> vt_stopped th"
  shows "\<exists>w' th'. inner_wait z i w = (Pending, w') \<and> mw_threads w' = (mw_threads w)(mi_thread i \<mapsto> (c, th')) \<and>
    \<not> vt_stopped th'"
proof -
  have "mw_threads (w\<lparr>mw_next := mw_next w + 1\<rparr>) (mi_thread i) = Some (c, th)" using assms(1) by simp
  from send_wait[OF this assms(2), of z "mw_next w"] show ?thesis using assms(2)
    by (simp add: inner_wait_def Let_def)
      (intro exI[of _ "th\<lparr>vt_waiters := vt_waiters th @ [mw_next w]\<rparr>"], simp)
qed

lemma mac_stop_live: "mac_live sw \<Longrightarrow> mac_live (snd (mac_stop z sw))"
proof -
  assume live: "mac_live sw"
  obtain s w where sw: "sw = (s, w)" by (cases sw)
  show ?thesis
  proof (cases "mx_inner s")
    case None
    then show ?thesis using live by (simp add: sw mac_stop_def mac_live_def Let_def)
  next
    case (Some i)
    then obtain c th where "mx_state s = Running" "mw_threads w (mi_thread i) = Some (c, th)" "\<not> vt_stopped th"
      using live by (auto simp: sw mac_live_def)
    then show ?thesis using inner_stop_live[of w i c th z] Some
      by (cases "fst (request_stop_blocking z (vt_vm th))") (auto simp: sw mac_stop_def mac_live_def Let_def)
  qed
qed

lemma mac_wait_live: "mac_live sw \<Longrightarrow> mac_live (snd (mac_wait z sw)) \<and>
    (mx_state (fst sw) = Running \<longrightarrow> fst (mac_wait z sw) = Pending)"
proof -
  assume live: "mac_live sw"
  obtain s w where sw: "sw = (s, w)" by (cases sw)
  show ?thesis
  proof (cases "mx_inner s")
    case None
    then show ?thesis using live by (simp add: sw mac_wait_def mac_live_def)
  next
    case (Some i)
    then obtain c th where "mx_state s = Running" "mw_threads w (mi_thread i) = Some (c, th)" "\<not> vt_stopped th"
      using live by (auto simp: sw mac_live_def)
    then show ?thesis using inner_wait_live[of w i c th z] Some
      by (auto simp: sw mac_wait_def mac_live_def)
  qed
qed

text \<open>Histories in which the owner uses the sandbox and the rest of the process leaves it alone.\<close>

fun owner_op :: "'s life_op \<Rightarrow> bool" where
  "owner_op (LWorld g) = False"
| "owner_op _ = True"

lemma mac_run_live:
  "list_all owner_op ops \<Longrightarrow> mac_live sw \<Longrightarrow> mac_live (life_run (mac_start z) (mac_stop z) (mac_wait z) ops sw)"
proof (induction ops arbitrary: sw)
  case Nil
  then show ?case by simp
next
  case (Cons op ops)
  have "mac_live (snd (life_step (mac_start z) (mac_stop z) (mac_wait z) op sw))"
    using Cons.prems mac_start_live[of sw z] mac_stop_live[of sw z] mac_wait_live[of sw z] by (cases op) simp_all
  then show ?case using Cons by simp
qed

interpretation mac: sandbox_backend
  "mac_start z :: ('m, 'v) mac life_call" "mac_stop z" "mac_wait z" "mx_state \<circ> fst" for z :: "'m vz"
proof
  fix sw :: "('m, 'v) mac"
  obtain s w where sw: "sw = (s, w)" by (cases sw)
  show again: "(mx_state \<circ> fst) sw \<noteq> Created \<Longrightarrow> mac_start z sw = (Done (Err AlreadyStarted), sw)"
    by (simp add: sw mac_start_def)
  then show "(mx_state \<circ> fst) sw \<noteq> Created \<Longrightarrow> fst (mac_start z sw) \<noteq> Done (Ok ()) \<and>
      (mx_state \<circ> fst) (snd (mac_start z sw)) \<noteq> Created"
    by simp
  show "(mx_state \<circ> fst) (snd (mac_start z sw)) \<noteq> Created"
    by (auto simp: sw mac_start_def split: result.splits prod.splits)
  show "fst (mac_start z sw) = Done (Ok ()) \<Longrightarrow> (mx_state \<circ> fst) (snd (mac_start z sw)) = Running"
    by (auto simp: sw mac_start_def split: result.splits prod.splits if_splits)
  show "(mx_state \<circ> fst) sw \<noteq> Created \<Longrightarrow> (mx_state \<circ> fst) (snd (mac_stop z sw)) \<noteq> Created"
    by (auto simp: sw mac_stop_def Let_def split: option.splits result.splits prod.splits awaited.splits)
  show "(mx_state \<circ> fst) sw \<in> {Running, Starting} \<Longrightarrow> fst (mac_stop z sw) = Done (Ok ()) \<Longrightarrow>
      (mx_state \<circ> fst) (snd (mac_stop z sw)) = Stopped"
    by (auto simp: sw mac_stop_def Let_def split: option.splits result.splits prod.splits awaited.splits)
  show "(mx_state \<circ> fst) sw \<noteq> Created \<Longrightarrow> (mx_state \<circ> fst) (snd (mac_wait z sw)) \<noteq> Created"
    by (auto simp: sw mac_wait_def split: option.splits result.splits prod.splits awaited.splits)
qed

interpretation stub: sandbox_life stub_life stub_life stub_life snd
  by unfold_locales (simp_all add: stub_life_def)


section \<open>Properties\<close>

text \<open>What a successful start leaves: the machine's configuration, and for each mount a task
  at the number of its port.\<close>

lemma mac_start_ok:
  assumes "mac_start z (s, w) = (Done (Ok u), s', w')"
  obtains inner img serial m where "mx_state s' = Running" "mx_inner s' = Some inner"
    "mw_threads w' (mi_thread inner) = Some
       (mac_config (mx_config s) img
          (map2 (\<lambda>p m. \<lparr>mp_name = ''tokimo.rpc.'' @ ms_tag m, mp_fd = p\<rparr>)
            [mw_next w..<mw_next w + length (sc_mounts (mx_config s))] (sc_mounts (mx_config s)))
          (map (\<lambda>m. (ms_tag m, ms_guest_path m)) (sc_mounts (mx_config s))) serial,
        \<lparr>vt_vm = m, vt_stopped = False, vt_waiters = []\<rparr>)"
    "mw_tasks w' = mw_tasks w @
       zip [mw_next w..<mw_next w + length (sc_mounts (mx_config s))] (map mount_provider (sc_mounts (mx_config s)))"
    "mw_open w' = mw_open w @ [mw_next w..<mw_next w + length (sc_mounts (mx_config s))] @ [serial]"
proof -
  obtain r w1 where st: "inner_start z (mx_config s) w = (r, w1)" by (cases "inner_start z (mx_config s) w")
  have "mx_state s = Created" using assms by (auto simp: mac_start_def split: if_splits)
  then obtain inner log where ok: "r = Ok (inner, log)"
    and s': "s' = s\<lparr>mx_inner := Some inner, mx_serial_log := Some log, mx_state := Running\<rparr>" "w' = w1"
    using assms st by (cases r) (auto simp: mac_start_def)
  show ?thesis using inner_start_ok[OF st[unfolded ok]] s' by (auto simp: Let_def intro!: that)
qed

text \<open>A macOS sandbox that started owns a machine to which every configured mount is
  connected: its \<open>j\<close>-th console port has the tag of the \<open>j\<close>-th mount and an open
  descriptor whose other end is served by the mount's provider; the guest parses the
  configured tags and paths from the command line, and the memory is exact.\<close>

theorem mac_start_wires_mounts:
  assumes "mac_start z (s, w) = (Done (Ok u), s', w')"
    and "list_all no_mount_words (sc_extra_cmdline (mx_config s))"
    and "list_all plain_mount (map (\<lambda>m. (ms_tag m, ms_guest_path m)) (sc_mounts (mx_config s)))"
  shows "mx_state s' = Running \<and>
    (\<exists>i c th. mx_inner s' = Some i \<and> mw_threads w' (mi_thread i) = Some (c, th) \<and>
       unat (vz_memory c) = unat (sc_memory_mib (mx_config s)) * 2 ^ 20 \<and>
       guest_mounts (vz_cmdline c) = map (\<lambda>m. (ms_tag m, ms_guest_path m)) (sc_mounts (mx_config s)) \<and>
       (\<forall>j < length (sc_mounts (mx_config s)). \<exists>fd.
          vz_ports c ! j = \<lparr>mp_name = ''tokimo.rpc.'' @ ms_tag (sc_mounts (mx_config s) ! j), mp_fd = fd\<rparr> \<and>
          (fd, mount_provider (sc_mounts (mx_config s) ! j)) \<in> set (mw_tasks w') \<and> fd \<in> set (mw_open w')))"
proof -
  let ?ms = "sc_mounts (mx_config s)" and ?n = "mw_next w"
  let ?ports = "map2 (\<lambda>p m. \<lparr>mp_name = ''tokimo.rpc.'' @ ms_tag m, mp_fd = p\<rparr>) [?n..<?n + length ?ms] ?ms"
  obtain inner img serial m where eff: "mx_state s' = Running" "mx_inner s' = Some inner"
    "mw_threads w' (mi_thread inner) = Some
       (mac_config (mx_config s) img ?ports (map (\<lambda>m. (ms_tag m, ms_guest_path m)) ?ms) serial,
        \<lparr>vt_vm = m, vt_stopped = False, vt_waiters = []\<rparr>)"
    "mw_tasks w' = mw_tasks w @ zip [?n..<?n + length ?ms] (map mount_provider ?ms)"
    "mw_open w' = mw_open w @ [?n..<?n + length ?ms] @ [serial]"
    by (rule mac_start_ok[OF assms(1)])
  let ?c = "mac_config (mx_config s) img ?ports (map (\<lambda>m. (ms_tag m, ms_guest_path m)) ?ms) serial"
  have mem: "unat (vz_memory ?c) = unat (sc_memory_mib (mx_config s)) * 2 ^ 20"
    by (simp only: mac_config_def vz_config.simps memory_exact)
  have mounts: "guest_mounts (vz_cmdline ?c) = map (\<lambda>m. (ms_tag m, ms_guest_path m)) ?ms"
    using cmdline_mounts_rt[OF assms(3,2)] by (simp add: mac_config_def)
  have port: "vz_ports ?c ! j = \<lparr>mp_name = ''tokimo.rpc.'' @ ms_tag (?ms ! j), mp_fd = ?n + j\<rparr> \<and>
      (?n + j, mount_provider (?ms ! j)) \<in> set (mw_tasks w') \<and> ?n + j \<in> set (mw_open w')"
    if j: "j < length ?ms" for j
  proof -
    have "zip [?n..<?n + length ?ms] (map mount_provider ?ms) ! j = (?n + j, mount_provider (?ms ! j))"
      using j by simp
    then have "(?n + j, mount_provider (?ms ! j)) \<in> set (zip [?n..<?n + length ?ms] (map mount_provider ?ms))"
      using j by (metis (no_types, lifting) length_map length_upt length_zip min.idem nth_mem add_diff_cancel_left')
    then show ?thesis using j eff(4,5) by (simp add: mac_config_def)
  qed
  show ?thesis
    using eff(1-3) mem mounts port
    by (intro conjI exI[of _ inner] exI[of _ ?c] exI[of _ "\<lparr>vt_vm = m, vt_stopped = False, vt_waiters = []\<rparr>"]) auto
qed


text \<open>A machine that stops when asked, one that cannot be stopped, and a sandbox with two mounts.\<close>

definition sample_vz :: "stop_outcome \<Rightarrow> nat vz" where
  "sample_vz out =
     \<lparr>va_attach_fails = (\<lambda>_. None), va_invalid = (\<lambda>_. None), va_boot = (\<lambda>_. Booted 0),
      va_request_stop = (\<lambda>m. (True, m + 1)), va_pause = (\<lambda>m. m), va_stop = (\<lambda>m. (out, m + 1))\<rparr>"

definition sample_mac :: "nat mac_sandbox" where
  "sample_mac =
     mac_sandbox_new ((sandbox_config_new ''t'' :: nat sandbox_config)\<lparr>
       sc_image := Some \<lparr>im_kernel = ''/k'', im_initrd = ''/i'', im_rootfs = None\<rparr>,
       sc_runtime_dir := Some ''/r'',
       sc_mounts := [HostDir ''/h'' ''/home'' False ''h'', VfsMount ''/mnt/mem'' 0 False ''mem'']\<rparr>)"

definition sample_mac_world :: "(nat \<Rightarrow> string option) \<Rightarrow> (nat, nat) mac_world" where
  "sample_mac_world sock =
     \<lparr>mw_env = sample_env, mw_tasks = [], mw_open = [], mw_threads = (\<lambda>_. None), mw_next = 5,
      mw_mkdir_fails = (\<lambda>_. None), mw_create_fails = (\<lambda>_. None), mw_append_fails = (\<lambda>_. None),
      mw_socket_fails = sock, mw_thread_fails = None\<rparr>"

lemma sample_mac_config:
  "mx_state sample_mac = Created" "mx_inner sample_mac = None"
  "sc_mounts (mx_config sample_mac) = [HostDir ''/h'' ''/home'' False ''h'', VfsMount ''/mnt/mem'' 0 False ''mem'']"
  "sc_extra_cmdline (mx_config sample_mac) = []" "sc_runtime_dir (mx_config sample_mac) = Some ''/r''"
  "sc_image (mx_config sample_mac) = Some \<lparr>im_kernel = ''/k'', im_initrd = ''/i'', im_rootfs = None\<rparr>"
  by (simp_all add: sample_mac_def mac_sandbox_new_def sandbox_config_new_def)

lemma sample_utf8: "utf8_path ''/k''" "utf8_path ''/i''"
  by (simp_all add: utf8_path_def string_bytes_def)

lemma sample_boots:
  "build_and_start_vm (sample_vz out) (mac_config cfg \<lparr>im_kernel = ''/k'', im_initrd = ''/i'', im_rootfs = None\<rparr> ps ms fd) =
     (Some (Ok 0), True)"
  by (simp add: build_and_start_vm_def mac_config_def sample_utf8 sample_vz_def)

lemma sample_mac_start:
  "\<exists>s' w'. mac_start (sample_vz out) (sample_mac, sample_mac_world (\<lambda>_. None)) = (Done (Ok ()), s', w')"
  by (simp add: mac_start_def sample_mac_config inner_start_def mac_runtime_new_def sample_mac_world_def
      spawn_vm_def sample_boots Let_def)

theorem mac_start_wires_mounts_witness:
  "\<exists>s' w' i c th fd. mac_start (sample_vz StopOk) (sample_mac, sample_mac_world (\<lambda>_. None)) = (Done (Ok ()), s', w') \<and>
     mx_inner s' = Some i \<and> mw_threads w' (mi_thread i) = Some (c, th) \<and>
     vz_ports c ! 1 = \<lparr>mp_name = ''tokimo.rpc.mem'', mp_fd = fd\<rparr> \<and> (fd, ServeVfs 0) \<in> set (mw_tasks w')"
proof -
  obtain s' w' where start: "mac_start (sample_vz StopOk) (sample_mac, sample_mac_world (\<lambda>_. None)) =
      (Done (Ok ()), s', w')"
    using sample_mac_start by blast
  have plain: "list_all no_mount_words (sc_extra_cmdline (mx_config sample_mac))"
    "list_all plain_mount (map (\<lambda>m. (ms_tag m, ms_guest_path m)) (sc_mounts (mx_config sample_mac)))"
    unfolding sample_mac_config by code_simp+
  obtain i and c :: vz_config and th where wired: "mx_inner s' = Some i" "mw_threads w' (mi_thread i) = Some (c, th)"
      "\<forall>j < length (sc_mounts (mx_config sample_mac)). \<exists>fd.
          vz_ports c ! j = \<lparr>mp_name = ''tokimo.rpc.'' @ ms_tag (sc_mounts (mx_config sample_mac) ! j), mp_fd = fd\<rparr> \<and>
          (fd, mount_provider (sc_mounts (mx_config sample_mac) ! j)) \<in> set (mw_tasks w') \<and> fd \<in> set (mw_open w')"
    using mac_start_wires_mounts[OF start plain] by (elim exE conjE) (rule that)
  have "\<exists>fd. vz_ports c ! 1 = \<lparr>mp_name = ''tokimo.rpc.mem'', mp_fd = fd\<rparr> \<and> (fd, ServeVfs 0) \<in> set (mw_tasks w')"
    using spec[OF wired(3), of 1] by (auto simp: sample_mac_config)
  then obtain fd where "vz_ports c ! 1 = \<lparr>mp_name = ''tokimo.rpc.mem'', mp_fd = fd\<rparr>"
      "(fd, ServeVfs 0) \<in> set (mw_tasks w')"
    by (elim exE conjE) (rule that)
  then show ?thesis using start wired(1,2)
    by (intro exI[of _ s'] exI[of _ w'] exI[of _ i] exI[of _ c] exI[of _ th] exI[of _ fd]) simp
qed

text \<open>A history in which the sandbox is started and a first wait is given up.\<close>

lemma sample_mac_run:
  "\<exists>s' w'. life_run (mac_start (sample_vz out)) (mac_stop (sample_vz out)) (mac_wait (sample_vz out)) [LStart, LWait]
     (sample_mac, sample_mac_world (\<lambda>_. None)) = (s', w') \<and> mx_state s' = Running"
proof -
  obtain s1 w1 where start: "mac_start (sample_vz out) (sample_mac, sample_mac_world (\<lambda>_. None)) = (Done (Ok ()), s1, w1)"
    using sample_mac_start by blast
  have running: "mx_state s1 = Running"
    using start by (auto simp: mac_start_def split: if_splits prod.splits result.splits)
  have "mac_live (s1, w1)"
    using mac_start_live[of "(sample_mac, sample_mac_world (\<lambda>_. None))" "sample_vz out"] start
    by (simp add: mac_live_def sample_mac_config)
  then have "mx_state (fst (snd (mac_wait (sample_vz out) (s1, w1)))) = Running"
    using mac_wait_live[of "(s1, w1)" "sample_vz out"] running
    by (auto simp: mac_wait_def split: option.splits prod.splits awaited.splits result.splits)
  then show ?thesis using start by (cases "mac_wait (sample_vz out) (s1, w1)") simp
qed

lemma sample_mac_new: "sample_mac = mac_sandbox_new (mx_config sample_mac)"
  by (simp add: sample_mac_def mac_sandbox_new_def)

text \<open>C23: \<^verbatim>\<open>wait\<close> on a running macOS sandbox never returns: whatever the owner did before, the
  call is left waiting, since nothing but a later \<^verbatim>\<open>stop\<close> would answer it and \<^verbatim>\<open>wait\<close> holds the
  sandbox.\<close>

theorem mac_wait_never_returns:
  assumes "list_all owner_op ops"
    and "life_run (mac_start z) (mac_stop z) (mac_wait z) ops (mac_sandbox_new cfg, w) = (s', w')"
    and "mx_state s' = Running"
  shows "fst (mac_wait z (s', w')) = Pending"
  using mac_wait_live[OF mac_run_live[OF assms(1) mac_new_live], of z z cfg w] assms(2,3) by simp

theorem mac_wait_never_returns_witness:
  "\<exists>s' w'. life_run (mac_start (sample_vz StopOk)) (mac_stop (sample_vz StopOk)) (mac_wait (sample_vz StopOk))
       [LStart, LWait] (sample_mac, sample_mac_world (\<lambda>_. None)) = (s', w') \<and>
     fst (mac_wait (sample_vz StopOk) (s', w')) = Pending"
proof -
  obtain s' w' where run: "life_run (mac_start (sample_vz StopOk)) (mac_stop (sample_vz StopOk))
      (mac_wait (sample_vz StopOk)) [LStart, LWait] (mac_sandbox_new (mx_config sample_mac), sample_mac_world (\<lambda>_. None)) =
      (s', w')" and running: "mx_state s' = Running"
    using sample_mac_run[of StopOk, folded sample_mac_new] unfolding sample_mac_new[symmetric] by blast
  have "list_all owner_op [LStart, LWait]" by simp
  from mac_wait_never_returns[OF this run running] run show ?thesis
    unfolding sample_mac_new[symmetric] by blast
qed

text \<open>C24: a \<^verbatim>\<open>stop\<close> of a running macOS sandbox returns what the framework's stop returned, and
  in any case ends the worker thread and closes the machine's descriptors; when the
  framework failed the sandbox is left at \<open>Stopping\<close>, and a second \<^verbatim>\<open>stop\<close> reports success
  without doing anything.\<close>

theorem mac_stop_ends_vm:
  assumes "list_all owner_op ops"
    and "life_run (mac_start z) (mac_stop z) (mac_wait z) ops (mac_sandbox_new cfg, w) = (s1, w1)"
    and "mx_state s1 = Running" and "mac_stop z (s1, w1) = (r, s2, w2)"
  shows "\<exists>i c th. mx_inner s1 = Some i \<and> mw_threads w1 (mi_thread i) = Some (c, th) \<and>
    r = Done (fst (request_stop_blocking z (vt_vm th))) \<and> mw_threads w2 (mi_thread i) = None \<and>
    set (config_fds c) \<inter> set (mw_open w2) = {} \<and> mx_inner s2 = None \<and>
    mx_state s2 = (if r = Done (Ok ()) then Stopped else Stopping) \<and>
    mac_stop z (s2, w2) = (Done (Ok ()), s2, w2)"
proof -
  have "mac_live (s1, w1)" using mac_run_live[OF assms(1) mac_new_live, of z cfg w] assms(2) by simp
  then obtain i c th where i: "mx_inner s1 = Some i" "mw_threads w1 (mi_thread i) = Some (c, th)" "\<not> vt_stopped th"
    using assms(3) by (auto simp: mac_live_def split: option.splits)
  obtain w3 where st: "inner_stop z i w1 = (Done (fst (request_stop_blocking z (vt_vm th))), w3)"
      "mw_threads w3 = (mw_threads w1)(mi_thread i := None)"
      "mw_open w3 = filter (\<lambda>fd. fd \<notin> set (config_fds c)) (mw_open w1)"
    using inner_stop_live[OF i(2,3)] by blast
  have "r = Done (fst (request_stop_blocking z (vt_vm th))) \<and> w2 = w3 \<and> mx_inner s2 = None \<and>
      mx_state s2 = (if r = Done (Ok ()) then Stopped else Stopping)"
    using assms(3,4) i(1) st(1)
    by (cases "fst (request_stop_blocking z (vt_vm th))") (auto simp: mac_stop_def Let_def)
  moreover from this have "mac_stop z (s2, w2) = (Done (Ok ()), s2, w2)" by (simp add: mac_stop_def)
  ultimately show ?thesis using i(1,2) st(2,3)
    by (intro exI[of _ i] exI[of _ c] exI[of _ th]) auto
qed

theorem mac_stop_ends_vm_witness:
  "\<exists>(s1 :: nat mac_sandbox) w1 s2 w2. mac_stop (sample_vz StopTimeout) (s1, w1) = (Done (Err (Hypervisor ''VM stop timed out'')), s2, w2) \<and>
     mx_state s1 = Running \<and> mx_state s2 = Stopping \<and>
     mac_stop (sample_vz StopTimeout) (s2, w2) = (Done (Ok ()), s2, w2)"
proof -
  obtain s1 w1 where run: "life_run (mac_start (sample_vz StopTimeout)) (mac_stop (sample_vz StopTimeout))
      (mac_wait (sample_vz StopTimeout)) [LStart, LWait] (mac_sandbox_new (mx_config sample_mac), sample_mac_world (\<lambda>_. None)) =
      (s1, w1)" and running: "mx_state s1 = Running"
    using sample_mac_run[of StopTimeout] unfolding sample_mac_new[symmetric] by blast
  obtain r s2 w2 where stop: "mac_stop (sample_vz StopTimeout) (s1, w1) = (r, s2, w2)" by (metis prod_cases3)
  have "list_all owner_op [LStart, LWait]" by simp
  note ended = mac_stop_ends_vm[OF this run running stop]
  have "fst (request_stop_blocking (sample_vz StopTimeout) m) = Err (Hypervisor ''VM stop timed out'')" for m
    by (simp add: request_stop_blocking_def sample_vz_def)
  then show ?thesis using ended stop running by (intro exI[of _ s1] exI[of _ w1] exI[of _ s2] exI[of _ w2]) auto
qed

text \<open>A start that fails at a later mount leaves what the earlier mounts got: their tasks
  run on and their guest ends stay open, and neither \<^verbatim>\<open>stop\<close> nor \<^verbatim>\<open>Drop\<close> takes them away.\<close>

theorem mac_failed_start_leaks:
  assumes "mx_state s = Created" and "mx_inner s = None" and "sc_image (mx_config s) \<noteq> None"
    and "mw_mkdir_fails w = (\<lambda>_. None)" and "mw_create_fails w = (\<lambda>_. None)"
    and "sc_mounts (mx_config s) = ms @ m # ms'"
    and "\<forall>i < length ms. mw_socket_fails w (mw_next w + i) = None"
    and "mw_socket_fails w (mw_next w + length ms) = Some e"
  shows "\<exists>s' w'. mac_start z (s, w) = (Done (Err (IoError e)), s', w') \<and> mx_state s' = FailedState \<and>
    mac_stop z (s', w') = (Done (Ok ()), s', w') \<and> mac_drop z (s', w') = w' \<and>
    mw_tasks w' = mw_tasks w @ zip [mw_next w..<mw_next w + length ms] (map mount_provider ms) \<and>
    set [mw_next w..<mw_next w + length ms] \<subseteq> set (mw_open w')"
proof -
  obtain w' where wr: "wire_mounts (sc_mounts (mx_config s)) ([], []) w = (Err (IoError e), w')"
      "mw_tasks w' = mw_tasks w @ zip [mw_next w..<mw_next w + length ms] (map mount_provider ms)"
      "mw_open w' = mw_open w @ [mw_next w..<mw_next w + length ms]"
    using wire_mounts_fail[OF assms(7,8), of m ms' "([], [])"] unfolding assms(6) by blast
  obtain img where "sc_image (mx_config s) = Some img" using assms(3) by blast
  then have "inner_start z (mx_config s) w = (Err (IoError e), w')"
    using wr(1) assms(4,5) by (simp add: inner_start_def mac_runtime_new_def Let_def)
  then show ?thesis
    using wr(2,3) assms(1,2) by (simp add: mac_start_def mac_stop_def mac_drop_def)
qed

theorem mac_failed_start_leaks_witness:
  "\<exists>s' w'. mac_start (sample_vz StopOk)
       (sample_mac, sample_mac_world (\<lambda>fd. if fd = 6 then Some ''too many open files'' else None)) =
       (Done (Err (IoError ''too many open files'')), s', w') \<and>
     mw_tasks (mac_drop (sample_vz StopOk) (s', w')) = [(5, ServeHost (host_fs_new ''/home'' False))]"
proof -
  let ?w = "sample_mac_world (\<lambda>fd. if fd = 6 then Some ''too many open files'' else None)"
  have img: "sc_image (mx_config sample_mac) \<noteq> None" by (simp add: sample_mac_config)
  have calls: "mw_mkdir_fails ?w = (\<lambda>_. None)" "mw_create_fails ?w = (\<lambda>_. None)"
    "\<forall>i < length [HostDir ''/h'' ''/home'' False ''h'' :: nat mount_spec]. mw_socket_fails ?w (mw_next ?w + i) = None"
    "mw_socket_fails ?w (mw_next ?w + length [HostDir ''/h'' ''/home'' False ''h'' :: nat mount_spec]) = Some ''too many open files''"
    by (simp_all add: sample_mac_world_def)
  have mounts: "sc_mounts (mx_config sample_mac) =
      [HostDir ''/h'' ''/home'' False ''h''] @ VfsMount ''/mnt/mem'' 0 False ''mem'' # []"
    by (simp add: sample_mac_config)
  have init: "mw_tasks ?w = []" "mw_next ?w = 5" by (simp_all add: sample_mac_world_def)
  from mac_failed_start_leaks[OF sample_mac_config(1,2) img calls(1,2) mounts calls(3,4), of "sample_vz StopOk"]
  show ?thesis by (auto simp: init)
qed

text \<open>The worker thread answers every call that reaches it before it shuts down exactly
  once: the channels answered are those of the commands received and of the calls that
  were waiting.\<close>

theorem vm_answers_once:
  assumes "CShutdown \<notin> set cs" and "vm_loop z (cs @ CShutdown # rest) t = (a, as)"
  shows "(\<exists>m. a = Gone m) \<and>
    mset (map fst as) = mset (vt_waiters t) + mset (concat (map channel cs))"
proof -
  obtain t1 bs where l: "vm_loop z cs t = (Going t1, bs)" using vm_loop_going[OF assms(1)] by blast
  have "\<exists>m. a = Gone m" and as: "as = bs @ answer_all (vt_waiters t1)"
    using assms(2) l by (auto simp: vm_loop_append)
  then show ?thesis using vm_loop_channels[OF l] by simp
qed

theorem vm_answers_once_witness:
  "mset (map fst (snd (vm_loop (sample_vz StopTimeout) ([CWait 1, CStop 2, CWait 3] @ CShutdown # [CStop 4])
     \<lparr>vt_vm = 0, vt_stopped = False, vt_waiters = []\<rparr>))) = {#1, 2, 3#}"
proof -
  let ?l = "vm_loop (sample_vz StopTimeout) ([CWait 1, CStop 2, CWait 3] @ CShutdown # [CStop 4])
     \<lparr>vt_vm = 0, vt_stopped = False, vt_waiters = []\<rparr>"
  have "CShutdown \<notin> set [CWait 1, CStop 2, CWait 3]" by simp
  moreover have "?l = (fst ?l, snd ?l)" by simp
  ultimately have "mset (map fst (snd ?l)) = mset [] + mset (concat (map channel [CWait 1, CStop 2, CWait 3]))"
    using vm_answers_once[of "[CWait 1, CStop 2, CWait 3]" "sample_vz StopTimeout" "[CStop 4]"] by (metis vm_thread.select_convs(3))
  then show ?thesis by simp
qed

end
