(* ===== verification/Backends.thy ===== *)
theory Backends
  imports Linux_Props Wsl_Props Mac_Props
begin

text \<open>
  What the backends share: each is an instance of the life-cycle interface, so what that
  interface gives holds for all of them, and a caller that goes through \<^verbatim>\<open>dyn Sandbox\<close>
  can rely on it whatever \<^verbatim>\<open>new_default\<close> has chosen.
\<close>

section \<open>Properties\<close>

text \<open>However a sandbox of any backend is driven, interleaved with any changes of the
  world around it, at most one of its starts succeeds; and on a system without the macOS
  backend its stand-in never starts.\<close>

theorem backends_start_once:
  assumes "owner_only (qx_state \<circ> fst) lops" and "owner_only (wx_state \<circ> fst) wops"
    and "owner_only (mx_state \<circ> fst) mops"
  shows "starts_ok (linux_start js) (linux_stop js) linux_wait lops lsw \<le> 1 \<and>
    starts_ok wsl_start wsl_stop wsl_wait wops wsw \<le> 1 \<and>
    starts_ok (mac_start z) (mac_stop z) (mac_wait z) mops msw \<le> 1 \<and>
    fst (stub_life ssw) = Done (Err stub_error)"
  using linux.one_start[OF assms(1)] wsl.one_start[OF assms(2)] mac.one_start[OF assms(3)]
  by (simp add: stub_life_def)

theorem backends_start_once_witness:
  "starts_ok (linux_start sample_json) (linux_stop sample_json) linux_wait
     [LStart, LWorld (\<lambda>(s, w). (s, w\<lparr>lw_procs := []\<rparr>)), LWait, LStart]
     (sample_sandbox, sample_world [''hello'', ''return''] False) \<le> 1 \<and>
   starts_ok wsl_start wsl_stop wsl_wait [LStart, LStop, LStart] (sample_wsl, sample_wsl_world [] True) \<le> 1 \<and>
   starts_ok (mac_start (sample_vz StopOk)) (mac_stop (sample_vz StopOk)) (mac_wait (sample_vz StopOk))
     [LStart, LWait, LStart] (sample_mac, sample_mac_world (\<lambda>_. None)) \<le> 1"
proof -
  have "owner_only (qx_state \<circ> fst) [LStart, LWorld (\<lambda>(s, w). (s, w\<lparr>lw_procs := []\<rparr>)), LWait, LStart]"
    "owner_only (wx_state \<circ> fst) [LStart, LStop, LStart]" "owner_only (mx_state \<circ> fst) [LStart, LWait, LStart]"
    by auto
  from backends_start_once[OF this] show ?thesis by blast
qed

end
