(* ===== verification/Repl.thy ===== *)
theory Repl
  imports Linux_Mount Backends
begin

text \<open>
  The example \<^verbatim>\<open>repl.rs\<close>: a terminal in raw mode bridged to the guest's serial console. A
  thread reads the keyboard in chunks and filters out \<^verbatim>\<open>Ctrl-A x\<close>; a task writes to the
  socket; the main task copies the guest's output until it ends. What happens, in the
  order it happens, is a list of events.
\<close>

section \<open>The keyboard filter\<close>

definition ctrl_a :: byte where
  "ctrl_a = 1"

definition quit_key :: "byte \<Rightarrow> bool" where
  "quit_key b \<longleftrightarrow> b = 120 \<or> b = 88"  \<comment> \<open>\<^verbatim>\<open>x\<close> or \<^verbatim>\<open>X\<close>\<close>

text \<open>One chunk: what is passed on, and whether a \<^verbatim>\<open>Ctrl-A\<close> is held back. \<open>None\<close>: the process exits.\<close>

fun filter_bytes :: "bool \<Rightarrow> byte list \<Rightarrow> byte list \<Rightarrow> (bool \<times> byte list) option" where
  "filter_bytes pending out [] = Some (pending, out)"
| "filter_bytes pending out (b # bs) =
     (if pending then
        if quit_key b then None else filter_bytes False (out @ [ctrl_a, b]) bs
      else if b = ctrl_a then filter_bytes True out bs
      else filter_bytes False (out @ [b]) bs)"


section \<open>The session\<close>

datatype repl_event =
    Keys "byte list"  \<comment> \<open>one read of standard input; \<open>[]\<close>: its end\<close>
  | KeysFail
  | WriteFails  \<comment> \<open>a write to the guest's socket\<close>
  | Output "byte list" bool  \<comment> \<open>one read from the guest; whether it can be shown\<close>
  | OutputFails

datatype session_end = Running_on | Force_quit | Disconnected

record session =
  se_pending :: bool
  se_thread :: bool  \<comment> \<open>the keyboard thread\<close>
  se_writer :: bool  \<comment> \<open>the task that writes to the guest\<close>
  se_sent :: "byte list"
  se_shown :: "byte list"

definition session_new :: session where
  "session_new = \<lparr>se_pending = False, se_thread = True, se_writer = True, se_sent = [], se_shown = []\<rparr>"

definition keys_event :: "byte list \<Rightarrow> session \<Rightarrow> session option" where
  "keys_event bs s =
     (if \<not> se_thread s then Some s
      else if bs = [] then Some (s\<lparr>se_thread := False\<rparr>)
      else case filter_bytes (se_pending s) [] bs of
        None \<Rightarrow> None
      | Some (p, out) \<Rightarrow>
          let s1 = s\<lparr>se_pending := p\<rparr>
          in if out = [] then Some s1
             else if se_writer s then Some (s1\<lparr>se_sent := se_sent s @ out\<rparr>)
             else Some (s1\<lparr>se_thread := False\<rparr>))"

fun run_session :: "repl_event list \<Rightarrow> session \<Rightarrow> session_end \<times> session" where
  "run_session [] s = (Running_on, s)"
| "run_session (Keys bs # es) s =
     (case keys_event bs s of None \<Rightarrow> (Force_quit, s) | Some s1 \<Rightarrow> run_session es s1)"
| "run_session (KeysFail # es) s = run_session es (s\<lparr>se_thread := False\<rparr>)"
| "run_session (WriteFails # es) s = run_session es (s\<lparr>se_writer := False\<rparr>)"
| "run_session (Output bs shown # es) s =
     (if bs = [] \<or> \<not> shown then (Disconnected, s)
      else run_session es (s\<lparr>se_shown := se_shown s @ bs\<rparr>))"
| "run_session (OutputFails # es) s = (Disconnected, s)"


section \<open>The terminal and \<^verbatim>\<open>main\<close>\<close>

text \<open>\<^verbatim>\<open>termios\<close>: the output flags, and the rest, which the code does not look into.\<close>

record termios =
  ti_oflag :: "32 word"
  ti_rest :: nat

definition opost :: "32 word" where
  "opost = 1"

record repl_env =
  re_tcget :: bool  \<comment> \<open>whether the terminal's attributes can be read, and set\<close>
  re_tcset :: bool
  re_makeraw :: "termios \<Rightarrow> termios"  \<comment> \<open>\<^verbatim>\<open>cfmakeraw\<close>\<close>
  re_exists :: "path \<Rightarrow> nat \<Rightarrow> bool"  \<comment> \<open>at each look\<close>
  re_connect :: "path \<Rightarrow> nat \<Rightarrow> (unit, string) result"  \<comment> \<open>after so many pauses\<close>
  re_events :: "repl_event list"

text \<open>The pauses before the socket is there, at most \<open>n\<close> of them.\<close>

fun wait_socket :: "(nat \<Rightarrow> bool) \<Rightarrow> nat \<Rightarrow> nat \<Rightarrow> nat" where
  "wait_socket there 0 k = k"
| "wait_socket there (Suc n) k = (if there k then k else wait_socket there n (k + 1))"

text \<open>\<^verbatim>\<open>RawMode::enter\<close>: the saved attributes, and the terminal after it.\<close>

definition raw_enter :: "repl_env \<Rightarrow> termios \<Rightarrow> termios option \<times> termios" where
  "raw_enter e t =
     (if \<not> re_tcget e then (None, t)
      else
        let raw = re_makeraw e t; raw1 = raw\<lparr>ti_oflag := ti_oflag raw OR opost\<rparr>
        in if re_tcset e then (Some t, raw1) else (None, t))"

definition raw_drop :: "termios option \<Rightarrow> termios \<Rightarrow> termios" where
  "raw_drop saved t = (case saved of None \<Rightarrow> t | Some t0 \<Rightarrow> t0)"

text \<open>
  \<^verbatim>\<open>main\<close> on a sandbox: \<open>live\<close> is what the world does during the session. A forced quit is
  \<^verbatim>\<open>process::exit\<close>: nothing after it runs.
\<close>

datatype repl_end =
    Repl_returned "(unit, string) result"
  | Repl_start_failed error
  | Repl_stop_failed error
  | Repl_exited
  | Repl_going_on

definition repl_main ::
    "'s life_call \<Rightarrow> 's life_call \<Rightarrow> ('s \<Rightarrow> path option) \<Rightarrow> ('s \<Rightarrow> 's) \<Rightarrow> repl_env \<Rightarrow> 's \<Rightarrow> termios \<Rightarrow> repl_end \<times> 's \<times> termios"
where
  "repl_main start stop socket live e s t =
     (case start s of
        (Pending, s1) \<Rightarrow> (Repl_going_on, s1, t)
      | (Done (Err x), s1) \<Rightarrow> (Repl_start_failed x, s1, t)
      | (Done (Ok _), s1) \<Rightarrow>
     (case socket s1 of
        None \<Rightarrow> (Repl_returned (Err ''interactive serial not enabled''), s1, t)
      | Some p \<Rightarrow>
     (case re_connect e p (wait_socket (re_exists e p) 50 0) of
        Err x \<Rightarrow> (Repl_returned (Err x), s1, t)
      | Ok _ \<Rightarrow>
     (case raw_enter e t of
        (saved, t1) \<Rightarrow>
     (case fst (run_session (re_events e) session_new) of
        Running_on \<Rightarrow> (Repl_going_on, live s1, t1)
      | Force_quit \<Rightarrow> (Repl_exited, live s1, t1)
      | Disconnected \<Rightarrow>
     (case stop (live s1) of
        (Pending, s2) \<Rightarrow> (Repl_going_on, s2, raw_drop saved t1)
      | (Done (Err x), s2) \<Rightarrow> (Repl_stop_failed x, s2, raw_drop saved t1)
      | (Done (Ok _), s2) \<Rightarrow> (Repl_returned (Ok ()), s2, raw_drop saved t1)))))))"

definition repl_config :: "path \<Rightarrow> 'v sandbox_config" where
  "repl_config cwd =
     with_mount (HostDir ''/work'' cwd False ''work'')
       (with_interactive_serial True (with_memory_mib 512 (with_vcpus 2 (sandbox_config_new ''repl''))))"


section \<open>What the filter passes\<close>

text \<open>Whether \<^verbatim>\<open>Ctrl-A x\<close> is typed; a \<^verbatim>\<open>Ctrl-A\<close> takes the next key with it.\<close>

fun escapes :: "byte list \<Rightarrow> bool" where
  "escapes [] = False"
| "escapes [b] = False"
| "escapes (b # c # bs) = (if b = ctrl_a then quit_key c \<or> escapes bs else escapes (c # bs))"

definition held :: "bool \<Rightarrow> byte list" where
  "held pending = (if pending then [ctrl_a] else [])"

lemma escapes_plain [simp]: "b \<noteq> ctrl_a \<Longrightarrow> escapes (b # bs) = escapes bs"
  by (cases bs) auto

lemma filter_bytes_escapes:
  "(filter_bytes p out bs = None) = escapes (held p @ bs) \<and>
   (\<forall>p' out'. filter_bytes p out bs = Some (p', out') \<longrightarrow>
      out' @ held p' = out @ held p @ bs \<and> (\<forall>cs. escapes (held p @ bs @ cs) = escapes (held p' @ cs)))"
proof (induction p out bs rule: filter_bytes.induct)
  case (1 pending out)
  then show ?case by (simp add: held_def)
next
  case (2 pending out b bs)
  then show ?case by (auto simp: held_def split: if_splits)
qed

text \<open>A session in which nothing fails: keys and output only.\<close>

fun smooth :: "repl_event \<Rightarrow> bool" where
  "smooth (Keys bs) = (bs \<noteq> [])"
| "smooth (Output bs shown) = (bs \<noteq> [] \<and> shown)"
| "smooth _ = False"

fun typed :: "repl_event list \<Rightarrow> byte list" where
  "typed [] = []"
| "typed (Keys bs # es) = bs @ typed es"
| "typed (_ # es) = typed es"

fun printed :: "repl_event list \<Rightarrow> byte list" where
  "printed [] = []"
| "printed (Output bs _ # es) = bs @ printed es"
| "printed (_ # es) = printed es"

lemma smooth_session:
  assumes "list_all smooth es" and "se_thread s" and "se_writer s" and "run_session es s = (e, s')"
  shows "e = (if escapes (held (se_pending s) @ typed es) then Force_quit else Running_on) \<and>
    (\<exists>x. se_sent s' = se_sent s @ x \<and> prefix x (held (se_pending s) @ typed es)) \<and>
    (e = Running_on \<longrightarrow> se_sent s' @ held (se_pending s') = se_sent s @ held (se_pending s) @ typed es \<and>
       se_shown s' = se_shown s @ printed es)"
  using assms
proof (induction es s rule: run_session.induct)
  case (1 s)
  then show ?case by (auto simp: held_def)
next
  case (2 bs es s)
  note fb = filter_bytes_escapes[of "se_pending s" "[]" bs]
  show ?case
  proof (cases "filter_bytes (se_pending s) [] bs")
    case None
    have "escapes (x @ y)" if "escapes x" for x y using that
      by (induction x rule: escapes.induct) (auto split: if_splits)
    then have "escapes (held (se_pending s) @ bs @ typed es)" using fb None by (metis append.assoc)
    then show ?thesis using "2.prems" None by (auto simp: keys_event_def)
  next
    case (Some r)
    obtain p out where r: "r = (p, out)" by fastforce
    let ?s1 = "s\<lparr>se_pending := p, se_sent := se_sent s @ out\<rparr>"
    have f: "out @ held p = held (se_pending s) @ bs"
      "\<And>cs. escapes (held (se_pending s) @ bs @ cs) = escapes (held p @ cs)"
      using fb Some r by auto
    have k: "keys_event bs s = Some ?s1"
      using "2.prems" Some r by (simp add: keys_event_def Let_def)
    have "run_session es ?s1 = (e, s')" using "2.prems"(4) k by simp
    from "2.IH"[OF k _ _ _ this] "2.prems" obtain x where ind:
        "e = (if escapes (held p @ typed es) then Force_quit else Running_on)"
        "se_sent s' = se_sent ?s1 @ x" "prefix x (held p @ typed es)"
        "e = Running_on \<longrightarrow> se_sent s' @ held (se_pending s') = se_sent ?s1 @ held p @ typed es \<and>
           se_shown s' = se_shown ?s1 @ printed es"
      by auto
    have eq: "held (se_pending s) @ bs @ typed es = out @ held p @ typed es"
      using f(1) by (metis append.assoc)
    have "prefix (out @ x) (held (se_pending s) @ bs @ typed es)"
      unfolding eq same_prefix_prefix by (rule ind(3))
    moreover have "se_sent s @ out @ held p @ typed es = se_sent s @ held (se_pending s) @ bs @ typed es"
      using f(1) by (metis append.assoc)
    ultimately show ?thesis using ind f(2) by (auto intro: exI[of _ "out @ x"])
  qed
qed (auto simp: held_def)



section \<open>What is left behind\<close>

lemma raw_drop_enter: "raw_enter e t = (saved, t1) \<Longrightarrow> raw_drop saved t1 = t"
  by (auto simp: raw_enter_def raw_drop_def Let_def split: if_splits)

text \<open>The default of the trait: no serial socket.\<close>

lemma repl_no_console:
  "fst (repl_main start stop (\<lambda>_. None) live e s t) \<noteq> Repl_returned (Ok ())"
  "fst (repl_main start stop (\<lambda>_. None) live e s t) \<noteq> Repl_exited"
  by (auto simp: repl_main_def split: prod.splits awaited.splits result.splits)

context sandbox_life
begin

lemma repl_outcome:
  assumes "\<forall>s. st (live s) = st s" and "repl_main start stop socket live e s t = (r, s2, t2)"
  shows "(r = Repl_returned (Ok ()) \<longrightarrow> st s2 = Stopped \<and> t2 = t) \<and>
    (r = Repl_exited \<longrightarrow> st s2 = Running \<and> t2 = snd (raw_enter e t)) \<and>
    (\<forall>x. r = Repl_returned (Err x) \<longrightarrow> st s2 = Running)"
proof -
  obtain r1 s1 where s1: "start s = (r1, s1)" by fastforce
  show ?thesis
  proof (cases "r1 = Done (Ok ())")
    case False
    then show ?thesis using assms(2) s1
      by (cases r1) (auto simp: repl_main_def split: result.splits)
  next
    case True
    have run: "st s1 = Running" using start_runs[of s] s1 True by simp
    then have live: "st (live s1) = Running" using assms(1) by simp
    obtain r3 s3 where s3: "stop (live s1) = (r3, s3)" by fastforce
    obtain saved t1 where t1: "raw_enter e t = (saved, t1)" by fastforce
    have stopped: "st s3 = Stopped" if "r3 = Done (Ok ())"
      using stop_stops[of "live s1"] live s3 that by simp
    show ?thesis
      using assms(2) s1 True run live s3 t1 stopped raw_drop_enter[OF t1]
      by (auto simp: repl_main_def split: option.splits result.splits session_end.splits awaited.splits)
  qed
qed

end


lemma linux_start_console:
  assumes "linux_start js (s, w) = (Done (Ok u), s', w')"
  shows "\<exists>rt. qx_runtime s' = Some rt \<and> qx_config s' = qx_config s"
proof -
  have created: "qx_state s = Created" using assms by (auto simp: linux_start_def split: if_splits)
  obtain r1 s1 w1 where e: "ensure_runtime (s\<lparr>qx_state := Starting\<rparr>, w) = (r1, s1, w1)" by (metis prod_cases3)
  have "\<exists>rt. r1 = Ok rt" using assms created e by (cases r1) (simp_all add: linux_start_def)
  then obtain rt where "r1 = Ok rt" by blast
  then have run: "qx_runtime s1 = Some rt" "qx_config s1 = qx_config s"
    using e by (auto simp: ensure_runtime_def Let_def split: option.splits prod.splits result.splits)
  have "\<exists>rt. qx_runtime s' = Some rt \<and> qx_config s' = qx_config s1"
  proof (rule linux_start_stages[OF assms created e])
    fix rt' :: runtime and im ports mounts ids s2 w2 s3
    assume b: "bind_mounts (rt_root rt') 0 (sc_mounts (qx_config s1)) ([], [], []) (s1, w1) = (Ok (ports, mounts, ids), s2, w2)"
      and l: "launch js (linux_spec s2 rt' im ports mounts) (s2, w2) = (Done (Ok u), s3, w')"
      and s': "s' = (if Done (Ok u) = Done (Ok ()) then s3\<lparr>qx_mount_ids := ids, qx_state := Running\<rparr> else s3)"
    have "qx_runtime s2 = Some rt" "qx_config s2 = qx_config s1" using bind_mounts_effect[OF b] run by auto
    then show ?thesis using launch_effect[OF l] s' by simp
  qed simp_all
  then show ?thesis using run by simp
qed


section \<open>Properties\<close>

text \<open>C32: Every key reaches the guest, in order and unchanged, however the reads of the keyboard cut
  the input and however it interleaves with the guest's output: only a \<^verbatim>\<open>Ctrl-A\<close> waits for
  the key after it, and the session is quit exactly when that key is \<^verbatim>\<open>x\<close> (a \<^verbatim>\<open>Ctrl-A\<close> takes
  the next key with it, so two of them pass as two). All the output is shown.\<close>

theorem repl_session_transparent:
  assumes "list_all smooth es" and "run_session es session_new = (e, s')"
  shows "e = (if escapes (typed es) then Force_quit else Running_on) \<and> prefix (se_sent s') (typed es) \<and>
    (e = Running_on \<longrightarrow> se_sent s' @ held (se_pending s') = typed es \<and> se_shown s' = printed es)"
  using smooth_session[OF assms(1) _ _ assms(2)] by (auto simp: session_new_def held_def)

theorem repl_session_transparent_witness:
  "\<exists>s'. run_session [Keys [108, 1], Output [62] True, Keys [1, 120, 13], Keys [1]] session_new = (Running_on, s') \<and>
     se_sent s' = [108, 1, 1, 120, 13] \<and> se_pending s'"
proof -
  have run: "run_session [Keys [108, 1], Output [62] True, Keys [1, 120, 13], Keys [1]] session_new =
      (Running_on, \<lparr>se_pending = True, se_thread = True, se_writer = True,
         se_sent = [108, 1, 1, 120, 13], se_shown = [62]\<rparr>)"
    by (simp add: session_new_def keys_event_def ctrl_a_def quit_key_def Let_def)
  have "list_all smooth [Keys [108, 1], Output [62] True, Keys [1, 120, 13], Keys [1]]" by simp
  from repl_session_transparent[OF this run] run show ?thesis by auto
qed

text \<open>When the guest disconnects and \<^verbatim>\<open>stop\<close> returns, the example has stopped the sandbox and put
  the terminal back. The documented way to force-stop the sandbox does neither: \<^verbatim>\<open>Ctrl-A x\<close>
  leaves it running and the terminal in raw mode. On the other backends the example never
  gets to a session.\<close>

theorem repl_leaves:
  assumes "\<forall>sw. qx_state (fst (live sw)) = qx_state (fst sw)"
    and "repl_main (linux_start js) (linux_stop js) (linux_serial_socket_path \<circ> fst) live e (s, w) t = (r, (s2, w2), t2)"
  shows "(r = Repl_returned (Ok ()) \<longrightarrow> qx_state s2 = Stopped \<and> t2 = t) \<and>
    (r = Repl_exited \<longrightarrow> qx_state s2 = Running \<and> t2 = snd (raw_enter e t)) \<and>
    (\<forall>x. r = Repl_returned (Err x) \<longrightarrow> qx_state s2 = Running) \<and>
    fst (repl_main wsl_start wsl_stop (\<lambda>_. None) live' e wsw t) \<notin> {Repl_returned (Ok ()), Repl_exited} \<and>
    fst (repl_main (mac_start z) (mac_stop z) (\<lambda>_. None) live'' e msw t) \<notin> {Repl_returned (Ok ()), Repl_exited}"
proof -
  have "\<forall>sw. (qx_state \<circ> fst) (live sw) = (qx_state \<circ> fst) sw" using assms(1) by simp
  from sandbox_life.repl_outcome[OF linux.sandbox_life_axioms this assms(2)] show ?thesis by (simp add: repl_no_console)
qed


text \<open>The sample sandbox with the example's configuration, and a user who quits at once.\<close>

definition repl_sandbox :: "nat qemu_sandbox" where
  "repl_sandbox = qemu_sandbox_new ((repl_config ''/src'' :: nat sandbox_config)\<lparr>
     sc_image := Some \<lparr>im_kernel = ''/k'', im_initrd = ''/i'', im_rootfs = None\<rparr>, sc_runtime_dir := Some ''/r''\<rparr>)"

definition quitter :: repl_env where
  "quitter = \<lparr>re_tcget = True, re_tcset = True, re_makeraw = (\<lambda>t. t\<lparr>ti_oflag := 0\<rparr>),
     re_exists = (\<lambda>_ k. 1 \<le> k),
     re_connect = (\<lambda>_ k. if 1 \<le> k then Ok () else Err ''No such file or directory (os error 2)''), re_events = [Keys [1], Keys [120]]\<rparr>"

lemma quitter_quits: "fst (run_session (re_events quitter) session_new) = Force_quit"
  by (simp add: quitter_def session_new_def keys_event_def ctrl_a_def quit_key_def Let_def)

lemma quitter_waits: "wait_socket (re_exists quitter p) 50 0 = 1"
  by (simp add: quitter_def eval_nat_numeral)

theorem repl_leaves_witness:
  "\<exists>s2 w2. repl_main (linux_start sample_json) (linux_stop sample_json) (linux_serial_socket_path \<circ> fst) id quitter
       (repl_sandbox, sample_world [''hello'', ''return''] False) \<lparr>ti_oflag = 5, ti_rest = 0\<rparr> =
       (Repl_exited, (s2, w2), \<lparr>ti_oflag = 1, ti_rest = 0\<rparr>) \<and> qx_state s2 = Running"
proof -
  have works: "works sample_json (sample_world [''hello'', ''return''] False)"
    unfolding works_def using sample_handshake[of False] by (intro conjI exI) (simp_all add: sample_world_def)
  obtain s1 w1 where start: "linux_start sample_json (repl_sandbox, sample_world [''hello'', ''return''] False) = (Done (Ok ()), s1, w1)"
    using linux_start_works[OF _ _ works, of repl_sandbox] by (auto simp: repl_sandbox_def qemu_sandbox_new_def)
  obtain rt where rt: "qx_runtime s1 = Some rt" "qx_config s1 = qx_config repl_sandbox"
    using linux_start_console[OF start] by blast
  have socket: "linux_serial_socket_path s1 = Some (rt_serial_sock rt)"
    unfolding linux_serial_socket_path_def rt
    by (simp add: repl_sandbox_def qemu_sandbox_new_def repl_config_def with_mount_def with_interactive_serial_def)
  let ?t = "\<lparr>ti_oflag = 5, ti_rest = 0\<rparr> :: termios"
  have raw: "raw_enter quitter ?t = (Some ?t, \<lparr>ti_oflag = 1, ti_rest = 0\<rparr>)"
    by (simp add: raw_enter_def quitter_def opost_def)
  have main: "repl_main (linux_start sample_json) (linux_stop sample_json) (linux_serial_socket_path \<circ> fst) id quitter
      (repl_sandbox, sample_world [''hello'', ''return''] False) ?t = (Repl_exited, (s1, w1), \<lparr>ti_oflag = 1, ti_rest = 0\<rparr>)"
    using start socket raw quitter_quits by (simp add: repl_main_def quitter_waits quitter_def[THEN arg_cong[of _ _ re_connect]])
  have "\<forall>sw :: nat linux. qx_state (fst (id sw)) = qx_state (fst sw)" by simp
  from repl_leaves[OF this main] have "qx_state s1 = Running" by blast
  then show ?thesis using main by blast
qed

end
