(* ===== verification/Demos.thy ===== *)
theory Demos
  imports Repl
begin

text \<open>
  The three demonstration programs (\<^verbatim>\<open>host_dir_demo.rs\<close>, \<^verbatim>\<open>network_demo.rs\<close>, the \<^verbatim>\<open>main\<close> of
  \<^verbatim>\<open>vfs_memory_demo.rs\<close>): a configuration with a script for the guest, a start, a loop that
  reads the serial log until it shows what is expected or a minute has passed, and a stop.
  The clock, the log at each look and what the world does meanwhile are parameters.
\<close>

section \<open>The configurations\<close>

abbreviation single_quote :: char where
  "single_quote \<equiv> CHR 0x27"

abbreviation double_quote :: char where
  "double_quote \<equiv> CHR 0x22"

text \<open>The guest's command that prints a file.\<close>

definition print_script :: "string \<Rightarrow> string" where
  "print_script file =
     ''python3 -c '' @ [single_quote] @ ''print(open('' @ [double_quote] @ file @ [double_quote] @
     '').read().strip())'' @ [single_quote]"

definition push_cmdline :: "string \<Rightarrow> 'v sandbox_config \<Rightarrow> 'v sandbox_config" where
  "push_cmdline c cfg = cfg\<lparr>sc_extra_cmdline := sc_extra_cmdline cfg @ [c]\<rparr>"

definition host_dir_demo_dir :: "path \<Rightarrow> path" where
  "host_dir_demo_dir temp = path_join temp ''tokimo-host-dir-demo''"

definition host_dir_magic :: string where
  "host_dir_magic = ''hello-from-host-dir''"

definition host_dir_demo_config :: "path \<Rightarrow> 'v sandbox_config" where
  "host_dir_demo_config temp =
     push_cmdline (script_key @ print_script ''/mnt/tmp/hello.txt'')
       (with_mount (HostDir ''/mnt/tmp'' (host_dir_demo_dir temp) False ''hosttmp'')
         (with_memory_mib 256 (with_vcpus 1 (sandbox_config_new ''host-dir-demo''))))"

definition memory_demo_config :: "'v \<Rightarrow> 'v sandbox_config" where
  "memory_demo_config vfs =
     push_cmdline (script_key @ print_script ''/mnt/mem/hello.txt'')
       (with_mount (VfsMount ''/mnt/mem'' vfs False ''mem'')
         (with_memory_mib 256 (with_vcpus 1 (sandbox_config_new ''vfs-memory-demo''))))"

text \<open>The probe script; \<open>b64\<close>: the crate's base 64 encoding.\<close>

definition network_probe :: string where
  "network_probe = concat (map (\<lambda>l. l @ [CHR 0x0A])
     [[],
      ''import socket, urllib.request'',
      ''def ok(msg): print('NET-OK:'+msg, flush=True)'',
      ''def fail(msg): print('NET-FAIL:'+msg, flush=True)'',
      ''try:'',
      ''    ip = socket.gethostbyname('example.com')'',
      ''    ok('dns='+ip)'',
      ''except Exception as e: fail('dns '+repr(e))'',
      ''try:'',
      ''    s = socket.create_connection(('1.1.1.1', 80), timeout=5); s.close()'',
      ''    ok('tcp=1.1.1.1:80')'',
      ''except Exception as e: fail('tcp '+repr(e))'',
      ''try:'',
      ''    r = urllib.request.urlopen('http://example.com/', timeout=5)'',
      ''    ok('http='+str(r.status))'',
      ''except Exception as e: fail('http '+repr(e))''])"

definition network_demo_config :: "(string \<Rightarrow> string) \<Rightarrow> 'v sandbox_config" where
  "network_demo_config b64 =
     push_cmdline (script_key @ ''python3 -c '' @ [single_quote] @
         ''import base64,sys; exec(base64.b64decode('' @ [double_quote] @ b64 network_probe @ [double_quote] @
         '').decode())'' @ [single_quote])
       (with_memory_mib 256 (with_vcpus 1 (sandbox_config_new ''network-demo'')))"


section \<open>Watching the log\<close>

definition demo_deadline :: nat where
  "demo_deadline = 60000"

text \<open>\<^verbatim>\<open>str::contains\<close>.\<close>

definition contains :: "string \<Rightarrow> string \<Rightarrow> bool" where
  "contains s pat \<longleftrightarrow> sublist pat s"

text \<open>
  The loop: \<open>clock k\<close> milliseconds have passed at check \<open>k\<close> of the deadline, \<open>log k\<close> is what the
  look after it reads. \<open>None\<close>: out of fuel.
\<close>

fun poll_log :: "nat \<Rightarrow> (nat \<Rightarrow> nat) \<Rightarrow> (nat \<Rightarrow> string option) \<Rightarrow> string \<Rightarrow> nat \<Rightarrow> bool option" where
  "poll_log 0 clock log pat k = None"
| "poll_log (Suc fuel) clock log pat k =
     (if clock k < demo_deadline then
        (case log k of
           Some s \<Rightarrow> if contains s pat then Some True else poll_log fuel clock log pat (k + 1)
         | None \<Rightarrow> poll_log fuel clock log pat (k + 1))
      else Some False)"


section \<open>\<^verbatim>\<open>main\<close>\<close>

datatype demo_end =
    Demo_ok
  | Demo_failed string  \<comment> \<open>\<^verbatim>\<open>anyhow::bail!\<close>\<close>
  | Demo_start_failed error
  | Demo_stop_failed error
  | Demo_panic
  | Demo_going_on

record 's demo_env =
  dm_live :: "'s \<Rightarrow> 's"
  dm_clock :: "nat \<Rightarrow> nat"
  dm_log :: "path \<Rightarrow> nat \<Rightarrow> string option"

definition demo_main ::
    "'s life_call \<Rightarrow> 's life_call \<Rightarrow> ('s \<Rightarrow> path option) \<Rightarrow> 's demo_env \<Rightarrow> string \<Rightarrow> string \<Rightarrow> 's \<Rightarrow> demo_end \<times> 's"
where
  "demo_main start stop serial_log e pat complaint s =
     (case start s of
        (Pending, s1) \<Rightarrow> (Demo_going_on, s1)
      | (Done (Err x), s1) \<Rightarrow> (Demo_start_failed x, s1)
      | (Done (Ok _), s1) \<Rightarrow>
     (case serial_log s1 of
        None \<Rightarrow> (Demo_panic, s1)
      | Some p \<Rightarrow>
     (case poll_log 121 (dm_clock e) (dm_log e p) pat 0 of
        None \<Rightarrow> (Demo_going_on, dm_live e s1)
      | Some found \<Rightarrow>
     (case stop (dm_live e s1) of
        (Pending, s2) \<Rightarrow> (Demo_going_on, s2)
      | (Done (Err x), s2) \<Rightarrow> (Demo_stop_failed x, s2)
      | (Done (Ok _), s2) \<Rightarrow> (if found then Demo_ok else Demo_failed complaint, s2)))))"

definition host_dir_demo_main :: "'s life_call \<Rightarrow> 's life_call \<Rightarrow> ('s \<Rightarrow> path option) \<Rightarrow> 's demo_env \<Rightarrow> 's \<Rightarrow> demo_end \<times> 's" where
  "host_dir_demo_main start stop serial_log e =
     demo_main start stop serial_log e host_dir_magic ''did not observe magic string in serial log''"

definition memory_demo_main :: "'s life_call \<Rightarrow> 's life_call \<Rightarrow> ('s \<Rightarrow> path option) \<Rightarrow> 's demo_env \<Rightarrow> 's \<Rightarrow> demo_end \<times> 's" where
  "memory_demo_main start stop serial_log e =
     demo_main start stop serial_log e magic ''did not observe magic string''"

definition network_demo_main :: "'s life_call \<Rightarrow> 's life_call \<Rightarrow> ('s \<Rightarrow> path option) \<Rightarrow> 's demo_env \<Rightarrow> 's \<Rightarrow> demo_end \<times> 's" where
  "network_demo_main start stop serial_log e =
     demo_main start stop serial_log e ''script exit='' ''guest script did not finish in time''"



section \<open>What a demonstration reports\<close>

text \<open>The log shows the pattern at a look before the deadline.\<close>

definition shows_up :: "(nat \<Rightarrow> nat) \<Rightarrow> (nat \<Rightarrow> string option) \<Rightarrow> string \<Rightarrow> bool" where
  "shows_up clock log pat \<longleftrightarrow>
     (\<exists>k. (\<forall>j \<le> k. clock j < demo_deadline) \<and> (\<exists>s. log k = Some s \<and> contains s pat))"

lemma poll_log_result:
  assumes "\<forall>j. 500 * j \<le> clock j" and "120 < k + fuel" and "k \<le> 120"
  shows "\<exists>found. poll_log fuel clock log pat k = Some found \<and>
    (found \<longleftrightarrow> (\<exists>n \<ge> k. (\<forall>j. k \<le> j \<longrightarrow> j \<le> n \<longrightarrow> clock j < demo_deadline) \<and> (\<exists>s. log n = Some s \<and> contains s pat)))"
  using assms(2,3)
proof (induction fuel arbitrary: k)
  case 0
  then show ?case by simp
next
  case (Suc fuel)
  show ?case
  proof (cases "clock k < demo_deadline \<and> \<not> (\<exists>s. log k = Some s \<and> contains s pat)")
    case True
    have "k < 120" using True spec[OF assms(1), of k] by (simp add: demo_deadline_def)
    then obtain found where ind: "poll_log fuel clock log pat (k + 1) = Some found"
      "found \<longleftrightarrow> (\<exists>n \<ge> k + 1. (\<forall>j. k + 1 \<le> j \<longrightarrow> j \<le> n \<longrightarrow> clock j < demo_deadline) \<and>
         (\<exists>s. log n = Some s \<and> contains s pat))"
      using Suc.IH[of "k + 1"] Suc.prems by auto
    have "(\<exists>n \<ge> k + 1. (\<forall>j. k + 1 \<le> j \<longrightarrow> j \<le> n \<longrightarrow> clock j < demo_deadline) \<and> (\<exists>s. log n = Some s \<and> contains s pat)) \<longleftrightarrow>
      (\<exists>n \<ge> k. (\<forall>j. k \<le> j \<longrightarrow> j \<le> n \<longrightarrow> clock j < demo_deadline) \<and> (\<exists>s. log n = Some s \<and> contains s pat))"
      (is "?later \<longleftrightarrow> ?now")
    proof
      assume ?later
      then obtain n where n: "k + 1 \<le> n" "\<forall>j. k + 1 \<le> j \<longrightarrow> j \<le> n \<longrightarrow> clock j < demo_deadline"
        "\<exists>s. log n = Some s \<and> contains s pat" by blast
      have "clock j < demo_deadline" if "k \<le> j" "j \<le> n" for j
        using that n(2) True by (cases "j = k") auto
      then show ?now using n(1,3) by (intro exI[of _ n]) auto
    next
      assume ?now
      then obtain n where n: "k \<le> n" "\<forall>j. k \<le> j \<longrightarrow> j \<le> n \<longrightarrow> clock j < demo_deadline"
        "\<exists>s. log n = Some s \<and> contains s pat" by blast
      have "n \<noteq> k" using n(3) True by blast
      then show ?later using n by (intro exI[of _ n]) auto
    qed
    moreover have "poll_log (Suc fuel) clock log pat k = Some found"
      using True ind(1) by (auto split: option.splits)
    ultimately show ?thesis using ind(2) by (intro exI[of _ found]) simp
  next
    case False
    then show ?thesis
      by (intro exI[of _ "clock k < demo_deadline"]) (auto split: option.splits)
  qed
qed

lemma poll_log_shows:
  assumes "\<forall>j. 500 * j \<le> clock j"
  shows "poll_log 121 clock log pat 0 = Some (shows_up clock log pat)"
  using poll_log_result[OF assms, of 0 121 log pat] unfolding shows_up_def by auto

text \<open>
  A run that came to its end has stopped the sandbox; it was a success exactly when the
  log showed the pattern in time.
\<close>

definition demo_reports ::
    "('s \<Rightarrow> sandbox_state) \<Rightarrow> 's life_call \<Rightarrow> ('s \<Rightarrow> path option) \<Rightarrow> 's demo_env \<Rightarrow> string \<Rightarrow> 's \<Rightarrow> demo_end \<times> 's \<Rightarrow> bool"
where
  "demo_reports st start serial_log e pat s = (\<lambda>(r, s2).
     r = Demo_ok \<or> (\<exists>m. r = Demo_failed m) \<longrightarrow>
       st s2 = Stopped \<and>
       (\<exists>s1 p. start s = (Done (Ok ()), s1) \<and> serial_log s1 = Some p \<and>
          (r = Demo_ok \<longleftrightarrow> shows_up (dm_clock e) (dm_log e p) pat)))"

context sandbox_life
begin

lemma demo_outcome:
  assumes "\<forall>s. st (dm_live e s) = st s" and "\<forall>j. 500 * j \<le> dm_clock e j"
  shows "demo_reports st start serial_log e pat s (demo_main start stop serial_log e pat complaint s)"
proof -
  obtain r1 s1 where s1: "start s = (r1, s1)" by fastforce
  show ?thesis
  proof (cases "r1 = Done (Ok ())")
    case False
    then show ?thesis using s1
      by (cases r1) (auto simp: demo_main_def demo_reports_def split: result.splits)
  next
    case True
    have run: "st (dm_live e s1) = Running" using start_runs[of s] s1 True assms(1) by simp
    obtain r3 s3 where s3: "stop (dm_live e s1) = (r3, s3)" by fastforce
    have stopped: "st s3 = Stopped" if "r3 = Done (Ok ())"
      using stop_stops[of "dm_live e s1"] run s3 that by simp
    show ?thesis
      using s1 True s3 stopped poll_log_shows[OF assms(2)]
      by (auto simp: demo_main_def demo_reports_def split: option.splits result.splits awaited.splits)
  qed
qed

end


section \<open>Properties\<close>

text \<open>Each demonstration, on any backend, reports what it saw: its loop ends, and when it comes
  to its end the sandbox is stopped and the result is a success exactly when the serial log
  showed the expected text at a look within the minute.\<close>

theorem demos_report:
  assumes "\<forall>sw. qx_state (fst (dm_live e sw)) = qx_state (fst sw)" and "\<forall>j. 500 * j \<le> dm_clock e j"
    and "\<forall>sw. wx_state (fst (dm_live e' sw)) = wx_state (fst sw)" and "\<forall>j. 500 * j \<le> dm_clock e' j"
    and "\<forall>sw. mx_state (fst (dm_live e'' sw)) = mx_state (fst sw)" and "\<forall>j. 500 * j \<le> dm_clock e'' j"
  shows "demo_reports (qx_state \<circ> fst) (linux_start js) (linux_serial_log_path \<circ> fst) e host_dir_magic sw
      (host_dir_demo_main (linux_start js) (linux_stop js) (linux_serial_log_path \<circ> fst) e sw) \<and>
    demo_reports (wx_state \<circ> fst) wsl_start (wsl_serial_log_path \<circ> fst) e' magic sw'
      (memory_demo_main wsl_start wsl_stop (wsl_serial_log_path \<circ> fst) e' sw') \<and>
    demo_reports (mx_state \<circ> fst) (mac_start z) (mac_serial_log_path \<circ> fst) e'' ''script exit='' sw''
      (network_demo_main (mac_start z) (mac_stop z) (mac_serial_log_path \<circ> fst) e'' sw'')"
  unfolding host_dir_demo_main_def memory_demo_main_def network_demo_main_def
  by (intro conjI sandbox_life.demo_outcome[OF linux.sandbox_life_axioms]
      sandbox_life.demo_outcome[OF wsl.sandbox_life_axioms] sandbox_life.demo_outcome[OF mac.sandbox_life_axioms])
    (use assms in simp_all)


text \<open>Logs that show the text of the first two at the third look, and nothing of the third's.\<close>

definition sample_demo_env :: "'s demo_env" where
  "sample_demo_env =
     \<lparr>dm_live = (\<lambda>s. s), dm_clock = (\<lambda>k. 500 * k),
      dm_log = (\<lambda>_ k. if k < 2 then None else Some (''boot '' @ host_dir_magic @ '' '' @ magic))\<rparr>"

theorem demos_report_witness:
  "demo_reports (qx_state \<circ> fst) (linux_start sample_json) (linux_serial_log_path \<circ> fst) sample_demo_env host_dir_magic
      (sample_sandbox, sample_world [''hello'', ''return''] False)
      (host_dir_demo_main (linux_start sample_json) (linux_stop sample_json) (linux_serial_log_path \<circ> fst) sample_demo_env
         (sample_sandbox, sample_world [''hello'', ''return''] False)) \<and>
    demo_reports (wx_state \<circ> fst) wsl_start (wsl_serial_log_path \<circ> fst) sample_demo_env magic
      (sample_wsl, sample_wsl_world [] True)
      (memory_demo_main wsl_start wsl_stop (wsl_serial_log_path \<circ> fst) sample_demo_env (sample_wsl, sample_wsl_world [] True)) \<and>
    demo_reports (mx_state \<circ> fst) (mac_start (sample_vz StopOk)) (mac_serial_log_path \<circ> fst) sample_demo_env ''script exit=''
      (sample_mac, sample_mac_world (\<lambda>_. None))
      (network_demo_main (mac_start (sample_vz StopOk)) (mac_stop (sample_vz StopOk)) (mac_serial_log_path \<circ> fst) sample_demo_env
         (sample_mac, sample_mac_world (\<lambda>_. None)))"
  by (rule demos_report) (simp_all add: sample_demo_env_def)

end
