(* ===== verification/Demo_Files.thy ===== *)
theory Demo_Files
  imports Demos
begin

text \<open>
  What the two file demonstrations are about: the file that \<^verbatim>\<open>host_dir_demo.rs\<close> writes on the
  host, or that \<^verbatim>\<open>MemoryVfs::new\<close> holds, is what the guest's script reads through the mount.
\<close>

section \<open>The host directory\<close>

text \<open>\<^verbatim>\<open>Path::is_dir\<close> and \<^verbatim>\<open>std::fs::create_dir_all\<close>.\<close>

definition path_is_dir :: "host_os \<Rightarrow> path \<Rightarrow> bool" where
  "path_is_dir os p = (case os_resolve os p of Ok k \<Rightarrow> is_dir_at os k | Err _ \<Rightarrow> False)"

lemma path_parent_smaller: "path_parent p = Some q \<Longrightarrow> length (components q) < length (components p)"
proof (cases "components p" rule: rev_cases)
  case (snoc cs c)
  assume "path_parent p = Some q"
  moreover from this snoc have "c \<noteq> RootDir" by (auto simp: path_parent_def)
  ultimately show ?thesis using path_parent_snoc[OF snoc] snoc by auto
qed (simp add: path_parent_def)

definition make_dir :: "path \<Rightarrow> host_os \<Rightarrow> (unit, io_error) result \<times> host_os" where
  "make_dir p os =
     (case os_create_dir os p of
        (Ok _, os1) \<Rightarrow> (Ok (), os1)
      | (Err e, os1) \<Rightarrow> (if path_is_dir os1 p then Ok () else Err e, os1))"

function create_dir_all :: "path \<Rightarrow> host_os \<Rightarrow> (unit, io_error) result \<times> host_os" where
  "create_dir_all p os =
     (if p = [] then (Ok (), os)
      else case os_create_dir os p of
        (Ok _, os1) \<Rightarrow> (Ok (), os1)
      | (Err e, os1) \<Rightarrow>
          if ioe_kind e \<noteq> EkNotFound then (if path_is_dir os1 p then Ok () else Err e, os1)
          else (case path_parent p of
            None \<Rightarrow> (Err e, os1)
          | Some q \<Rightarrow>
              (case create_dir_all q os1 of
                 (Err e', os2) \<Rightarrow> (Err e', os2)
               | (Ok _, os2) \<Rightarrow> make_dir p os2)))"
  by pat_completeness auto
termination
  by (relation "measure (\<lambda>(p, _). length (components p))") (auto dest: path_parent_smaller)

declare create_dir_all.simps [simp del]

text \<open>What \<^verbatim>\<open>main\<close> does on the host before it starts the sandbox.\<close>

definition host_dir_demo_setup :: "path \<Rightarrow> host_os \<Rightarrow> (unit, io_error) result \<times> host_os" where
  "host_dir_demo_setup temp os =
     (case create_dir_all (host_dir_demo_dir temp) os of
        (_, os1) \<Rightarrow>
          (case os_open_write os1 True True (path_join (host_dir_demo_dir temp) ''hello.txt'') of
             (Err e, os2) \<Rightarrow> (Err e, os2)
           | (Ok k, os2) \<Rightarrow> os_write_all os2 k 0 (map of_char host_dir_magic @ [10])))"

lemma abs_path_snoc:
  assumes "list_all name_ok r" and "name_ok n"
  shows "path_join (abs_path r) n = abs_path (r @ [n])"
proof (cases r rule: rev_cases)
  case Nil
  then show ?thesis using assms(2) by (simp add: abs_path_def path_join_def)
next
  case (snoc ks m)
  have snoc2: "abs_path (xs @ [x]) = join_with [slash] (map comp_string (RootDir # map Normal xs)) @ [slash] @ x" for xs x
    using join_with_snoc[of "map comp_string (RootDir # map Normal xs)" "[slash]" x]
    by (cases xs) (simp_all add: abs_path_def)
  have "m \<noteq> []" "slash \<notin> set m" using assms(1) snoc by (auto simp: name_ok_def)
  then have "abs_path r \<noteq> []" "last (abs_path r) \<noteq> slash"
    unfolding snoc snoc2 by (auto simp del: last_in_set dest: last_in_set)
  moreover have "abs_path r = join_with [slash] (map comp_string (RootDir # map Normal r))"
    unfolding snoc by (cases ks) (simp_all add: abs_path_def)
  ultimately show ?thesis using assms(2) snoc2[of r n] by (simp add: path_join_def)
qed

lemma demo_dir_key:
  assumes "list_all name_ok r"
  shows "host_dir_demo_dir (abs_path r) = abs_path (r @ [''tokimo-host-dir-demo''])"
proof -
  have "name_ok ''tokimo-host-dir-demo''" by code_simp
  from abs_path_snoc[OF assms this] show ?thesis by (simp only: host_dir_demo_dir_def)
qed

text \<open>Over a temporary directory in which neither name is a link or of the wrong kind.\<close>

lemma host_dir_demo_writes:
  assumes wf: "os_wf os" "healthy os" and r: "list_all name_ok r" "is_dir_at os r"
    and d: "d = r @ [''tokimo-host-dir-demo'']" "node_at os d = None \<or> is_dir_at os d"
    and f: "node_at os (d @ [''hello.txt'']) = None \<or> (\<exists>m bs. node_at os (d @ [''hello.txt'']) = Some (NFile m bs))"
  shows "\<exists>os' m. host_dir_demo_setup (abs_path r) os = (Ok (), os') \<and>
    serves (host_fs_new (host_dir_demo_dir (abs_path r)) False) d os' [''hello.txt''] \<and>
    node_at os' (d @ [''hello.txt'']) = Some (NFile m (map of_char host_dir_magic @ [10]))"
proof -
  have names: "name_ok ''tokimo-host-dir-demo''" "name_ok ''hello.txt''" by code_simp+
  have dk: "host_dir_demo_dir (abs_path r) = abs_path d" using demo_dir_key[OF r(1)] d(1) by simp
  have dn: "list_all name_ok d" using r(1) names d(1) by simp
  have pd: "components (abs_path d) = RootDir # map Normal r @ [Normal ''tokimo-host-dir-demo'']"
    using dn d(1) by simp
  have loc: "os_locate os (abs_path d) = Ok (d, True)" using locate_plain[OF wf(1) r(2) pd] d(1) by simp
  obtain os1 r1 where c: "create_dir_all (abs_path d) os = (r1, os1)" "is_dir_at os1 d" "os_wf os1" "healthy os1"
      "node_at os1 (d @ [''hello.txt'']) = node_at os (d @ [''hello.txt''])"
  proof (cases "node_at os d = None")
    case True
    let ?os1 = "put_node os d (NDir (os_fresh os True) 4096)"
    have "create_dir_all (abs_path d) os = (Ok (), ?os1)"
      using loc wf(2) True abs_path_nonempty[OF dn] by (simp add: create_dir_all.simps os_create_dir_def)
    moreover have "is_dir_at ?os1 d" using d(1) by (simp add: is_dir_at_put)
    moreover have "os_wf ?os1" using dn d(1) r(2) by (intro os_wf_put[OF wf(1)]) auto
    ultimately show ?thesis using that wf(2) d(1) by simp
  next
    case False
    then have dir: "is_dir_at os d" using d(2) by auto
    have "path_is_dir os (abs_path d)"
      using resolve_plain_node[OF wf(1) r(2) pd] dir d(1) by (auto simp: path_is_dir_def is_dir_at_node)
    then have "create_dir_all (abs_path d) os = (Ok (), os)"
      using loc wf(2) dir abs_path_nonempty[OF dn]
      by (auto simp: create_dir_all.simps os_create_dir_def eexist_def is_dir_at_node)
    then show ?thesis using that dir wf by blast
  qed
  let ?q = "path_join (abs_path d) ''hello.txt''" and ?k = "d @ [''hello.txt'']"
  have pq: "components ?q = RootDir # map Normal d @ [Normal ''hello.txt'']"
    using components_join_name[OF names(2) abs_path_nonempty[OF dn]] dn by simp
  have "node_at os1 ?k \<noteq> Some (NLink m t)" for m t using f c(5) by auto
  from resolve_plain_node[OF c(3) c(2) pq this] have res: "os_resolve os1 ?q = Ok ?k" by blast
  obtain os2 m where op: "os_open_write os1 True True ?q = (Ok ?k, os2)" "node_at os2 ?k = Some (NFile m [])"
      "healthy os2" "is_dir_at os2 d"
    using res f c by (auto simp: os_open_write_def put_data_def is_dir_at_put)
  have wf2: "os_wf os2"
    using op(1) os_open_write_steps[OF c(3), of ?q "\<lambda>_. True" True True] host_steps_wf c(3) by fastforce
  show ?thesis
    using op c(1) wf2 os_wf_put_data[OF wf2 op(2)] dk dn names
    by (auto simp: host_dir_demo_setup_def os_write_all_def overwrite_def serves_def host_fs_new_def
        put_data_def is_dir_at_put)
qed



section \<open>What the script reads\<close>

text \<open>What the guest's script makes the kernel ask: look the file up, open it, read it.\<close>

definition demo_reads :: "fuse_op list" where
  "demo_reads = [FLookup 1 ''hello.txt'', FOpen 2, FRead 1 0 4096]"

definition config_line :: "'v sandbox_config \<Rightarrow> bool \<Rightarrow> string" where
  "config_line cfg has_rootfs =
     linux_kernel_cmdline (sc_extra_cmdline cfg) (map (\<lambda>m. (ms_tag m, ms_guest_path m)) (sc_mounts cfg))
       has_rootfs (sc_interactive_serial cfg)"

lemma reads_file:
  assumes "vfs_stat V ''/hello.txt'' w = (Ok a, w)" and "vfs_read V ''/hello.txt'' 0 4096 w = (Ok bs, w)"
  shows "fst (fuse_run V full demo_reads (tokimo_fuse_new, w)) = [REntry (to_fuse_attr 2 a), ROpened 1, RData bs]"
proof -
  have j: "join root_path ''hello.txt'' = ''/hello.txt''" "\<not> path_eq ''/hello.txt'' root_path"
    by (simp_all add: join_def root_path_def path_join_def has_root_def path_eq_def) code_simp
  show ?thesis using assms
    by (simp add: demo_reads_def fuse_defs path_for_def tokimo_fuse_new_def j intern_def alloc_fh_def Let_def max0_def)
qed


lemma hello_path: "abs_path [''hello.txt''] = ''/hello.txt''"
  by (simp add: abs_path_def)

lemma hello_components: "components ''/hello.txt'' = [RootDir, Normal ''hello.txt'']" "components ''/'' = [RootDir]"
  by code_simp+

text \<open>The script's reads get the line.\<close>

definition reads_line :: "'s tokimo_vfs \<Rightarrow> ((u64 \<times> u64 \<times> file_type \<times> string) list \<Rightarrow> u64 \<times> u64 \<times> file_type \<times> string \<Rightarrow> bool) \<Rightarrow>
    's \<Rightarrow> string \<Rightarrow> bool" where
  "reads_line V full s line \<longleftrightarrow>
     (\<exists>a. fst (fuse_run V full demo_reads (tokimo_fuse_new, s)) = [REntry a, ROpened 1, RData (map of_char line @ [10])])"

lemma memory_demo_reads: "reads_line memory_vfs full (memory_vfs_new now) magic"
proof -
  let ?m = "memory_vfs_new now"
  have get: "mem_get ?m ''/hello.txt'' = Some (MFile (map of_char magic @ [10]))"
    by (simp add: memory_vfs_new_def hello_components)
  have "vfs_stat memory_vfs ''/hello.txt'' ?m = (Ok (attr_of (mv_now ?m) (MFile (map of_char magic @ [10]))), ?m)"
    using get by (simp add: memory_vfs_def mem_stat_def)
  moreover have "vfs_read memory_vfs ''/hello.txt'' 0 4096 ?m = (Ok (map of_char magic @ [10]), ?m)"
    using get by (simp add: memory_vfs_def mem_read_def magic_def)
  ultimately show ?thesis unfolding reads_line_def by (intro exI) (rule reads_file)
qed

lemma host_dir_demo_reads:
  assumes "serves h r os [''hello.txt'']"
    and "node_at os (r @ [''hello.txt'']) = Some (NFile m (map of_char host_dir_magic @ [10]))"
  shows "reads_line (host_fs_vfs h) full os host_dir_magic"
proof -
  obtain q where q: "resolve h os ''/hello.txt'' = Ok q" "os_locate os q = Ok (r @ [''hello.txt''], True)"
    by (rule serves_resolve[OF assms(1), unfolded hello_path])
  have "healthy os" using assms(1) by (simp add: serves_def)
  then have "vfs_stat (host_fs_vfs h) ''/hello.txt'' os =
      (Ok (attr_from_meta (NFile m (map of_char host_dir_magic @ [10]))), os)"
    using q assms(2) by (simp add: host_fs_vfs_def hfs_stat_def hfs_lstat_def os_symlink_metadata_def)
  moreover have "vfs_read (host_fs_vfs h) ''/hello.txt'' 0 4096 os = (Ok (map of_char host_dir_magic @ [10]), os)"
    using hfs_read_plain[OF assms, of 0 4096, unfolded hello_path] by (simp add: host_fs_vfs_def host_dir_magic_def)
  ultimately show ?thesis unfolding reads_line_def by (intro exI) (rule reads_file)
qed


section \<open>The configurations\<close>

text \<open>The guest mounts the tag at the point, runs a script that prints \<^verbatim>\<open>hello.txt\<close> there, and the
  host serves the mount with the provider.\<close>

definition demo_wired :: "'v sandbox_config \<Rightarrow> string \<Rightarrow> path \<Rightarrow> 'v served \<Rightarrow> bool" where
  "demo_wired cfg tag point prov \<longleftrightarrow>
     (\<forall>rootfs. guest_mounts (config_line cfg rootfs) = [(tag, point)] \<and>
        guest_script (config_line cfg rootfs) = Some (print_script (point @ ''/hello.txt''))) \<and>
     map mount_provider (sc_mounts cfg) = [prov]"

lemma demo_wiredI:
  assumes "sc_mounts cfg = [m]" and "sc_extra_cmdline cfg = [script_key @ print_script (ms_guest_path m @ ''/hello.txt'')]"
    and "\<not> sc_interactive_serial cfg" and "plain_mount (ms_tag m, ms_guest_path m)"
    and "no_mount_words (script_key @ print_script (ms_guest_path m @ ''/hello.txt''))"
    and "last_after script_key (print_script (ms_guest_path m @ ''/hello.txt'')) = None"
  shows "demo_wired cfg (ms_tag m) (ms_guest_path m) (mount_provider m)"
proof -
  let ?b = "print_script (ms_guest_path m @ ''/hello.txt'')"
  have line: "config_line cfg rootfs = linux_kernel_cmdline [script_key @ ?b] [(ms_tag m, ms_guest_path m)] rootfs False" for rootfs
    unfolding config_line_def assms(1,2) using assms(3) by (simp only: list.map)
  have "guest_script (config_line cfg rootfs) = Some ?b" for rootfs
    unfolding line by (rule conjunct1[OF cmdline_script_rt[OF _ assms(6)]]) simp
  moreover have "guest_mounts (config_line cfg rootfs) = [(ms_tag m, ms_guest_path m)]" for rootfs
    unfolding line by (rule conjunct1[OF cmdline_mounts_rt]) (simp_all only: list.pred_inject assms(4,5) simp_thms)
  ultimately show ?thesis using assms(1) by (simp add: demo_wired_def)
qed

lemmas demo_config_defs = host_dir_demo_config_def memory_demo_config_def push_cmdline_def with_mount_def
  with_memory_mib_def with_vcpus_def sandbox_config_new_def

lemma host_dir_demo_wired:
  "demo_wired (host_dir_demo_config temp) ''hosttmp'' ''/mnt/tmp'' (ServeHost (host_fs_new (host_dir_demo_dir temp) False))"
proof -
  have ok: "plain_mount (''hosttmp'', ''/mnt/tmp'')" "no_mount_words (script_key @ print_script (''/mnt/tmp'' @ ''/hello.txt''))"
    "last_after script_key (print_script (''/mnt/tmp'' @ ''/hello.txt'')) = None"
    by code_simp+
  show ?thesis
    using demo_wiredI[of "host_dir_demo_config temp" "HostDir ''/mnt/tmp'' (host_dir_demo_dir temp) False ''hosttmp''",
      unfolded mount_spec.sel mount_provider.simps, OF _ _ _ ok]
    by (simp add: demo_config_defs)
qed

lemma memory_demo_wired: "demo_wired (memory_demo_config v) ''mem'' ''/mnt/mem'' (ServeVfs v)"
proof -
  have ok: "plain_mount (''mem'', ''/mnt/mem'')" "no_mount_words (script_key @ print_script (''/mnt/mem'' @ ''/hello.txt''))"
    "last_after script_key (print_script (''/mnt/mem'' @ ''/hello.txt'')) = None"
    by code_simp+
  show ?thesis
    using demo_wiredI[of "memory_demo_config v" "VfsMount ''/mnt/mem'' v False ''mem''",
      unfolded mount_spec.sel mount_provider.simps, OF _ _ _ ok]
    by (simp add: demo_config_defs)
qed


section \<open>Properties\<close>

text \<open>C35: What the two file demonstrations set up is what their scripts need: the guest mounts the
  configured tag at the configured path, its script is the one configured, and when the
  script's reads of \<^verbatim>\<open>hello.txt\<close> reach the mount's provider it gets the expected line, of
  the file the first has written on the host, and of a new \<^verbatim>\<open>MemoryVfs\<close> in the second.\<close>

theorem demos_show_hello:
  assumes "os_wf os" and "healthy os" and "list_all name_ok r" and "is_dir_at os r"
    and "d = r @ [''tokimo-host-dir-demo'']" and "node_at os d = None \<or> is_dir_at os d"
    and "node_at os (d @ [''hello.txt'']) = None \<or> (\<exists>m bs. node_at os (d @ [''hello.txt'']) = Some (NFile m bs))"
    and "h = host_fs_new (host_dir_demo_dir (abs_path r)) False"
  shows "\<exists>os'. host_dir_demo_setup (abs_path r) os = (Ok (), os') \<and>
    demo_wired (host_dir_demo_config (abs_path r) :: 'v sandbox_config) ''hosttmp'' ''/mnt/tmp'' (ServeHost h) \<and>
    reads_line (host_fs_vfs h) full os' host_dir_magic \<and>
    demo_wired (memory_demo_config (v :: 'v)) ''mem'' ''/mnt/mem'' (ServeVfs v) \<and>
    reads_line memory_vfs full (memory_vfs_new now) magic"
proof -
  obtain os' m where w: "host_dir_demo_setup (abs_path r) os = (Ok (), os')"
    "serves h d os' [''hello.txt'']" "node_at os' (d @ [''hello.txt'']) = Some (NFile m (map of_char host_dir_magic @ [10]))"
    using host_dir_demo_writes[OF assms(1-7)] assms(8) by blast
  show ?thesis
    unfolding assms(8)
    by (intro exI conjI, rule w(1), rule host_dir_demo_wired, rule host_dir_demo_reads[OF w(2,3)[unfolded assms(8)]],
        rule memory_demo_wired, rule memory_demo_reads)
qed

text \<open>A host with an empty temporary directory.\<close>

definition demo_os :: host_os where
  "demo_os = sample_os\<lparr>os_nodes := [([''tmp''], NDir sample_meta 4096)]\<rparr>"

theorem demos_show_hello_witness:
  "\<exists>os'. host_dir_demo_setup ''/tmp'' demo_os = (Ok (), os') \<and>
    reads_line (host_fs_vfs (host_fs_new ''/tmp/tokimo-host-dir-demo'' False)) (\<lambda>_ _. False) os' host_dir_magic"
proof -
  have "os_wf demo_os" "list_all name_ok [''tmp'']" "is_dir_at demo_os [''tmp'']" by code_simp+
  moreover have "healthy demo_os" by (simp add: demo_os_def healthy_def sample_os_def)
  moreover have "node_at demo_os ([''tmp''] @ [''tokimo-host-dir-demo'']) = None"
    "node_at demo_os (([''tmp''] @ [''tokimo-host-dir-demo'']) @ [''hello.txt'']) = None"
    by (simp_all add: demo_os_def node_at_def)
  moreover have "abs_path [''tmp''] = ''/tmp''" "host_dir_demo_dir ''/tmp'' = ''/tmp/tokimo-host-dir-demo''"
    by code_simp+
  ultimately show ?thesis
    using demos_show_hello[of demo_os "[''tmp'']" _ _ "\<lambda>_ _. False" "0 :: nat" 0] by auto
qed

end
