(* ===== verification/Memory_Lock.thy ===== *)
theory Memory_Lock
  imports Rpc Memory_Vfs
begin

text \<open>
  \<^verbatim>\<open>MemoryVfs\<close> behind its mutex, its methods cut at their changes. Every method takes the
  lock first and gives it back when it returns; in between, \<^verbatim>\<open>write\<close> resizes the vector and
  then copies, \<^verbatim>\<open>create\<close> and \<^verbatim>\<open>mkdir\<close> look the path up and then insert, \<^verbatim>\<open>rename\<close> removes
  the node and then inserts it. A method can also end otherwise: arithmetic on \<^verbatim>\<open>usize\<close> that
  does not fit, a slice whose start is behind its end, or a vector longer than
  \<^verbatim>\<open>isize::MAX\<close> is a panic, which poisons the mutex, so that \<^verbatim>\<open>lock().unwrap()\<close> panics from
  then on; memory that cannot be had aborts the process. \<open>Memory_Vfs\<close> has the whole methods
  where none of this happens. Whether overflow is checked (a debug build) and how long a
  vector the memory holds are parameters.
\<close>

section \<open>The methods in steps\<close>

datatype lock_state = Lock_free | Lock_held | Lock_poisoned | Process_gone

record mem_host =
  mh_vfs :: mem_vfs
  mh_lock :: lock_state

text \<open>How far a method has got, and what one step of it does.\<close>

datatype mem_work = Entered | Checked | Resized | Taken mem_node

datatype mem_out =
    Goes_on mem_work mem_vfs
  | Returns response mem_vfs
  | Panics mem_vfs
  | Aborts

definition whole_method :: "request \<Rightarrow> mem_vfs \<Rightarrow> mem_out" where
  "whole_method req m = (case handle memory_vfs req m of (resp, m1) \<Rightarrow> Returns resp m1)"

text \<open>Growing a vector to length \<open>n\<close>.\<close>

definition grow :: "nat \<Rightarrow> nat \<Rightarrow> mem_vfs \<Rightarrow> mem_out \<Rightarrow> mem_out" where
  "grow room n m out = (if 2 ^ 63 \<le> n then Panics m else if room < n then Aborts else out)"

definition mem_enter :: "bool \<Rightarrow> nat \<Rightarrow> request \<Rightarrow> mem_vfs \<Rightarrow> mem_out" where
  "mem_enter checks room req m =
     (case req of
        ReqRead p off len \<Rightarrow>
          (case mem_get m p of
             Some (MFile d) \<Rightarrow>
               if checks \<and> 2 ^ 64 \<le> unat off + unat len then Panics m else whole_method req m
           | _ \<Rightarrow> whole_method req m)
      | ReqWrite p off data \<Rightarrow>
          (case mem_get m p of
             Some (MFile d) \<Rightarrow>
               let end_at = unat off + length data; e = end_at mod 2 ^ 64;
                   m1 = (if length d < e then mem_put m p (MFile (resize d e)) else m);
                   next_step = (if 2 ^ 64 \<le> end_at then Panics m1 else Goes_on Resized m1)
               in if checks \<and> 2 ^ 64 \<le> end_at then Panics m
                  else if length d < e then grow room e m next_step else next_step
           | _ \<Rightarrow> whole_method req m)
      | ReqTruncate p sz \<Rightarrow>
          (case mem_get m p of
             Some (MFile d) \<Rightarrow>
               if length d < unat sz then grow room (unat sz) m (whole_method req m) else whole_method req m
           | _ \<Rightarrow> whole_method req m)
      | ReqCreate p mode \<Rightarrow>
          if mem_get m p \<noteq> None then Returns (RespCreate (Err AlreadyExists)) m else Goes_on Checked m
      | ReqMkdir p mode \<Rightarrow>
          if mem_get m p \<noteq> None then Returns (RespMkdir (Err AlreadyExists)) m else Goes_on Checked m
      | ReqRename p q \<Rightarrow>
          (case mem_get m p of
             None \<Rightarrow> Returns (RespRename (Err NotFound)) m
           | Some n \<Rightarrow> Goes_on (Taken n) (mem_del m p))
      | _ \<Rightarrow> whole_method req m)"

fun mem_step :: "bool \<Rightarrow> nat \<Rightarrow> request \<Rightarrow> mem_work \<Rightarrow> mem_vfs \<Rightarrow> mem_out" where
  "mem_step checks room req Entered m = mem_enter checks room req m"
| "mem_step checks room (ReqCreate p mode) Checked m =
     Returns (RespCreate (Ok (attr_of (mv_now m) (MFile [])))) (mem_put m p (MFile []))"
| "mem_step checks room (ReqMkdir p mode) Checked m =
     Returns (RespMkdir (Ok (attr_of (mv_now m) MDir))) (mem_put m p MDir)"
| "mem_step checks room (ReqWrite p off data) Resized m =
     (case mem_get m p of
        Some (MFile d) \<Rightarrow> Returns (RespWrite (Ok (of_nat (length data)))) (mem_put m p (MFile (copy_at d (unat off) data)))
      | _ \<Rightarrow> Panics m)"
| "mem_step checks room (ReqRename p q) (Taken n) m = Returns (RespRename (Ok ())) (mem_put m q n)"
| "mem_step checks room _ _ m = Panics m"


section \<open>Steps and whole methods\<close>

text \<open>Whether a request stays within \<^verbatim>\<open>usize\<close> and the memory.\<close>

definition mem_fits :: "bool \<Rightarrow> nat \<Rightarrow> request \<Rightarrow> mem_vfs \<Rightarrow> bool" where
  "mem_fits checks room req m =
     (case req of
        ReqRead p off len \<Rightarrow>
          (case mem_get m p of
             Some (MFile d) \<Rightarrow> checks \<longrightarrow> unat off + unat len < 2 ^ 64
           | _ \<Rightarrow> True)
      | ReqWrite p off data \<Rightarrow>
          (case mem_get m p of
             Some (MFile d) \<Rightarrow> unat off + length data < 2 ^ 64 \<and>
               (unat off + length data \<le> length d \<or> unat off + length data < 2 ^ 63 \<and> unat off + length data \<le> room)
           | _ \<Rightarrow> True)
      | ReqTruncate p sz \<Rightarrow>
          (case mem_get m p of
             Some (MFile d) \<Rightarrow> unat sz \<le> length d \<or> unat sz < 2 ^ 63 \<and> unat sz \<le> room
           | _ \<Rightarrow> True)
      | _ \<Rightarrow> True)"

text \<open>How a method that has started on \<open>m0\<close> can have got to \<open>wk\<close> and \<open>m\<close>.\<close>

definition got_to :: "bool \<Rightarrow> nat \<Rightarrow> request \<Rightarrow> mem_vfs \<Rightarrow> mem_work \<Rightarrow> mem_vfs \<Rightarrow> bool" where
  "got_to checks room req m0 wk m \<longleftrightarrow>
     wk = Entered \<and> m = m0 \<or> wk \<noteq> Entered \<and> mem_enter checks room req m0 = Goes_on wk m"

lemma update_twice: "AList.update k b (AList.update k a xs) = AList.update k b xs"
  by (induction xs) auto

lemma mem_put_twice [simp]: "mem_put (mem_put m p a) p b = mem_put m p b"
  by (simp add: mem_put_def update_twice)

lemma mv_now_mem [simp]: "mv_now (mem_put m p n) = mv_now m" "mv_now (mem_del m p) = mv_now m"
  by (simp_all add: mem_put_def mem_del_def)

lemmas mem_method_defs = memory_vfs_def mem_write_def mem_create_def mem_mkdir_def mem_insert_new_def
  mem_rename_def

lemma mem_enter_goes:
  assumes "mem_enter checks room req m0 = Goes_on wk m"
  shows "wk \<noteq> Entered \<and> \<not> (\<exists>wk' m'. mem_step checks room req wk m = Goes_on wk' m') \<and>
    (\<forall>resp m'. mem_step checks room req wk m = Returns resp m' \<longrightarrow> handle memory_vfs req m0 = (resp, m'))"
  using assms
  by (cases req)
    (auto simp: mem_enter_def whole_method_def grow_def Let_def mem_method_defs
      split: option.splits mem_node.splits if_splits prod.splits)

text \<open>A method that returns, in its steps, is the whole method.\<close>

lemma mem_returns:
  assumes "got_to checks room req m0 wk m" and "mem_step checks room req wk m = Returns resp m'"
  shows "handle memory_vfs req m0 = (resp, m')"
proof (cases "wk = Entered")
  case True
  then have "mem_enter checks room req m0 = Returns resp m'" using assms by (simp add: got_to_def)
  then show ?thesis
    by (cases req) (auto simp: mem_enter_def whole_method_def grow_def Let_def mem_method_defs
      split: option.splits mem_node.splits if_splits prod.splits)
next
  case False
  then show ?thesis using assms mem_enter_goes[of checks room req m0 wk m] by (auto simp: got_to_def)
qed

lemma mem_goes_on:
  assumes "got_to checks room req m0 wk m" and "mem_step checks room req wk m = Goes_on wk' m'"
  shows "got_to checks room req m0 wk' m'"
  using assms mem_enter_goes[of checks room req m0] by (auto simp: got_to_def)

text \<open>A method that does not fit does not return.\<close>

lemma mem_enter_too_big:
  assumes "\<not> mem_fits checks room req m"
  shows "(\<exists>m1. mem_enter checks room req m = Panics m1) \<or> mem_enter checks room req m = Aborts"
  using assms
  by (cases req) (auto simp: mem_fits_def mem_enter_def grow_def Let_def split: option.splits mem_node.splits)

text \<open>One that fits returns after one step or two.\<close>

lemma mem_enter_fits:
  assumes "mem_fits checks room req m"
  shows "(\<exists>resp m1. mem_enter checks room req m = Returns resp m1) \<or>
    (\<exists>wk m1 resp m2. mem_enter checks room req m = Goes_on wk m1 \<and> mem_step checks room req wk m1 = Returns resp m2)"
  using assms
  by (cases req) (auto simp: mem_fits_def mem_enter_def whole_method_def grow_def Let_def
      split: option.splits mem_node.splits prod.splits)

fun is_hello :: "request \<Rightarrow> bool" where
  "is_hello (ReqHello v) = True"
| "is_hello _ = False"

end
