(* ===== verification/Serve_Many.thy ===== *)
theory Serve_Many
  imports Rpc_Props Memory_Lock
begin

text \<open>
  Many connections on one \<^verbatim>\<open>MemoryVfs\<close>. The accept task spawns a \<^verbatim>\<open>serve_stream\<close> per
  connection, all on the same \<^verbatim>\<open>Arc\<close>, so their loops interleave: between reading a request,
  taking the lock, every step of the method, and writing the response the other tasks may
  run. A task that finds the mutex locked blocks until it is free. Bytes arrive and
  connections end at any time. (\<open>Host_Conc\<close> has the tasks of \<^verbatim>\<open>HostFs\<close>, which takes no lock.)
\<close>

section \<open>Connections\<close>

datatype sv_phase =
    Reading
  | Calling request  \<comment> \<open>before \<^verbatim>\<open>lock()\<close>\<close>
  | Working request mem_work  \<comment> \<open>holding the lock\<close>
  | Replying response
  | Ended

record server_conn =
  sv_up :: "byte list"  \<comment> \<open>arrived and not yet read\<close>
  sv_closed :: bool
  sv_down :: wchan
  sv_phase :: sv_phase

text \<open>What is observed: a request read, a request run to its end, a response written.\<close>

datatype sv_event = Asked request | Ran request response | Told response

text \<open>One step of the task of a connection.\<close>

definition serve_turn :: "bool \<Rightarrow> nat \<Rightarrow> codec \<Rightarrow> server_conn \<Rightarrow> mem_host \<Rightarrow> sv_event list \<times> server_conn \<times> mem_host" where
  "serve_turn checks room c k h =
     (if mh_lock h = Process_gone then ([], k, h)
      else case sv_phase k of
        Reading \<Rightarrow>
          (case read_frame (dec_req c) (sv_closed k) (sv_up k) of
             Waiting \<Rightarrow> ([], k, h)
           | Failed e rest \<Rightarrow> ([], k\<lparr>sv_up := rest, sv_phase := Ended\<rparr>, h)
           | Got req rest \<Rightarrow> ([Asked req], k\<lparr>sv_up := rest, sv_phase := Calling req\<rparr>, h))
      | Calling req \<Rightarrow>
          if is_hello req
          then (let resp = RespHello protocol_version in ([Ran req resp], k\<lparr>sv_phase := Replying resp\<rparr>, h))
          else if mh_lock h = Lock_free then ([], k\<lparr>sv_phase := Working req Entered\<rparr>, h\<lparr>mh_lock := Lock_held\<rparr>)
          else if mh_lock h = Lock_held then ([], k, h)
          else ([], k\<lparr>sv_phase := Ended\<rparr>, h)
      | Working req wk \<Rightarrow>
          (case mem_step checks room req wk (mh_vfs h) of
             Goes_on wk1 m \<Rightarrow> ([], k\<lparr>sv_phase := Working req wk1\<rparr>, h\<lparr>mh_vfs := m\<rparr>)
           | Returns resp m \<Rightarrow>
               ([Ran req resp], k\<lparr>sv_phase := Replying resp\<rparr>, h\<lparr>mh_vfs := m, mh_lock := Lock_free\<rparr>)
           | Panics m \<Rightarrow> ([], k\<lparr>sv_phase := Ended\<rparr>, h\<lparr>mh_vfs := m, mh_lock := Lock_poisoned\<rparr>)
           | Aborts \<Rightarrow> ([], k\<lparr>sv_phase := Ended\<rparr>, h\<lparr>mh_lock := Process_gone\<rparr>))
      | Replying resp \<Rightarrow>
          (case write_frame (enc_resp c) resp (sv_down k) of
             (Err e, w) \<Rightarrow> ([], k\<lparr>sv_down := w, sv_phase := Ended\<rparr>, h)
           | (Ok _, w) \<Rightarrow> ([Told resp], k\<lparr>sv_down := w, sv_phase := Reading\<rparr>, h))
      | Ended \<Rightarrow> ([], k, h))"

datatype serve_move = Turn nat | Arrive nat "byte list" | Hangup nat

record serving =
  sg_conns :: "server_conn list"
  sg_host :: mem_host
  sg_trace :: "(nat \<times> sv_event) list"

fun move_step :: "bool \<Rightarrow> nat \<Rightarrow> codec \<Rightarrow> serve_move \<Rightarrow> serving \<Rightarrow> serving" where
  "move_step checks room c (Turn i) g =
     (if i < length (sg_conns g) then
        (case serve_turn checks room c (sg_conns g ! i) (sg_host g) of
           (es, k, h) \<Rightarrow> \<lparr>sg_conns = (sg_conns g)[i := k], sg_host = h, sg_trace = sg_trace g @ map (Pair i) es\<rparr>)
      else g)"
| "move_step checks room c (Arrive i bs) g =
     g\<lparr>sg_conns := (sg_conns g)[i := (sg_conns g ! i)\<lparr>sv_up := sv_up (sg_conns g ! i) @ bs\<rparr>]\<rparr>"
| "move_step checks room c (Hangup i) g =
     g\<lparr>sg_conns := (sg_conns g)[i := (sg_conns g ! i)\<lparr>sv_closed := True\<rparr>]\<rparr>"

definition serve_moves :: "bool \<Rightarrow> nat \<Rightarrow> codec \<Rightarrow> serve_move list \<Rightarrow> server_conn list \<Rightarrow> mem_host \<Rightarrow> serving" where
  "serve_moves checks room c ms ks h =
     fold (move_step checks room c) ms \<lparr>sg_conns = ks, sg_host = h, sg_trace = []\<rparr>"


section \<open>What is observed of one connection\<close>

definition of_conn :: "nat \<Rightarrow> (nat \<times> 'a) list \<Rightarrow> 'a list" where
  "of_conn i xs = map snd (filter (\<lambda>(j, _). j = i) xs)"

fun asked :: "sv_event list \<Rightarrow> request list" where
  "asked [] = []"
| "asked (Asked req # es) = req # asked es"
| "asked (_ # es) = asked es"

fun told :: "sv_event list \<Rightarrow> response list" where
  "told [] = []"
| "told (Told resp # es) = resp # told es"
| "told (_ # es) = told es"

fun ran :: "sv_event list \<Rightarrow> (request \<times> response) list" where
  "ran [] = []"
| "ran (Ran req resp # es) = (req, resp) # ran es"
| "ran (_ # es) = ran es"

text \<open>The requests run, of all connections, in the order of the steps that ended them.\<close>

fun run_order :: "(nat \<times> sv_event) list \<Rightarrow> (nat \<times> request \<times> response) list" where
  "run_order [] = []"
| "run_order ((i, Ran req resp) # es) = (i, req, resp) # run_order es"
| "run_order (_ # es) = run_order es"

text \<open>The bytes that arrive on connection \<open>i\<close>.\<close>

fun received :: "nat \<Rightarrow> serve_move list \<Rightarrow> byte list" where
  "received i [] = []"
| "received i (Arrive j bs # ms) = (if j = i then bs @ received i ms else received i ms)"
| "received i (_ # ms) = received i ms"

text \<open>The first \<open>n\<close> requests in a stream of bytes, and what follows them.\<close>

fun read_reqs :: "codec \<Rightarrow> nat \<Rightarrow> byte list \<Rightarrow> (request list \<times> byte list) option" where
  "read_reqs c 0 bs = Some ([], bs)"
| "read_reqs c (Suc n) bs =
     (case read_frame (dec_req c) False bs of
        Got req rest \<Rightarrow> map_option (apfst (Cons req)) (read_reqs c n rest)
      | _ \<Rightarrow> None)"

text \<open>Responses written one after the other, until one fails.\<close>

fun send_all :: "codec \<Rightarrow> response list \<Rightarrow> wchan \<Rightarrow> bool \<times> wchan" where
  "send_all c [] w = (True, w)"
| "send_all c (r # rs) w =
     (case write_frame (enc_resp c) r w of
        (Err e, w1) \<Rightarrow> (False, w1)
      | (Ok _, w1) \<Rightarrow> send_all c rs w1)"

text \<open>
  Connection \<open>k0\<close> has become \<open>k\<close> after \<open>bs\<close> arrived: what was asked on it are the first requests of
  its stream, what was told has been written to it; until it ends, what it has not read is
  what follows them, and nothing else has been written.
\<close>

definition bytes_served :: "codec \<Rightarrow> server_conn \<Rightarrow> byte list \<Rightarrow> sv_event list \<Rightarrow> server_conn \<Rightarrow> bool" where
  "bytes_served c k0 bs es k \<longleftrightarrow>
     (\<exists>rest. read_reqs c (length (asked es)) (sv_up k0 @ bs) = Some (asked es, rest) \<and>
        (sv_phase k \<noteq> Ended \<longrightarrow> sv_up k = rest)) \<and>
     (\<exists>w. send_all c (told es) (sv_down k0) = (True, w) \<and> (sv_phase k \<noteq> Ended \<longrightarrow> sv_down k = w))"

text \<open>
  The order \<open>l\<close> respects the observed order: at every moment of the trace there is a first
  part of \<open>l\<close> that has, of each connection, the requests whose responses were written by
  then, and none that had not been read yet. So a request answered before another is read
  comes before it in \<open>l\<close>, and each connection is told the results of its requests in order.
\<close>

definition in_real_time :: "(nat \<times> sv_event) list \<Rightarrow> (nat \<times> request \<times> response) list \<Rightarrow> bool" where
  "in_real_time t l \<longleftrightarrow>
     (\<forall>t1. prefix t1 t \<longrightarrow> (\<exists>l1. prefix l1 l \<and>
        (\<forall>i. prefix (told (of_conn i t1)) (map snd (of_conn i l1)) \<and>
             prefix (map fst (of_conn i l1)) (asked (of_conn i t1)))))"


section \<open>Traces and bytes\<close>

lemma of_conn_append [simp]: "of_conn i (xs @ ys) = of_conn i xs @ of_conn i ys"
  by (simp add: of_conn_def)

lemma of_conn_nil [simp]: "of_conn i [] = []"
  by (simp add: of_conn_def)

lemma of_conn_pairs [simp]: "of_conn i (map (Pair j) es) = (if j = i then es else [])"
  by (induction es) (auto simp: of_conn_def)

lemma asked_append [simp]: "asked (es @ es') = asked es @ asked es'"
  by (induction es rule: asked.induct) simp_all

lemma told_append [simp]: "told (es @ es') = told es @ told es'"
  by (induction es rule: told.induct) simp_all

lemma ran_append [simp]: "ran (es @ es') = ran es @ ran es'"
  by (induction es rule: ran.induct) simp_all

lemma run_order_append [simp]: "run_order (t @ t') = run_order t @ run_order t'"
  by (induction t rule: run_order.induct) simp_all

lemma run_order_pairs: "run_order (map (Pair i) es) = map (Pair i) (ran es)"
  by (induction es rule: ran.induct) simp_all

lemma of_conn_run_order: "of_conn i (run_order t) = ran (of_conn i t)"
  by (induction t rule: run_order.induct) (auto simp: of_conn_def)

lemma received_append [simp]: "received i (ms @ ms') = received i ms @ received i ms'"
  by (induction ms rule: received.induct[case_names a b c d]) simp_all

lemma read_frame_open: "read_frame dec b bs = Got m rest \<Longrightarrow> read_frame dec False bs = Got m rest"
  by (auto simp: read_frame_def Let_def split: if_splits result.splits)

lemma read_reqs_more:
  "read_reqs c n bs = Some (rs, rest) \<Longrightarrow> read_reqs c n (bs @ ext) = Some (rs, rest @ ext)"
proof (induction n arbitrary: bs rs)
  case (Suc n)
  then obtain req rest1 rs1 where "read_frame (dec_req c) False bs = Got req rest1"
      "read_reqs c n rest1 = Some (rs1, rest)" "rs = req # rs1"
    by (auto split: read_outcome.splits)
  then show ?case using Suc.IH read_frame_more by fastforce
qed simp

lemma read_reqs_snoc:
  "read_reqs c n bs = Some (rs, rest) \<Longrightarrow> read_frame (dec_req c) False rest = Got req rest' \<Longrightarrow>
     read_reqs c (Suc n) bs = Some (rs @ [req], rest')"
proof (induction n arbitrary: bs rs)
  case (Suc n)
  then obtain r rest1 rs1 where "read_frame (dec_req c) False bs = Got r rest1"
      "read_reqs c n rest1 = Some (rs1, rest)" "rs = r # rs1"
    by (auto split: read_outcome.splits)
  then show ?case using Suc.IH[of rest1 rs1] Suc.prems(2) by simp
qed simp

lemma send_all_snoc:
  "send_all c rs w = (True, w1) \<Longrightarrow> write_frame (enc_resp c) r w1 = (Ok u, w2) \<Longrightarrow>
     send_all c (rs @ [r]) w = (True, w2)"
  by (induction rs arbitrary: w) (auto split: prod.splits result.splits)

text \<open>What has been observed of a connection, by its phase.\<close>

fun phase_ok :: "sv_event list \<Rightarrow> sv_phase \<Rightarrow> bool" where
  "phase_ok es Reading \<longleftrightarrow> asked es = map fst (ran es) \<and> map snd (ran es) = told es"
| "phase_ok es (Calling req) \<longleftrightarrow> asked es = map fst (ran es) @ [req] \<and> map snd (ran es) = told es"
| "phase_ok es (Working req wk) \<longleftrightarrow> asked es = map fst (ran es) @ [req] \<and> map snd (ran es) = told es"
| "phase_ok es (Replying resp) \<longleftrightarrow> asked es = map fst (ran es) \<and> map snd (ran es) = told es @ [resp]"
| "phase_ok es Ended \<longleftrightarrow> prefix (map fst (ran es)) (asked es) \<and> prefix (told es) (map snd (ran es))"

lemma phase_ok_prefixes:
  "phase_ok es ph \<Longrightarrow> prefix (map fst (ran es)) (asked es) \<and> prefix (told es) (map snd (ran es))"
  by (cases ph) simp_all

lemma serve_turn_phase:
  assumes "serve_turn checks room c k h = (es', k', h')" and "phase_ok es (sv_phase k)"
  shows "phase_ok (es @ es') (sv_phase k')"
  using assms phase_ok_prefixes[OF assms(2)]
  by (auto simp: serve_turn_def Let_def split: if_splits sv_phase.splits read_outcome.splits mem_out.splits
      prod.splits result.splits)

lemma serve_turn_one_event:
  "serve_turn checks room c k h = (es', k', h') \<Longrightarrow> es' = [] \<or> (\<exists>e. es' = [e])"
  by (auto simp: serve_turn_def Let_def split: if_splits sv_phase.splits read_outcome.splits mem_out.splits
      prod.splits result.splits)

lemma serve_turn_bytes:
  assumes "serve_turn checks room c k h = (es', k', h')" and "bytes_served c k0 bs es k"
  shows "bytes_served c k0 bs (es @ es') k'"
proof -
  have keep: "bytes_served c k0 bs (es @ es') k'"
    if "asked es' = []" "told es' = []" "sv_phase k' = Ended \<or> sv_phase k \<noteq> Ended \<and> sv_up k' = sv_up k \<and> sv_down k' = sv_down k"
    using assms(2) that by (auto simp: bytes_served_def)
  show ?thesis
  proof (cases "sv_phase k")
    case Reading
    obtain rest where rest: "read_reqs c (length (asked es)) (sv_up k0 @ bs) = Some (asked es, rest)" "sv_up k = rest"
      using assms(2) Reading by (auto simp: bytes_served_def)
    show ?thesis
    proof (cases "\<exists>req r. mh_lock h \<noteq> Process_gone \<and> read_frame (dec_req c) (sv_closed k) (sv_up k) = Got req r")
      case True
      then obtain req r where got: "mh_lock h \<noteq> Process_gone" "read_frame (dec_req c) (sv_closed k) (sv_up k) = Got req r"
        by blast
      then have "es' = [Asked req]" "k' = k\<lparr>sv_up := r, sv_phase := Calling req\<rparr>"
        using assms(1) Reading by (simp_all add: serve_turn_def)
      moreover have "read_frame (dec_req c) False rest = Got req r"
        using read_frame_open[OF got(2)] rest(2) by simp
      ultimately show ?thesis using assms(2) read_reqs_snoc[OF rest(1)] Reading by (auto simp: bytes_served_def)
    next
      case False
      then show ?thesis using assms(1) Reading
        by (intro keep) (auto simp: serve_turn_def split: if_splits read_outcome.splits)
    qed
  next
    case (Replying resp)
    obtain w where w: "send_all c (told es) (sv_down k0) = (True, w)" "sv_down k = w"
      using assms(2) Replying by (auto simp: bytes_served_def)
    show ?thesis
    proof (cases "\<exists>u w1. mh_lock h \<noteq> Process_gone \<and> write_frame (enc_resp c) resp (sv_down k) = (Ok u, w1)")
      case True
      then obtain u w1 where "mh_lock h \<noteq> Process_gone" "write_frame (enc_resp c) resp w = (Ok u, w1)"
        using w(2) by blast
      moreover from this have "es' = [Told resp]" "k' = k\<lparr>sv_down := w1, sv_phase := Reading\<rparr>"
        using assms(1) Replying w(2) by (simp_all add: serve_turn_def)
      ultimately show ?thesis using assms(2) send_all_snoc[OF w(1)] Replying by (auto simp: bytes_served_def)
    next
      case False
      then show ?thesis using assms(1) Replying
        by (intro keep) (auto simp: serve_turn_def split: if_splits prod.splits result.splits)
    qed
  qed (use assms(1) in \<open>intro keep; auto simp: serve_turn_def Let_def split: if_splits mem_out.splits\<close>)+
qed

lemma bytes_served_arrival:
  "bytes_served c k0 bs es k \<Longrightarrow> bytes_served c k0 (bs @ bs') es (k\<lparr>sv_up := sv_up k @ bs'\<rparr>)"
  unfolding bytes_served_def using read_reqs_more[of c _ "sv_up k0 @ bs" _ _ bs'] by fastforce


section \<open>One holder of the lock\<close>

text \<open>
  The lock is held by the one connection that works; the requests that have been run give,
  one after the other, these responses and the state its method has started on.
\<close>

definition lock_ok :: "bool \<Rightarrow> nat \<Rightarrow> mem_host \<Rightarrow> serving \<Rightarrow> bool" where
  "lock_ok checks room h0 g \<longleftrightarrow>
     (\<exists>m0. run_requests memory_vfs (map (\<lambda>(_, req, _). req) (run_order (sg_trace g))) (mh_vfs h0) =
          (map (\<lambda>(_, _, resp). resp) (run_order (sg_trace g)), m0) \<and>
        (mh_lock (sg_host g) = Lock_free \<longrightarrow> mh_vfs (sg_host g) = m0) \<and>
        (\<forall>i < length (sg_conns g). \<forall>req wk. sv_phase (sg_conns g ! i) = Working req wk \<longrightarrow>
           mh_lock (sg_host g) = Lock_held \<and> got_to checks room req m0 wk (mh_vfs (sg_host g)) \<and>
           (\<forall>j < length (sg_conns g). \<forall>req' wk'. sv_phase (sg_conns g ! j) = Working req' wk' \<longrightarrow> j = i)))"

lemma run_requests_snoc:
  "run_requests V rs s = (resps, m0) \<Longrightarrow> handle V r m0 = (resp, m1) \<Longrightarrow>
     run_requests V (rs @ [r]) s = (resps @ [resp], m1)"
  by (induction rs arbitrary: s resps) (auto split: prod.splits)

lemma handle_hello: "is_hello req \<Longrightarrow> handle V req m = (RespHello protocol_version, m)"
  by (cases req) simp_all

text \<open>A turn that neither works on the provider nor touches the lock.\<close>

lemma lock_ok_idle:
  assumes "lock_ok checks room h0 g" and "i < length (sg_conns g)"
    and "\<And>req wk. sv_phase k \<noteq> Working req wk"
    and "run_order t = []"
  shows "lock_ok checks room h0 \<lparr>sg_conns = (sg_conns g)[i := k], sg_host = sg_host g, sg_trace = sg_trace g @ t\<rparr>"
  using assms unfolding lock_ok_def by (auto simp: nth_list_update)

lemma serve_turn_lock:
  assumes ok: "lock_ok checks room h0 g" and i: "i < length (sg_conns g)"
    and turn: "serve_turn checks room c (sg_conns g ! i) (sg_host g) = (es, k, h)"
  shows "lock_ok checks room h0 \<lparr>sg_conns = (sg_conns g)[i := k], sg_host = h, sg_trace = sg_trace g @ map (Pair i) es\<rparr>"
proof -
  let ?k = "sg_conns g ! i" and ?h = "sg_host g" and ?l = "run_order (sg_trace g)"
  let ?g = "\<lparr>sg_conns = (sg_conns g)[i := k], sg_host = h, sg_trace = sg_trace g @ map (Pair i) es\<rparr>"
  obtain m0 where run: "run_requests memory_vfs (map (\<lambda>(_, req, _). req) ?l) (mh_vfs h0) = (map (\<lambda>(_, _, resp). resp) ?l, m0)"
    and free: "mh_lock ?h = Lock_free \<Longrightarrow> mh_vfs ?h = m0"
    and held: "\<And>j req wk. j < length (sg_conns g) \<Longrightarrow> sv_phase (sg_conns g ! j) = Working req wk \<Longrightarrow>
       mh_lock ?h = Lock_held \<and> got_to checks room req m0 wk (mh_vfs ?h)"
    and only: "\<And>j j' req wk req' wk'. j < length (sg_conns g) \<Longrightarrow> j' < length (sg_conns g) \<Longrightarrow>
       sv_phase (sg_conns g ! j) = Working req wk \<Longrightarrow> sv_phase (sg_conns g ! j') = Working req' wk' \<Longrightarrow> j' = j"
    using ok unfolding lock_ok_def by blast
  have quiet: ?thesis if "k = ?k" "h = ?h" "es = []" using that ok by (simp add: lock_ok_def)
  have idle: ?thesis if "h = ?h" "ran es = []" "\<And>req wk. sv_phase k \<noteq> Working req wk"
    using lock_ok_idle[OF ok i that(3), of "map (Pair i) es"] that by (simp add: run_order_pairs)
  show ?thesis
  proof (cases "mh_lock ?h = Process_gone")
    case True
    then show ?thesis using turn quiet by (simp add: serve_turn_def)
  next
    case alive: False
    show ?thesis
    proof (cases "sv_phase ?k")
      case Reading
      then show ?thesis using turn alive idle quiet
        by (auto simp: serve_turn_def split: read_outcome.splits)
    next
      case (Replying resp)
      then show ?thesis using turn alive idle
        by (auto simp: serve_turn_def split: prod.splits result.splits)
    next
      case Ended
      then show ?thesis using turn alive quiet by (auto simp: serve_turn_def)
    next
      case (Calling req)
      consider "is_hello req" | "\<not> is_hello req" "mh_lock ?h = Lock_free" | "\<not> is_hello req" "mh_lock ?h \<noteq> Lock_free"
        by blast
      then show ?thesis
      proof cases
        case 1
        then have now: "es = [Ran req (RespHello protocol_version)]" "sv_phase k = Replying (RespHello protocol_version)" "h = ?h"
          using turn alive Calling by (auto simp: serve_turn_def Let_def)
        have still: "sv_phase (sg_conns g ! j) = Working r w"
          if "sv_phase ((sg_conns g)[i := k] ! j) = Working r w" for j r w
          using that now(2) i by (cases "j = i") auto
        show ?thesis unfolding lock_ok_def
          using run_requests_snoc[OF run handle_hello[OF 1]] now(1,3) free held[OF _ still] only[OF _ _ still still]
          by (intro exI[of _ m0]) auto
      next
        case 2
        then have now: "es = []" "sv_phase k = Working req Entered" "h = ?h\<lparr>mh_lock := Lock_held\<rparr>"
          using turn Calling by (auto simp: serve_turn_def)
        have none: "sv_phase (sg_conns g ! j) \<noteq> Working r wk" if "j < length (sg_conns g)" for j r wk
          using held[OF that, of r wk] 2 by auto
        show ?thesis unfolding lock_ok_def
          using run now free 2 none i by (intro exI[of _ m0]) (auto simp: nth_list_update got_to_def split: if_splits)
      next
        case 3
        then show ?thesis using turn alive Calling quiet idle by (auto simp: serve_turn_def split: if_splits)
      qed
    next
      case (Working req wk)
      have lock: "mh_lock ?h = Lock_held" and got: "got_to checks room req m0 wk (mh_vfs ?h)"
        using held[OF i Working] by simp_all
      have others: "sv_phase (sg_conns g ! j) \<noteq> Working r w" if "j < length (sg_conns g)" "j \<noteq> i" for j r w
        using only[OF i that(1) Working] that(2) by blast
      show ?thesis
      proof (cases "mem_step checks room req wk (mh_vfs ?h)")
        case (Goes_on wk1 m)
        then have now: "es = []" "sv_phase k = Working req wk1" "h = ?h\<lparr>mh_vfs := m\<rparr>"
          using turn Working lock by (auto simp: serve_turn_def)
        show ?thesis unfolding lock_ok_def
          using run now lock others i mem_goes_on[OF got Goes_on]
          by (intro exI[of _ m0]) (auto simp: nth_list_update split: if_splits)
      next
        case (Returns resp m)
        then have now: "es = [Ran req resp]" "sv_phase k = Replying resp" "h = ?h\<lparr>mh_vfs := m, mh_lock := Lock_free\<rparr>"
          using turn Working lock by (auto simp: serve_turn_def)
        show ?thesis unfolding lock_ok_def
          using run_requests_snoc[OF run mem_returns[OF got Returns]] now others i
          by (intro exI[of _ m]) (auto simp: nth_list_update split: if_splits)
      next
        case (Panics m)
        then have now: "es = []" "sv_phase k = Ended" "h = ?h\<lparr>mh_vfs := m, mh_lock := Lock_poisoned\<rparr>"
          using turn Working lock by (auto simp: serve_turn_def)
        show ?thesis unfolding lock_ok_def
          using run now others i by (intro exI[of _ m0]) (auto simp: nth_list_update split: if_splits)
      next
        case Aborts
        then have now: "es = []" "sv_phase k = Ended" "h = ?h\<lparr>mh_lock := Process_gone\<rparr>"
          using turn Working lock by (auto simp: serve_turn_def)
        show ?thesis unfolding lock_ok_def
          using run now others i by (intro exI[of _ m0]) (auto simp: nth_list_update split: if_splits)
      qed
    qed
  qed
qed


section \<open>All moves\<close>

text \<open>At every moment each connection has been told results of its own, of requests it asked.\<close>

definition trace_ok :: "(nat \<times> sv_event) list \<Rightarrow> bool" where
  "trace_ok t \<longleftrightarrow> (\<forall>t1. prefix t1 t \<longrightarrow> (\<forall>i.
     prefix (told (of_conn i t1)) (map snd (ran (of_conn i t1))) \<and>
     prefix (map fst (ran (of_conn i t1))) (asked (of_conn i t1))))"

lemma trace_ok_real_time:
  assumes "trace_ok t"
  shows "in_real_time t (run_order t)"
  unfolding in_real_time_def
proof (intro allI impI)
  fix t1 assume "prefix t1 t"
  then have "prefix (run_order t1) (run_order t)" by (auto simp: prefix_def)
  then show "\<exists>l1. prefix l1 (run_order t) \<and> (\<forall>i. prefix (told (of_conn i t1)) (map snd (of_conn i l1)) \<and>
      prefix (map fst (of_conn i l1)) (asked (of_conn i t1)))"
    using assms \<open>prefix t1 t\<close> by (intro exI[of _ "run_order t1"]) (simp add: trace_ok_def of_conn_run_order)
qed

lemma trace_ok_snoc:
  assumes "trace_ok t" and "es = [] \<or> (\<exists>e. es = [e])" and "phase_ok (of_conn i t @ es) ph"
  shows "trace_ok (t @ map (Pair i) es)"
proof (cases "es = []")
  case True
  then show ?thesis using assms(1) by simp
next
  case False
  then obtain e where e: "es = [e]" using assms(2) by blast
  have now: "prefix (told (of_conn j (t @ [(i, e)]))) (map snd (ran (of_conn j (t @ [(i, e)])))) \<and>
      prefix (map fst (ran (of_conn j (t @ [(i, e)])))) (asked (of_conn j (t @ [(i, e)])))" for j
  proof (cases "j = i")
    case True
    have "of_conn i [(i, e)] = [e]" by (simp add: of_conn_def)
    then show ?thesis using True phase_ok_prefixes[OF assms(3)] e by simp
  next
    case False
    have "of_conn j [(i, e)] = []" using False by (simp add: of_conn_def)
    then show ?thesis using assms(1) by (simp add: trace_ok_def)
  qed
  show ?thesis unfolding trace_ok_def
  proof (intro allI impI)
    fix t1 j assume "prefix t1 (t @ map (Pair i) es)"
    then have "t1 = t @ [(i, e)] \<or> prefix t1 t" using e by simp
    then show "prefix (told (of_conn j t1)) (map snd (ran (of_conn j t1))) \<and>
        prefix (map fst (ran (of_conn j t1))) (asked (of_conn j t1))"
      using now assms(1) unfolding trace_ok_def by blast
  qed
qed

definition serving_ok :: "bool \<Rightarrow> nat \<Rightarrow> codec \<Rightarrow> server_conn list \<Rightarrow> mem_host \<Rightarrow> serve_move list \<Rightarrow> serving \<Rightarrow> bool" where
  "serving_ok checks room c ks h ms g \<longleftrightarrow>
     length (sg_conns g) = length ks \<and> lock_ok checks room h g \<and> trace_ok (sg_trace g) \<and>
     (\<forall>i < length ks. phase_ok (of_conn i (sg_trace g)) (sv_phase (sg_conns g ! i)) \<and>
        bytes_served c (ks ! i) (received i ms) (of_conn i (sg_trace g)) (sg_conns g ! i))"

lemma lock_ok_conns:
  assumes "lock_ok checks room h g" and "map sv_phase ks = map sv_phase (sg_conns g)"
  shows "lock_ok checks room h (g\<lparr>sg_conns := ks\<rparr>)"
proof -
  have "length ks = length (sg_conns g)" using assms(2) by (metis length_map)
  moreover from this have "sv_phase (ks ! i) = sv_phase (sg_conns g ! i)" if "i < length (sg_conns g)" for i
    using assms(2) that by (metis nth_map)
  ultimately show ?thesis using assms(1) by (simp add: lock_ok_def)
qed

lemma serving_ok_move:
  assumes ok: "serving_ok checks room c ks h ms g"
  shows "serving_ok checks room c ks h (ms @ [mv]) (move_step checks room c mv g)"
proof (cases mv)
  case (Turn i)
  show ?thesis
  proof (cases "i < length (sg_conns g)")
    case True
    obtain es k h1 where turn: "serve_turn checks room c (sg_conns g ! i) (sg_host g) = (es, k, h1)"
      by (metis prod_cases3)
    have i: "i < length ks" using True ok by (simp add: serving_ok_def)
    have ph: "phase_ok (of_conn i (sg_trace g) @ es) (sv_phase k)"
      using serve_turn_phase[OF turn] ok i by (simp add: serving_ok_def)
    have bytes: "bytes_served c (ks ! i) (received i ms) (of_conn i (sg_trace g) @ es) k"
      using serve_turn_bytes[OF turn] ok i by (simp add: serving_ok_def)
    have "trace_ok (sg_trace g @ map (Pair i) es)"
      using trace_ok_snoc[OF _ serve_turn_one_event[OF turn] ph] ok by (simp add: serving_ok_def)
    then show ?thesis using ok Turn True turn ph bytes serve_turn_lock[OF _ True turn]
      by (auto simp: serving_ok_def nth_list_update)
  next
    case False
    then show ?thesis using ok Turn by (simp add: serving_ok_def)
  qed
next
  case (Arrive i bs)
  let ?ks = "(sg_conns g)[i := (sg_conns g ! i)\<lparr>sv_up := sv_up (sg_conns g ! i) @ bs\<rparr>]"
  have "map sv_phase ?ks = map sv_phase (sg_conns g)"
    by (cases "i < length (sg_conns g)") (simp_all add: map_update list_update_same_conv list_update_beyond)
  then show ?thesis using ok Arrive lock_ok_conns[of checks room h g ?ks]
    by (auto simp: serving_ok_def nth_list_update bytes_served_arrival)
next
  case (Hangup i)
  let ?ks = "(sg_conns g)[i := (sg_conns g ! i)\<lparr>sv_closed := True\<rparr>]"
  have "map sv_phase ?ks = map sv_phase (sg_conns g)"
    by (cases "i < length (sg_conns g)") (simp_all add: map_update list_update_same_conv list_update_beyond)
  moreover have "phase_ok (of_conn j (sg_trace g)) (sv_phase (?ks ! j)) \<and>
      bytes_served c (ks ! j) (received j ms) (of_conn j (sg_trace g)) (?ks ! j)" if "j < length ks" for j
    using ok that by (cases "j = i") (auto simp: serving_ok_def bytes_served_def)
  ultimately show ?thesis using ok Hangup lock_ok_conns[of checks room h g ?ks]
    by (simp add: serving_ok_def)
qed

lemma serve_moves_ok:
  assumes "\<forall>k \<in> set ks. sv_phase k = Reading"
  shows "serving_ok checks room c ks h ms (serve_moves checks room c ms ks h)"
proof (induction ms rule: rev_induct)
  case Nil
  show ?case using assms
    by (auto simp: serve_moves_def serving_ok_def lock_ok_def trace_ok_def bytes_served_def)
next
  case (snoc mv ms)
  then show ?case using serving_ok_move by (simp add: serve_moves_def)
qed


section \<open>After a method that did not return\<close>

text \<open>The lock cannot be taken any more, and no connection has a result to tell but a greeting.\<close>

fun harmless :: "(nat \<times> response) set \<Rightarrow> nat \<Rightarrow> sv_phase \<Rightarrow> bool" where
  "harmless old i (Working req wk) = False"
| "harmless old i (Replying resp) = ((i, resp) \<in> old \<or> resp = RespHello protocol_version)"
| "harmless old i ph = True"

definition all_shut :: "(nat \<times> response) set \<Rightarrow> serving \<Rightarrow> bool" where
  "all_shut old g \<longleftrightarrow> mh_lock (sg_host g) \<in> {Lock_poisoned, Process_gone} \<and>
     (\<forall>i < length (sg_conns g). harmless old i (sv_phase (sg_conns g ! i)))"

definition only_greetings :: "(nat \<times> response) set \<Rightarrow> nat \<Rightarrow> (nat \<times> sv_event) list \<Rightarrow> bool" where
  "only_greetings old n t \<longleftrightarrow> (\<forall>(i, e) \<in> set t. i < n \<and> (case e of
     Asked req \<Rightarrow> True
   | Ran req resp \<Rightarrow> is_hello req
   | Told resp \<Rightarrow> (i, resp) \<in> old \<or> resp = RespHello protocol_version))"

lemma all_shut_update:
  assumes "all_shut old g" and "i < length (sg_conns g) \<Longrightarrow> harmless old i (sv_phase k)"
  shows "all_shut old (g\<lparr>sg_conns := (sg_conns g)[i := k], sg_trace := t\<rparr>)"
  unfolding all_shut_def
proof (intro conjI allI impI)
  fix j assume "j < length (sg_conns (g\<lparr>sg_conns := (sg_conns g)[i := k], sg_trace := t\<rparr>))"
  then show "harmless old j (sv_phase (sg_conns (g\<lparr>sg_conns := (sg_conns g)[i := k], sg_trace := t\<rparr>) ! j))"
    using assms by (cases "j = i") (simp_all add: all_shut_def)
qed (use assms(1) in \<open>simp add: all_shut_def\<close>)

lemma shut_turn:
  assumes "mh_lock h \<in> {Lock_poisoned, Process_gone}" and "harmless old i (sv_phase k)"
    and "serve_turn checks room c k h = (es, k', h')" and "i < n"
  shows "harmless old i (sv_phase k') \<and> h' = h \<and> only_greetings old n (map (Pair i) es)"
  using assms
  by (cases "sv_phase k")
    (auto simp: only_greetings_def serve_turn_def Let_def
      split: if_splits read_outcome.splits prod.splits result.splits)

lemma shut_move:
  assumes "all_shut old g"
  shows "all_shut old (move_step checks room c mv g) \<and> sg_host (move_step checks room c mv g) = sg_host g \<and>
    length (sg_conns (move_step checks room c mv g)) = length (sg_conns g) \<and>
    (\<exists>t. sg_trace (move_step checks room c mv g) = sg_trace g @ t \<and> only_greetings old (length (sg_conns g)) t)"
proof (cases mv)
  case (Turn i)
  show ?thesis
  proof (cases "i < length (sg_conns g)")
    case True
    obtain es k h where turn: "serve_turn checks room c (sg_conns g ! i) (sg_host g) = (es, k, h)"
      by (metis prod_cases3)
    have "mh_lock (sg_host g) \<in> {Lock_poisoned, Process_gone}" "harmless old i (sv_phase (sg_conns g ! i))"
      using assms True by (simp_all add: all_shut_def)
    from shut_turn[OF this turn True]
    have "harmless old i (sv_phase k) \<and> h = sg_host g \<and> only_greetings old (length (sg_conns g)) (map (Pair i) es)" .
    then show ?thesis using all_shut_update[OF assms, of i k "sg_trace g @ map (Pair i) es"] Turn True turn
      by (auto simp: all_shut_def)
  next
    case False
    then show ?thesis using assms Turn by (simp add: only_greetings_def)
  qed
next
  case (Arrive i bs)
  then show ?thesis
    using assms all_shut_update[OF assms, of i "(sg_conns g ! i)\<lparr>sv_up := sv_up (sg_conns g ! i) @ bs\<rparr>" "sg_trace g"]
    by (simp add: only_greetings_def all_shut_def)
next
  case (Hangup i)
  then show ?thesis
    using assms all_shut_update[OF assms, of i "(sg_conns g ! i)\<lparr>sv_closed := True\<rparr>" "sg_trace g"]
    by (simp add: only_greetings_def all_shut_def)
qed

lemma shut_moves:
  "all_shut old g \<Longrightarrow> all_shut old (fold (move_step checks room c) ms g) \<and>
     sg_host (fold (move_step checks room c) ms g) = sg_host g \<and>
     (\<exists>t. sg_trace (fold (move_step checks room c) ms g) = sg_trace g @ t \<and> only_greetings old (length (sg_conns g)) t)"
proof (induction ms arbitrary: g)
  case Nil
  then show ?case by (simp add: only_greetings_def)
next
  case (Cons mv ms)
  let ?g = "move_step checks room c mv g"
  obtain t where one: "all_shut old ?g" "sg_host ?g = sg_host g" "sg_trace ?g = sg_trace g @ t"
      "length (sg_conns ?g) = length (sg_conns g)" "only_greetings old (length (sg_conns g)) t"
    using shut_move[OF Cons.prems, of checks room c mv] by blast
  obtain t' where "all_shut old (fold (move_step checks room c) ms ?g)"
      "sg_host (fold (move_step checks room c) ms ?g) = sg_host ?g"
      "sg_trace (fold (move_step checks room c) ms ?g) = sg_trace ?g @ t'" "only_greetings old (length (sg_conns ?g)) t'"
    using Cons.IH[OF one(1)] by blast
  then show ?case using one by (auto simp: only_greetings_def)
qed


section \<open>Properties\<close>

text \<open>C6: The connections to one \<^verbatim>\<open>MemoryVfs\<close> are served as if their requests had been made
  one after the other. However the tasks interleave, between the steps of the methods too, with
  bytes arriving, well formed or not, and connections ending, there is one order of the
  requests run in which the provider gives exactly the responses they got, and, when no task
  is inside a method and none has panicked, ends in the state it is in. The order respects
  the order observed: at every moment it has a first part with the requests answered by then
  and none that had not been read. Each connection has been sent, in order, the results of
  the first requests of its own stream, and until it ends has read no byte beyond them.\<close>

theorem connections_linearize:
  assumes "\<forall>k \<in> set ks. sv_phase k = Reading" and "mh_lock h = Lock_free"
    and "serve_moves checks room c ms ks h = g"
  shows "(\<exists>l m. run_requests memory_vfs (map (\<lambda>(_, req, _). req) l) (mh_vfs h) = (map (\<lambda>(_, _, resp). resp) l, m) \<and>
       (mh_lock (sg_host g) = Lock_free \<longrightarrow> mh_vfs (sg_host g) = m) \<and> in_real_time (sg_trace g) l) \<and>
     length (sg_conns g) = length ks \<and>
     (\<forall>i < length ks. bytes_served c (ks ! i) (received i ms) (of_conn i (sg_trace g)) (sg_conns g ! i))"
proof -
  have ok: "serving_ok checks room c ks h ms g" using serve_moves_ok[OF assms(1)] assms(3) by blast
  have "in_real_time (sg_trace g) (run_order (sg_trace g))"
    using trace_ok_real_time ok by (simp add: serving_ok_def)
  then show ?thesis using ok unfolding serving_ok_def lock_ok_def by blast
qed

text \<open>Two connections: one writes, the other reads what it wrote; their tasks take turns.\<close>

definition fresh_conn :: "byte list \<Rightarrow> server_conn" where
  "fresh_conn bs = \<lparr>sv_up = bs, sv_closed = False, sv_down = idle, sv_phase = Reading\<rparr>"

definition two_conns :: "server_conn list" where
  "two_conns = [fresh_conn (frame_bytes [2, 1, 2, 47, 102, 6, 7]), fresh_conn []]"

definition two_moves :: "serve_move list" where
  "two_moves = [Arrive 1 (frame_bytes [1, 0, 9, 47, 102]), Turn 0, Turn 1, Turn 0, Turn 1, Turn 0, Turn 1, Turn 0, Hangup 0,
     Turn 1, Turn 1, Turn 1, Turn 0]"

lemma two_frames:
  "read_frame (dec_req sample_codec) b (frame_bytes [2, 1, 2, 47, 102, 6, 7]) = Got (ReqWrite ''/f'' 1 [6, 7]) []"
  "read_frame (dec_req sample_codec) b (frame_bytes [1, 0, 9, 47, 102]) = Got (ReqRead ''/f'' 0 9) []"
  "\<exists>w. write_frame (enc_resp sample_codec) (RespRead (Ok [5, 6, 7])) idle = (Ok (), w)"
  "\<exists>w. write_frame (enc_resp sample_codec) (RespWrite (Ok 2)) idle = (Ok (), w)"
  using read_frame_body[of "[2, 1, 2, 47, 102, 6, 7]" sample_dec_req b "[]"]
    read_frame_body[of "[1, 0, 9, 47, 102]" sample_dec_req b "[]"]
  by (simp_all add: max_frame_def sample_codec_def sample_chars idle_def write_frame_open)

lemma two_steps:
  "mem_step True 100 (ReqWrite ''/f'' 1 [6, 7]) Entered sample_mem =
     Goes_on Resized (mem_put sample_mem ''/f'' (MFile [5, 0, 0]))"
  "mem_step True 100 (ReqWrite ''/f'' 1 [6, 7]) Resized (mem_put sample_mem ''/f'' (MFile [5, 0, 0])) =
     Returns (RespWrite (Ok 2)) sample_mem'"
  "mem_step True 100 (ReqRead ''/f'' 0 9) Entered sample_mem' = Returns (RespRead (Ok [5, 6, 7])) sample_mem'"
proof -
  have "map_of (mv_nodes sample_mem) [RootDir, Normal ''f''] = Some (MFile [5])"
    "map_of (mv_nodes sample_mem') [RootDir, Normal ''f''] = Some (MFile [5, 6, 7])"
    "map_of (mv_nodes (mem_put sample_mem ''/f'' (MFile [5, 0, 0]))) [RootDir, Normal ''f''] = Some (MFile [5, 0, 0])"
    "mem_put sample_mem ''/f'' (MFile [5, 6, 7]) = sample_mem'" "replicate 2 (0 :: byte) = [0, 0]"
    by (simp_all add: numeral_2_eq_2 sample_mem_def sample_mem'_def mem_put_def)
  then show "mem_step True 100 (ReqWrite ''/f'' 1 [6, 7]) Entered sample_mem =
     Goes_on Resized (mem_put sample_mem ''/f'' (MFile [5, 0, 0]))"
    "mem_step True 100 (ReqWrite ''/f'' 1 [6, 7]) Resized (mem_put sample_mem ''/f'' (MFile [5, 0, 0])) =
     Returns (RespWrite (Ok 2)) sample_mem'"
    "mem_step True 100 (ReqRead ''/f'' 0 9) Entered sample_mem' = Returns (RespRead (Ok [5, 6, 7])) sample_mem'"
    by (simp_all add: mem_enter_def grow_def Let_def whole_method_def sample_read resize_def copy_at_def)
qed

definition two_host :: mem_host where
  "two_host = \<lparr>mh_vfs = sample_mem, mh_lock = Lock_free\<rparr>"

lemma two_run:
  "sg_trace (serve_moves True 100 sample_codec two_moves two_conns two_host) =
     [(0, Asked (ReqWrite ''/f'' 1 [6, 7])), (1, Asked (ReqRead ''/f'' 0 9)),
      (0, Ran (ReqWrite ''/f'' 1 [6, 7]) (RespWrite (Ok 2))), (1, Ran (ReqRead ''/f'' 0 9) (RespRead (Ok [5, 6, 7]))),
      (1, Told (RespRead (Ok [5, 6, 7]))), (0, Told (RespWrite (Ok 2)))] \<and>
   sg_host (serve_moves True 100 sample_codec two_moves two_conns two_host) =
     \<lparr>mh_vfs = sample_mem', mh_lock = Lock_free\<rparr>"
proof -
  obtain w1 w2 where w: "write_frame (enc_resp sample_codec) (RespRead (Ok [5, 6, 7])) idle = (Ok (), w1)"
      "write_frame (enc_resp sample_codec) (RespWrite (Ok 2)) idle = (Ok (), w2)"
    using two_frames(3,4) by blast
  show ?thesis
    unfolding serve_moves_def two_moves_def two_conns_def fresh_conn_def two_host_def
    by (simp add: serve_turn_def two_frames(1,2) two_steps w del: mem_step.simps)
qed

theorem connections_linearize_witness:
  "\<exists>g l. serve_moves True 100 sample_codec two_moves two_conns two_host = g \<and>
     told (of_conn 1 (sg_trace g)) = [RespRead (Ok [5, 6, 7])] \<and>
     run_requests memory_vfs (map (\<lambda>(_, req, _). req) l) sample_mem = (map (\<lambda>(_, _, resp). resp) l, sample_mem') \<and>
     in_real_time (sg_trace g) l \<and> bytes_served sample_codec (two_conns ! 1) (received 1 two_moves)
       (of_conn 1 (sg_trace g)) (sg_conns g ! 1)"
proof -
  let ?g = "serve_moves True 100 sample_codec two_moves two_conns two_host"
  have "\<forall>k \<in> set two_conns. sv_phase k = Reading" "mh_lock two_host = Lock_free"
    by (simp_all add: two_conns_def fresh_conn_def two_host_def)
  note all = connections_linearize[OF this refl, of True 100 sample_codec two_moves]
  obtain l m where l: "run_requests memory_vfs (map (\<lambda>(_, req, _). req) l) (mh_vfs two_host) = (map (\<lambda>(_, _, resp). resp) l, m)"
      "mh_lock (sg_host ?g) = Lock_free \<longrightarrow> mh_vfs (sg_host ?g) = m" "in_real_time (sg_trace ?g) l"
    using all by blast
  have "m = sample_mem'" using l(2) two_run by simp
  moreover have "1 < length two_conns" by (simp add: two_conns_def)
  then have "bytes_served sample_codec (two_conns ! 1) (received 1 two_moves) (of_conn 1 (sg_trace ?g)) (sg_conns ?g ! 1)"
    using all by blast
  ultimately show ?thesis using l(1,3) two_run
    by (intro exI[of _ ?g] exI[of _ l]) (simp add: of_conn_def two_host_def)
qed

text \<open>A request that fits, made while the mutex is free, is run by two or three turns of its own
  task, and gets the response of the whole method.\<close>

theorem memory_request_runs:
  assumes "i < length (sg_conns g)" and "sv_phase (sg_conns g ! i) = Calling req"
    and "mh_lock (sg_host g) = Lock_free" and "\<not> is_hello req"
    and "mem_fits checks room req (mh_vfs (sg_host g))"
  shows "\<exists>n \<in> {2, 3}. fold (move_step checks room c) (replicate n (Turn i)) g =
     (case handle memory_vfs req (mh_vfs (sg_host g)) of (resp, m) \<Rightarrow>
        \<lparr>sg_conns = (sg_conns g)[i := (sg_conns g ! i)\<lparr>sv_phase := Replying resp\<rparr>],
         sg_host = (sg_host g)\<lparr>mh_vfs := m\<rparr>, sg_trace = sg_trace g @ [(i, Ran req resp)]\<rparr>)"
proof -
  let ?m = "mh_vfs (sg_host g)"
  have start: "got_to checks room req ?m Entered ?m" by (simp add: got_to_def)
  have free: "(sg_host g)\<lparr>mh_vfs := m, mh_lock := Lock_free\<rparr> = (sg_host g)\<lparr>mh_vfs := m\<rparr>" for m
    using assms(3) by (cases "sg_host g") simp
  from mem_enter_fits[OF assms(5)] show ?thesis
  proof (elim disjE exE conjE)
    fix resp m1 assume r: "mem_enter checks room req ?m = Returns resp m1"
    then have "handle memory_vfs req ?m = (resp, m1)" using mem_returns[OF start] by simp
    then show ?thesis using assms r free
      by (intro bexI[of _ 2]) (simp_all add: numeral_2_eq_2 serve_turn_def)
  next
    fix wk m1 resp m2
    assume goes: "mem_enter checks room req ?m = Goes_on wk m1" and r: "mem_step checks room req wk m1 = Returns resp m2"
    then have "handle memory_vfs req ?m = (resp, m2)"
      using mem_returns[OF mem_goes_on[OF start]] by (metis mem_step.simps(1))
    then show ?thesis using assms goes r free
      by (intro bexI[of _ 3]) (simp_all add: numeral_3_eq_3 serve_turn_def)
  qed
qed

text \<open>C9: A request that a \<^verbatim>\<open>MemoryVfs\<close> cannot carry out, a write or a \<^verbatim>\<open>truncate\<close> to an offset
  that no vector reaches or that the memory does not hold, is the end of the provider for
  everyone: the task panics with the mutex held, or the process aborts. Whatever the other
  connections do from then on, no request on the file system is run any more, and a
  connection that had no result waiting is told nothing but the protocol version.\<close>

theorem memory_oversize_is_final:
  assumes "\<forall>k \<in> set ks. sv_phase k = Reading" and "serve_moves checks room c ms ks h = g"
    and "mh_lock (sg_host g) = Lock_free" and "i < length ks" and "sv_phase (sg_conns g ! i) = Calling req"
    and "\<not> is_hello req" and "\<not> mem_fits checks room req (mh_vfs (sg_host g))"
  shows "\<exists>t. sg_trace (serve_moves checks room c (ms @ [Turn i, Turn i] @ ms') ks h) = sg_trace g @ t \<and>
     mh_lock (sg_host (serve_moves checks room c (ms @ [Turn i, Turn i] @ ms') ks h)) \<in> {Lock_poisoned, Process_gone} \<and>
     (\<forall>(j, e) \<in> set t. j < length ks \<and> (case e of
        Asked r \<Rightarrow> True
      | Ran r resp \<Rightarrow> is_hello r
      | Told resp \<Rightarrow> sv_phase (sg_conns g ! j) = Replying resp \<or> resp = RespHello protocol_version))"
proof -
  have ok: "serving_ok checks room c ks h ms g" using serve_moves_ok[OF assms(1)] assms(2) by blast
  then have idle: "sv_phase (sg_conns g ! j) \<noteq> Working r wk" if "j < length (sg_conns g)" for j r wk
    using assms(3) that by (auto simp: serving_ok_def lock_ok_def)
  have len: "length (sg_conns g) = length ks" using ok by (simp add: serving_ok_def)
  then have i: "i < length (sg_conns g)" using assms(4) by simp
  let ?old = "{(j, resp). sv_phase (sg_conns g ! j) = Replying resp}"
  let ?g1 = "fold (move_step checks room c) [Turn i, Turn i] g"
  have calm: "harmless ?old j (sv_phase (sg_conns g ! j))" if "j < length (sg_conns g)" for j
    using idle[OF that] by (cases "sv_phase (sg_conns g ! j)") auto
  have first: "all_shut ?old ?g1 \<and> sg_trace ?g1 = sg_trace g \<and> length (sg_conns ?g1) = length ks"
    using len mem_enter_too_big[OF assms(7)] assms(3,5,6) i calm
    by (auto simp: all_shut_def serve_turn_def nth_list_update)
  obtain t where t: "all_shut ?old (fold (move_step checks room c) ms' ?g1)"
      "sg_trace (fold (move_step checks room c) ms' ?g1) = sg_trace g @ t" "only_greetings ?old (length ks) t"
    using shut_moves[of ?old ?g1 checks room c ms'] first by auto
  have "serve_moves checks room c (ms @ [Turn i, Turn i] @ ms') ks h = fold (move_step checks room c) ms' ?g1"
    using assms(2) by (simp add: serve_moves_def)
  then show ?thesis using t unfolding only_greetings_def all_shut_def
    by (intro exI[of _ t]) (auto split: sv_event.splits)
qed

text \<open>A guest makes the file 8 EiB long.\<close>

definition huge_codec :: codec where
  "huge_codec = sample_codec\<lparr>dec_req := (\<lambda>b. Ok (ReqTruncate ''/f'' (2 ^ 63)))\<rparr>"

theorem memory_oversize_is_final_witness:
  "\<exists>t. sg_trace (serve_moves False 100 huge_codec ([Turn 0] @ [Turn 0, Turn 0] @ two_moves)
       [fresh_conn (frame_bytes [1]), fresh_conn []] two_host) = [(0, Asked (ReqTruncate ''/f'' (2 ^ 63)))] @ t \<and>
     (\<forall>(j, e) \<in> set t. case e of
        Asked r \<Rightarrow> True
      | Ran r resp \<Rightarrow> is_hello r
      | Told resp \<Rightarrow> resp = RespHello protocol_version)"
proof -
  let ?ks = "[fresh_conn (frame_bytes [1]), fresh_conn []]"
  let ?g = "serve_moves False 100 huge_codec [Turn 0] ?ks two_host"
  have "read_frame (dec_req huge_codec) False (frame_bytes [1]) = Got (ReqTruncate ''/f'' (2 ^ 63)) []"
    using read_frame_body[of "[1]" "dec_req huge_codec" False "[]"] by (simp add: max_frame_def huge_codec_def)
  then have g: "?g = \<lparr>sg_conns = [(fresh_conn (frame_bytes [1]))\<lparr>sv_up := [], sv_phase := Calling (ReqTruncate ''/f'' (2 ^ 63))\<rparr>, fresh_conn []],
      sg_host = two_host, sg_trace = [(0, Asked (ReqTruncate ''/f'' (2 ^ 63)))]\<rparr>"
    by (simp add: serve_moves_def serve_turn_def two_host_def fresh_conn_def)
  have fits: "\<not> mem_fits False 100 (ReqTruncate ''/f'' (2 ^ 63)) (mh_vfs (sg_host ?g))"
    unfolding g by (simp add: mem_fits_def two_host_def sample_mem_def)
  have pre: "\<forall>k \<in> set ?ks. sv_phase k = Reading" "mh_lock (sg_host ?g) = Lock_free" "0 < length ?ks"
    "sv_phase (sg_conns ?g ! 0) = Calling (ReqTruncate ''/f'' (2 ^ 63))" "\<not> is_hello (ReqTruncate ''/f'' (2 ^ 63))"
    unfolding g by (simp_all add: fresh_conn_def two_host_def)
  have phases: "sv_phase (sg_conns ?g ! j) \<noteq> Replying resp" if "j < 2" for j resp
    using that unfolding g by (auto simp: fresh_conn_def less_2_cases_iff)
  from memory_oversize_is_final[OF pre(1) refl pre(2,3,4,5) fits, of two_moves]
  obtain t where t: "sg_trace (serve_moves False 100 huge_codec ([Turn 0] @ [Turn 0, Turn 0] @ two_moves) ?ks two_host) = sg_trace ?g @ t"
      "\<forall>(j, e) \<in> set t. j < length ?ks \<and> (case e of Asked r \<Rightarrow> True | Ran r resp \<Rightarrow> is_hello r
        | Told resp \<Rightarrow> sv_phase (sg_conns ?g ! j) = Replying resp \<or> resp = RespHello protocol_version)"
    by blast
  have "\<forall>(j, e) \<in> set t. case e of Asked r \<Rightarrow> True | Ran r resp \<Rightarrow> is_hello r | Told resp \<Rightarrow> resp = RespHello protocol_version"
    using t(2) phases by (fastforce split: sv_event.splits)
  then show ?thesis using t(1) g by (intro exI[of _ t]) simp
qed

end
