(* ===== verification/Host_Conc.thy ===== *)
theory Host_Conc
  imports Host_Share
begin

text \<open>
  Several connections on one host directory. Every accepted connection has a task of its
  own (\<^verbatim>\<open>serve_stream\<close>), and mounts of one directory have a server each, so the methods
  of \<^verbatim>\<open>HostFs\<close> interleave. Here a method is a sequence of steps, one per system call
  that takes a path: \<^verbatim>\<open>resolve\<close> is two steps (\<^verbatim>\<open>canonicalize\<close> of the root, then of the
  parent), the operation another, and the closing \<^verbatim>\<open>symlink_metadata\<close> of \<^verbatim>\<open>create\<close> and
  \<^verbatim>\<open>mkdir\<close> one more. The calls on one open descriptor are one step with its opening.

  \<^verbatim>\<open>write\<close> drops its \<^verbatim>\<open>tokio::fs::File\<close> without \<^verbatim>\<open>flush\<close>; the documentation of that type
  says that operations may then still be under way. The parameter \<open>late\<close> is how many of
  the last bytes are, for a write of that length; they are written by a step of their
  own, whose error nobody sees.
\<close>

section \<open>A request under way\<close>

datatype hfs_task =
    Arrived request
  | Rooting request "path list" "path list"  \<comment> \<open>the paths resolved, those to resolve\<close>
  | Probing request "path list" path path "path list"  \<comment> \<open>with the canonical root and the path at hand\<close>
  | Statting request path
  | Answered response

fun req_paths :: "request \<Rightarrow> path list" where
  "req_paths (ReqHello _) = []"
| "req_paths (ReqStat p) = [p]"
| "req_paths (ReqList p) = [p]"
| "req_paths (ReqRead p _ _) = [p]"
| "req_paths (ReqWrite p _ _) = [p]"
| "req_paths (ReqCreate p _) = [p]"
| "req_paths (ReqMkdir p _) = [p]"
| "req_paths (ReqRemove p) = [p]"
| "req_paths (ReqRmdir p) = [p]"
| "req_paths (ReqRename p q) = [p, q]"
| "req_paths (ReqTruncate p _) = [p]"

fun needs_rw :: "request \<Rightarrow> bool" where
  "needs_rw (ReqHello _) = False"
| "needs_rw (ReqStat _) = False"
| "needs_rw (ReqList _) = False"
| "needs_rw (ReqRead _ _ _) = False"
| "needs_rw _ = True"

text \<open>The response that carries an error.\<close>

fun err_resp :: "request \<Rightarrow> vfs_error \<Rightarrow> response" where
  "err_resp (ReqHello _) e = RespHello protocol_version"
| "err_resp (ReqStat _) e = RespStat (Err e)"
| "err_resp (ReqList _) e = RespList (Err e)"
| "err_resp (ReqRead _ _ _) e = RespRead (Err e)"
| "err_resp (ReqWrite _ _ _) e = RespWrite (Err e)"
| "err_resp (ReqCreate _ _) e = RespCreate (Err e)"
| "err_resp (ReqMkdir _ _) e = RespMkdir (Err e)"
| "err_resp (ReqRemove _) e = RespRemove (Err e)"
| "err_resp (ReqRmdir _) e = RespRmdir (Err e)"
| "err_resp (ReqRename _ _) e = RespRename (Err e)"
| "err_resp (ReqTruncate _ _) e = RespTruncate (Err e)"


section \<open>Writes still under way\<close>

text \<open>
  A descriptor stays with its file: when the file is renamed the location changes, when it
  is removed or replaced nobody sees the write any more.
\<close>

type_synonym late_write = "key \<times> nat \<times> byte list"

definition follow_rename :: "key \<Rightarrow> key \<Rightarrow> late_write list \<Rightarrow> late_write list" where
  "follow_rename s d ls =
     map (\<lambda>(k, x). (if prefix s k then d @ drop (length s) k else k, x))
       (filter (\<lambda>(k, _). prefix s k \<or> k \<noteq> d) ls)"

definition follow_remove :: "key \<Rightarrow> late_write list \<Rightarrow> late_write list" where
  "follow_remove s ls = filter (\<lambda>(k, _). k \<noteq> s) ls"

type_synonym busy_host = "late_write list \<times> host_os"


section \<open>The operation on resolved paths\<close>

definition list_at :: "path \<Rightarrow> host_os \<Rightarrow> (dir_entry list, vfs_error) result" where
  "list_at q os =
     (case os_read_dir os q of
        Err e \<Rightarrow> Err (map_io e)
      | Ok es \<Rightarrow> Ok (map (\<lambda>(n, nd). \<lparr>de_name = display_path n, de_kind = kind_of nd\<rparr>) es))"

definition read_at :: "path \<Rightarrow> u64 \<Rightarrow> u32 \<Rightarrow> host_os \<Rightarrow> (byte list, vfs_error) result" where
  "read_at q off len os =
     (case os_open_read os q of
        Err e \<Rightarrow> Err (map_io e)
      | Ok k \<Rightarrow>
     (case os_seek os k off of
        Err e \<Rightarrow> Err (map_io e)
      | Ok pos \<Rightarrow> hfs_read_loop os k pos (unat len) []))"

definition write_at ::
    "(nat \<Rightarrow> nat) \<Rightarrow> path \<Rightarrow> u64 \<Rightarrow> byte list \<Rightarrow> busy_host \<Rightarrow> (u32, vfs_error) result \<times> busy_host" where
  "write_at late q off data = (\<lambda>(ls, os).
     case os_open_write os True True q of
       (Err e, os1) \<Rightarrow> (Err (map_io e), ls, os1)
     | (Ok k, os1) \<Rightarrow>
     (case os_seek os1 k off of
        Err e \<Rightarrow> (Err (map_io e), ls, os1)
      | Ok pos \<Rightarrow>
          let m = length data - late (length data)
          in case os_write_all os1 k pos (take m data) of
               (Err e, os2) \<Rightarrow> (Err (map_io e), ls, os2)
             | (Ok _, os2) \<Rightarrow> (Ok (of_nat (length data)), ls @ [(k, pos + m, drop m data)], os2)))"

definition truncate_at :: "path \<Rightarrow> u64 \<Rightarrow> host_os \<Rightarrow> (unit, vfs_error) result \<times> host_os" where
  "truncate_at q sz os =
     (case os_open_write os False False q of
        (Err e, os1) \<Rightarrow> (Err (map_io e), os1)
      | (Ok k, os1) \<Rightarrow> io_result (os_set_len os1 k sz))"

text \<open>A call that changes the names, and what it means for the writes still under way.\<close>

definition remove_at :: "(unit, io_error) result \<times> host_os \<Rightarrow> path \<Rightarrow> busy_host \<Rightarrow> (unit, vfs_error) result \<times> busy_host" where
  "remove_at r q = (\<lambda>(ls, os).
     case (r, os_locate os q) of
       ((Ok _, os1), Ok (k, _)) \<Rightarrow> (Ok (), follow_remove k ls, os1)
     | ((r', os1), _) \<Rightarrow> (map_err map_io r', ls, os1))"

definition rename_at :: "path \<Rightarrow> path \<Rightarrow> busy_host \<Rightarrow> (unit, vfs_error) result \<times> busy_host" where
  "rename_at p q = (\<lambda>(ls, os).
     case (os_rename os p q, os_locate os p, os_locate os q) of
       ((Ok _, os1), Ok (s, _), Ok (d, _)) \<Rightarrow> (Ok (), if s = d then ls else follow_rename s d ls, os1)
     | ((r, os1), _) \<Rightarrow> (map_err map_io r, ls, os1))"

fun task_act :: "(nat \<Rightarrow> nat) \<Rightarrow> request \<Rightarrow> path list \<Rightarrow> busy_host \<Rightarrow> hfs_task \<times> busy_host" where
  "task_act late (ReqStat _) [q] (ls, os) = (Answered (RespStat (fst (hfs_lstat q os))), ls, os)"
| "task_act late (ReqList _) [q] (ls, os) = (Answered (RespList (list_at q os)), ls, os)"
| "task_act late (ReqRead _ off len) [q] (ls, os) = (Answered (RespRead (read_at q off len os)), ls, os)"
| "task_act late (ReqWrite _ off data) [q] b = apfst (Answered \<circ> RespWrite) (write_at late q off data b)"
| "task_act late (ReqCreate p mode) [q] (ls, os) =
     (case os_open_write os True True q of
        (Err e, os1) \<Rightarrow> (Answered (RespCreate (Err (map_io e))), ls, os1)
      | (Ok _, os1) \<Rightarrow> (Statting (ReqCreate p mode) q, ls, os1))"
| "task_act late (ReqMkdir p mode) [q] (ls, os) =
     (case os_create_dir os q of
        (Err e, os1) \<Rightarrow> (Answered (RespMkdir (Err (map_io e))), ls, os1)
      | (Ok _, os1) \<Rightarrow> (Statting (ReqMkdir p mode) q, ls, os1))"
| "task_act late (ReqRemove _) [q] (ls, os) =
     apfst (Answered \<circ> RespRemove) (remove_at (os_remove_file os q) q (ls, os))"
| "task_act late (ReqRmdir _) [q] (ls, os) =
     apfst (Answered \<circ> RespRmdir) (remove_at (os_remove_dir os q) q (ls, os))"
| "task_act late (ReqRename _ _) [q, q'] b = apfst (Answered \<circ> RespRename) (rename_at q q' b)"
| "task_act late (ReqTruncate _ sz) [q] (ls, os) =
     (case truncate_at q sz os of (r, os1) \<Rightarrow> (Answered (RespTruncate r), ls, os1))"
| "task_act late req _ b = (Answered (err_resp req NotFound), b)"


section \<open>Steps\<close>

fun attr_resp :: "request \<Rightarrow> (file_attr, vfs_error) result \<Rightarrow> response" where
  "attr_resp (ReqCreate _ _) r = RespCreate r"
| "attr_resp _ r = RespMkdir r"

text \<open>The two halves of \<open>resolve\<close>; the second is what it does once the root is known.\<close>

definition probe_path :: "host_fs \<Rightarrow> host_os \<Rightarrow> path \<Rightarrow> path \<Rightarrow> path option" where
  "probe_path h os canon_root p =
     (let rel = (case strip_prefix p ''/'' of Some r \<Rightarrow> r | None \<Rightarrow> p);
          joined = path_join (hf_root h) rel;
          probe = (case path_parent joined of Some q \<Rightarrow> q | None \<Rightarrow> joined);
          canon_parent = (case os_canonicalize os probe of Ok c \<Rightarrow> c | Err _ \<Rightarrow> probe)
      in if path_starts_with canon_parent canon_root then Some joined else None)"

lemma resolve_halves:
  "resolve h os p =
     (case os_canonicalize os (hf_root h) of
        Err e \<Rightarrow> Err (Io (ioe_msg e))
      | Ok c \<Rightarrow> (case probe_path h os c p of None \<Rightarrow> Err PermissionDenied | Some q \<Rightarrow> Ok q))"
  by (simp add: resolve_def probe_path_def Let_def split: result.splits)

fun task_step :: "(nat \<Rightarrow> nat) \<Rightarrow> host_fs \<Rightarrow> hfs_task \<Rightarrow> busy_host \<Rightarrow> hfs_task \<times> busy_host" where
  "task_step late h (Arrived req) b =
     (if needs_rw req \<and> hf_read_only h then (Answered (err_resp req PermissionDenied), b)
      else (Rooting req [] (req_paths req), b))"
| "task_step late h (Rooting req qs (p # ps)) (ls, os) =
     (case os_canonicalize os (hf_root h) of
        Err e \<Rightarrow> (Answered (err_resp req (Io (ioe_msg e))), ls, os)
      | Ok c \<Rightarrow> (Probing req qs c p ps, ls, os))"
| "task_step late h (Probing req qs c p ps) (ls, os) =
     (case probe_path h os c p of
        None \<Rightarrow> (Answered (err_resp req PermissionDenied), ls, os)
      | Some q \<Rightarrow> (Rooting req (qs @ [q]) ps, ls, os))"
| "task_step late h (Rooting req qs []) b = task_act late req qs b"
| "task_step late h (Statting req q) (ls, os) = (Answered (attr_resp req (fst (hfs_lstat q os))), ls, os)"
| "task_step late h (Answered r) b = (Answered r, b)"

text \<open>A connection: what the guest will send, the request under way, the responses sent.\<close>

record host_conn =
  hc_fs :: host_fs
  hc_todo :: "request list"
  hc_task :: "hfs_task option"
  hc_out :: "response list"

definition idle_conn :: "host_fs \<Rightarrow> request list \<Rightarrow> response list \<Rightarrow> host_conn" where
  "idle_conn h rs out = \<lparr>hc_fs = h, hc_todo = rs, hc_task = None, hc_out = out\<rparr>"

definition conn_step :: "(nat \<Rightarrow> nat) \<Rightarrow> host_conn \<Rightarrow> busy_host \<Rightarrow> host_conn \<times> busy_host" where
  "conn_step late c b =
     (case hc_task c of
        None \<Rightarrow>
          (case hc_todo c of
             [] \<Rightarrow> (c, b)
           | req # rs \<Rightarrow> (c\<lparr>hc_todo := rs, hc_task := Some (Arrived req)\<rparr>, b))
      | Some (Answered r) \<Rightarrow> (c\<lparr>hc_task := None, hc_out := hc_out c @ [r]\<rparr>, b)
      | Some t \<Rightarrow> (case task_step late (hc_fs c) t b of (t', b') \<Rightarrow> (c\<lparr>hc_task := Some t'\<rparr>, b')))"

record host_pool =
  hp_conns :: "host_conn list"
  hp_late :: "late_write list"
  hp_os :: host_os

text \<open>Who moves next: a connection, or a write still under way.\<close>

datatype pool_move = Serve nat | Settle nat

fun pool_step :: "(nat \<Rightarrow> nat) \<Rightarrow> pool_move \<Rightarrow> host_pool \<Rightarrow> host_pool" where
  "pool_step late (Serve i) p =
     (if i < length (hp_conns p) then
        (case conn_step late (hp_conns p ! i) (hp_late p, hp_os p) of
           (c, ls, os) \<Rightarrow> \<lparr>hp_conns = (hp_conns p)[i := c], hp_late = ls, hp_os = os\<rparr>)
      else p)"
| "pool_step late (Settle j) p =
     (if j < length (hp_late p) then
        (case hp_late p ! j of
           (k, pos, bs) \<Rightarrow>
             p\<lparr>hp_late := take j (hp_late p) @ drop (Suc j) (hp_late p),
               hp_os := snd (os_write_all (hp_os p) k pos bs)\<rparr>)
      else p)"

fun pool_run :: "(nat \<Rightarrow> nat) \<Rightarrow> pool_move list \<Rightarrow> host_pool \<Rightarrow> host_pool" where
  "pool_run late [] p = p"
| "pool_run late (m # ms) p = pool_run late ms (pool_step late m p)"

end
