(* ===== verification/Host_Conc_Laws.thy ===== *)
theory Host_Conc_Laws
  imports Host_Conc
begin

text \<open>
  A connection that is alone does what the methods do in one piece, and what the steps of
  many connections can change.
\<close>

section \<open>A connection alone\<close>

fun settle_all :: "late_write list \<Rightarrow> host_os \<Rightarrow> host_os" where
  "settle_all [] os = os"
| "settle_all ((k, pos, bs) # ls) os = settle_all ls (snd (os_write_all os k pos bs))"

text \<open>One step of the only connection, and time for the writes under way to finish.\<close>

definition lone_step :: "(nat \<Rightarrow> nat) \<Rightarrow> host_pool \<Rightarrow> host_pool" where
  "lone_step late p =
     (let p1 = pool_step late (Serve 0) p
      in p1\<lparr>hp_late := [], hp_os := settle_all (hp_late p1) (hp_os p1)\<rparr>)"

definition lone :: "host_fs \<Rightarrow> request list \<Rightarrow> hfs_task option \<Rightarrow> response list \<Rightarrow> host_os \<Rightarrow> host_pool" where
  "lone h rs t out os =
     \<lparr>hp_conns = [\<lparr>hc_fs = h, hc_todo = rs, hc_task = t, hc_out = out\<rparr>], hp_late = [], hp_os = os\<rparr>"

lemma lone_step_idle [simp]:
  "lone_step late (lone h [] None out os) = lone h [] None out os"
  "lone_step late (lone h (r # rs) None out os) = lone h rs (Some (Arrived r)) out os"
  by (simp_all add: lone_step_def lone_def conn_step_def)

lemma lone_step_answered [simp]:
  "lone_step late (lone h rs (Some (Answered r)) out os) = lone h rs None (out @ [r]) os"
  by (simp add: lone_step_def lone_def conn_step_def)

lemma lone_step_task [simp]:
  assumes "task_step late h t ([], os) = (t', ls, os')" and "\<forall>r. t \<noteq> Answered r"
  shows "lone_step late (lone h rs (Some t) out os) = lone h rs (Some t') out (settle_all ls os')"
  using assms by (cases t) (auto simp: lone_step_def lone_def conn_step_def Let_def simp del: task_step.simps)

definition leads :: "(nat \<Rightarrow> nat) \<Rightarrow> nat \<Rightarrow> host_pool \<Rightarrow> host_pool \<Rightarrow> bool" where
  "leads late n p p' \<longleftrightarrow> (\<exists>m \<le> n. (lone_step late ^^ m) p = p')"

lemma leads_refl [simp]: "leads late n p p"
  by (auto simp: leads_def intro: exI[of _ 0])

lemma leads_trans: "leads late m p q \<Longrightarrow> leads late n q s \<Longrightarrow> leads late (m + n) p s"
proof -
  assume "leads late m p q" "leads late n q s"
  then obtain i j where "i \<le> m" "j \<le> n" "(lone_step late ^^ i) p = q" "(lone_step late ^^ j) q = s"
    by (auto simp: leads_def)
  then have "i + j \<le> m + n" "(lone_step late ^^ (j + i)) p = s" by (auto simp: funpow_add)
  then show ?thesis unfolding leads_def by (metis add.commute)
qed

lemma leads_step: "lone_step late p = q \<Longrightarrow> leads late n q s \<Longrightarrow> leads late (Suc n) p s"
  unfolding leads_def by (metis Suc_le_mono funpow_Suc_right o_apply)

lemma leads_task:
  assumes "task_step late h t ([], os) = (t', ls, os')" and "\<forall>r. t \<noteq> Answered r"
    and "leads late n (lone h rs (Some t') out (settle_all ls os')) s"
  shows "leads late (Suc n) (lone h rs (Some t) out os) s"
  using leads_step[OF lone_step_task[OF assms(1,2)] assms(3)] .

lemma leads_answered:
  "leads late (Suc n) (lone h rs (Some (Answered r)) out os) (lone h rs None (out @ [r]) os)"
  by (rule leads_step[OF lone_step_answered]) simp

text \<open>Resolving a path takes two steps, or ends the request.\<close>

lemma leads_resolve:
  assumes "resolve h os p = Ok q" and "leads late n (lone h rs (Some (Rooting req (qs @ [q]) ps)) out os) s"
  shows "leads late (Suc (Suc n)) (lone h rs (Some (Rooting req qs (p # ps))) out os) s"
proof -
  obtain c where c: "os_canonicalize os (hf_root h) = Ok c" "probe_path h os c p = Some q"
    using assms(1) by (auto simp: resolve_halves split: result.splits option.splits)
  show ?thesis
  proof (rule leads_task)
    show "task_step late h (Rooting req qs (p # ps)) ([], os) = (Probing req qs c p ps, [], os)"
      using c by simp
    show "leads late (Suc n) (lone h rs (Some (Probing req qs c p ps)) out (settle_all [] os)) s"
      by (rule leads_task[where t' = "Rooting req (qs @ [q]) ps" and ls = "[]"]) (use c assms(2) in simp_all)
  qed simp
qed

lemma leads_denied:
  assumes "resolve h os p = Err e"
  shows "leads late 3 (lone h rs (Some (Rooting req qs (p # ps))) out os)
           (lone h rs None (out @ [err_resp req e]) os)"
proof (cases "os_canonicalize os (hf_root h)")
  case (Err e')
  then have e: "e = Io (ioe_msg e')" using assms by (simp add: resolve_halves)
  have "leads late (Suc 2) (lone h rs (Some (Rooting req qs (p # ps))) out os)
      (lone h rs None (out @ [err_resp req e]) os)"
    by (rule leads_task[where t' = "Answered (err_resp req e)" and ls = "[]"])
      (use Err e leads_answered[of late 1] in \<open>simp_all add: numeral_2_eq_2\<close>)
  then show ?thesis by (simp add: numeral_3_eq_3 numeral_2_eq_2)
next
  case (Ok c)
  then have c: "probe_path h os c p = None" "e = PermissionDenied"
    using assms by (auto simp: resolve_halves split: option.splits)
  have "leads late (Suc (Suc 1)) (lone h rs (Some (Rooting req qs (p # ps))) out os)
      (lone h rs None (out @ [err_resp req e]) os)"
  proof (rule leads_task[where t' = "Probing req qs c p ps" and ls = "[]"])
    show "leads late (Suc 1) (lone h rs (Some (Probing req qs c p ps)) out (settle_all [] os))
        (lone h rs None (out @ [err_resp req e]) os)"
      by (rule leads_task[where t' = "Answered (err_resp req e)" and ls = "[]"])
        (use c leads_answered[of late 0] in simp_all)
  qed (use Ok in simp_all)
  then show ?thesis by (simp add: numeral_3_eq_3)
qed


section \<open>One request alone\<close>

lemma os_write_all_split:
  assumes "node_at os k = Some (NFile m d)" and "k \<noteq> []" and "os_fault os SysWrite = (\<lambda>_. None)"
  shows "fst (os_write_all os k pos (a @ b)) = Ok ()"
    and "snd (os_write_all os k pos (a @ b)) =
           snd (os_write_all (snd (os_write_all os k pos a)) k (pos + length a) b)"
proof -
  have over: "overwrite (overwrite d pos a) (pos + length a) b = overwrite d pos (a @ b)"
    by (cases "pos \<le> length d") (simp_all add: overwrite_def ac_simps)
  have twice: "put_data (put_data os k m x) k m' y = put_data os k m y"
    if "m' = m\<lparr>om_modified := om_modified (os_fresh os False)\<rparr>" for x y m'
    using that by (simp add: put_data_def put_node_def)
  show "fst (os_write_all os k pos (a @ b)) = Ok ()"
    using assms by (simp add: os_write_all_def)
  show "snd (os_write_all os k pos (a @ b)) =
      snd (os_write_all (snd (os_write_all os k pos a)) k (pos + length a) b)"
  proof (cases "a = []")
    case False
    have "os_fault (put_data os k m x) SysWrite = (\<lambda>_. None)" for x
      using assms(3) by (simp add: put_data_def put_node_def)
    then show ?thesis using False assms over twice by (simp add: os_write_all_def)
  qed (simp add: os_write_all_def)
qed

text \<open>The write with the rest of its bytes written at once is the write.\<close>

lemma write_at_settled:
  assumes "os_wf os" and "os_fault os SysWrite = (\<lambda>_. None)" and "check_rw h = Ok ()"
    and "resolve h os p = Ok q" and "write_at late q off data ([], os) = (r, ls, os')"
  shows "hfs_write h p off data os = (r, settle_all ls os')"
proof -
  obtain r1 os1 where op: "os_open_write os True True q = (r1, os1)" by fastforce
  show ?thesis
  proof (cases r1)
    case (Err e)
    then show ?thesis using assms(3-5) op by (auto simp: hfs_write_def write_at_def)
  next
    case (Ok k)
    obtain m d where k: "node_at os1 k = Some (NFile m d)"
      using os_open_write_ok(3)[OF assms(1) op[unfolded Ok]] by auto
    then have ne: "k \<noteq> []" by auto
    have env: "os_fault os1 SysWrite = (\<lambda>_. None)"
      using host_steps_env[OF os_open_write_steps[OF assms(1), of q "\<lambda>_. True" True True]] op assms(2) by simp
    show ?thesis
    proof (cases "os_seek os1 k off")
      case (Err e)
      then show ?thesis using assms(3-5) op Ok by (auto simp: hfs_write_def write_at_def)
    next
      case seek: (Ok pos)
      let ?m = "length data - late (length data)"
      obtain os2 where fg: "os_write_all os1 k pos (take ?m data) = (Ok (), os2)"
        using os_write_all_split(1)[OF k ne env, of pos "take ?m data" "[]"]
        by (metis append_Nil2 prod.collapse)
      have len: "length (take ?m data) = ?m" by simp
      have "fst (os_write_all os1 k pos data) = Ok ()"
        and "snd (os_write_all os1 k pos data) = snd (os_write_all os2 k (pos + ?m) (drop ?m data))"
        using os_write_all_split[OF k ne env, of pos "take ?m data" "drop ?m data"]
        unfolding append_take_drop_id len fg by simp_all
      then have all: "os_write_all os1 k pos data =
          (Ok (), snd (os_write_all os2 k (pos + ?m) (drop ?m data)))"
        by (metis prod.collapse)
      have "write_at late q off data ([], os) =
          (Ok (of_nat (length data)), [(k, pos + ?m, drop ?m data)], os2)"
        using op Ok seek fg by (simp add: write_at_def Let_def)
      moreover have "hfs_write h p off data os =
          (Ok (of_nat (length data)), snd (os_write_all os2 k (pos + ?m) (drop ?m data)))"
        using assms(3,4) op Ok seek all by (simp add: hfs_write_def)
      ultimately show ?thesis using assms(5) by simp
    qed
  qed
qed

text \<open>The step that runs the operation, and for \<^verbatim>\<open>create\<close> and \<^verbatim>\<open>mkdir\<close> the one after it.\<close>

lemma leads_act:
  assumes "task_act late req qs ([], os) = (Answered r, ls, os1)" and "settle_all ls os1 = os'"
  shows "leads late 3 (lone h rs (Some (Rooting req qs [])) out os) (lone h rs None (out @ [r]) os')"
proof -
  have "leads late (Suc 2) (lone h rs (Some (Rooting req qs [])) out os)
      (lone h rs None (out @ [r]) (settle_all ls os1))"
    by (rule leads_task[where t' = "Answered r" and ls = ls and os' = os1])
      (use assms(1) leads_answered[of late 1] in \<open>simp_all add: numeral_2_eq_2\<close>)
  then show ?thesis using assms(2) by (simp add: numeral_3_eq_3 numeral_2_eq_2)
qed

lemma leads_act_stat:
  assumes "task_act late req qs ([], os) = (Statting req q, [], os1)"
  shows "leads late 3 (lone h rs (Some (Rooting req qs [])) out os)
           (lone h rs None (out @ [attr_resp req (fst (hfs_lstat q os1))]) os1)"
proof -
  have "leads late (Suc (Suc 1)) (lone h rs (Some (Rooting req qs [])) out os)
      (lone h rs None (out @ [attr_resp req (fst (hfs_lstat q os1))]) os1)"
  proof (rule leads_task[where t' = "Statting req q" and ls = "[]" and os' = os1])
    show "leads late (Suc 1) (lone h rs (Some (Statting req q)) out (settle_all [] os1))
        (lone h rs None (out @ [attr_resp req (fst (hfs_lstat q os1))]) os1)"
      by (rule leads_task[where t' = "Answered (attr_resp req (fst (hfs_lstat q os1)))" and ls = "[]"])
        (use leads_answered[of late 0] in simp_all)
  qed (use assms in simp_all)
  then show ?thesis by (simp add: numeral_3_eq_3)
qed

lemma settle_late: "fst (snd r) = [] \<Longrightarrow> settle_all (fst (snd r)) x = x"
  by simp

lemma remove_at_alone:
  "fst (remove_at r q ([], os)) = map_err map_io (fst r)"
  "fst (snd (remove_at r q ([], os))) = []" "snd (snd (remove_at r q ([], os))) = snd r"
  by (auto simp: remove_at_def follow_remove_def split: result.splits prod.splits)

lemma rename_at_alone:
  "fst (rename_at p q ([], os)) = map_err map_io (fst (os_rename os p q))"
  "fst (snd (rename_at p q ([], os))) = []" "snd (snd (rename_at p q ([], os))) = snd (os_rename os p q)"
  by (auto simp: rename_at_def follow_rename_def split: result.splits prod.splits)

lemma io_result_pair: "io_result r = (map_err map_io (fst r), snd r)"
  by (cases r) simp

lemma leads_one_path:
  assumes wf: "os_wf os" and faults: "os_fault os SysWrite = (\<lambda>_. None)"
    and rw: "needs_rw req \<longrightarrow> check_rw h = Ok ()"
    and p: "req_paths req = [p]" and q: "resolve h os p = Ok q"
  shows "leads late 3 (lone h rs (Some (Rooting req [q] [])) out os)
    (lone h rs None (out @ [fst (handle (host_fs_vfs h) req os)]) (snd (handle (host_fs_vfs h) req os)))"
proof (cases req)
  case (ReqStat p')
  then show ?thesis using p q
    by (intro leads_act[where ls = "[]" and ?os1.0 = os])
      (auto simp: host_fs_vfs_def hfs_stat_def)
next
  case (ReqList p')
  then show ?thesis using p q
    by (intro leads_act[where ls = "[]" and ?os1.0 = os])
      (auto simp: host_fs_vfs_def hfs_list_def list_at_def split: result.splits)
next
  case (ReqRead p' off len)
  then show ?thesis using p q
    by (intro leads_act[where ls = "[]" and ?os1.0 = os])
      (auto simp: host_fs_vfs_def hfs_read_def read_at_def split: result.splits)
next
  case (ReqWrite p' off data)
  obtain r ls os1 where w: "write_at late q off data ([], os) = (r, ls, os1)" by (metis prod.exhaust)
  have "hfs_write h p off data os = (r, settle_all ls os1)"
    using write_at_settled[OF wf faults _ q w] rw ReqWrite by simp
  then show ?thesis using p w ReqWrite
    by (intro leads_act[where ls = ls and ?os1.0 = os1]) (auto simp: host_fs_vfs_def)
next
  case (ReqTruncate p' sz)
  then show ?thesis using p q rw
    by (intro leads_act[where ls = "[]" and ?os1.0 = "snd (truncate_at q sz os)"])
      (auto simp: host_fs_vfs_def hfs_truncate_def truncate_at_def split: result.splits prod.splits)
next
  case (ReqRemove p')
  then show ?thesis using p q rw remove_at_alone[of "os_remove_file os q" q os]
    by (intro leads_act[where ls = "[]" and ?os1.0 = "snd (os_remove_file os q)"])
      (auto simp: host_fs_vfs_def hfs_remove_def io_result_pair apfst_def prod_eq_iff map_prod_def split_beta)
next
  case (ReqRmdir p')
  then show ?thesis using p q rw remove_at_alone[of "os_remove_dir os q" q os]
    by (intro leads_act[where ls = "[]" and ?os1.0 = "snd (os_remove_dir os q)"])
      (auto simp: host_fs_vfs_def hfs_rmdir_def io_result_pair prod_eq_iff map_prod_def split_beta)
next
  case (ReqCreate p' mode)
  obtain r os1 where op: "os_open_write os True True q = (r, os1)" by fastforce
  show ?thesis
  proof (cases r)
    case (Err e)
    then show ?thesis using ReqCreate p q rw op
      by (intro leads_act[where ls = "[]" and ?os1.0 = os1]) (auto simp: host_fs_vfs_def hfs_create_def)
  next
    case (Ok k)
    then have "handle (host_fs_vfs h) req os = (attr_resp req (fst (hfs_lstat q os1)), os1)"
      using ReqCreate p q rw op by (auto simp: host_fs_vfs_def hfs_create_def apfst_def map_prod_def split_beta)
    then show ?thesis using leads_act_stat[of late req "[q]" os q os1] ReqCreate op Ok by simp
  qed
next
  case (ReqMkdir p' mode)
  obtain r os1 where op: "os_create_dir os q = (r, os1)" by fastforce
  show ?thesis
  proof (cases r)
    case (Err e)
    then show ?thesis using ReqMkdir p q rw op
      by (intro leads_act[where ls = "[]" and ?os1.0 = os1]) (auto simp: host_fs_vfs_def hfs_mkdir_def)
  next
    case (Ok k)
    then have "handle (host_fs_vfs h) req os = (attr_resp req (fst (hfs_lstat q os1)), os1)"
      using ReqMkdir p q rw op by (auto simp: host_fs_vfs_def hfs_mkdir_def apfst_def map_prod_def split_beta)
    then show ?thesis using leads_act_stat[of late req "[q]" os q os1] ReqMkdir op Ok by simp
  qed
qed (use p in simp_all)


lemmas hfs_method_defs = hfs_stat_def hfs_list_def hfs_read_def hfs_write_def hfs_create_def
  hfs_mkdir_def hfs_remove_def hfs_rmdir_def hfs_rename_def hfs_truncate_def

lemma handle_denied:
  "needs_rw req \<Longrightarrow> hf_read_only h \<Longrightarrow>
     handle (host_fs_vfs h) req os = (err_resp req PermissionDenied, os)"
  by (cases req) (simp_all add: host_fs_vfs_def hfs_method_defs check_rw_def)

lemma handle_unresolved:
  assumes "\<not> (needs_rw req \<and> hf_read_only h)" and "req_paths req = p # ps" and "resolve h os p = Err e"
  shows "handle (host_fs_vfs h) req os = (err_resp req e, os)"
  using assms by (cases req) (auto simp: host_fs_vfs_def hfs_method_defs check_rw_def)

lemma leads_mono: "leads late m p q \<Longrightarrow> m \<le> n \<Longrightarrow> leads late n p q"
  unfolding leads_def using order_trans by blast

lemma leads_request:
  assumes wf: "os_wf os" and faults: "os_fault os SysWrite = (\<lambda>_. None)"
  shows "leads late 9 (lone h (req # rs) None out os)
    (lone h rs None (out @ [fst (handle (host_fs_vfs h) req os)]) (snd (handle (host_fs_vfs h) req os)))"
    (is "leads late 9 _ ?end")
proof -
  have arrive: "leads late 9 (lone h (req # rs) None out os) ?end"
    if "leads late 8 (lone h rs (Some (Arrived req)) out os) ?end"
    using leads_step[OF lone_step_idle(2) that] by simp
  show ?thesis
  proof (cases "needs_rw req \<and> hf_read_only h")
    case True
    have "leads late (Suc 1) (lone h rs (Some (Arrived req)) out os) ?end"
      by (rule leads_task[where t' = "Answered (err_resp req PermissionDenied)" and ls = "[]"])
        (use True handle_denied leads_answered[of late 0] in simp_all)
    then show ?thesis using arrive leads_mono by fastforce
  next
    case rw: False
    have enter: "leads late 9 (lone h (req # rs) None out os) ?end"
      if "leads late 7 (lone h rs (Some (Rooting req [] (req_paths req))) out os) ?end"
      by (rule arrive, rule leads_task[where t' = "Rooting req [] (req_paths req)" and ls = "[]" and n = 7, simplified])
        (use rw that in simp_all)
    consider (hello) v where "req = ReqHello v" | (two) p q where "req = ReqRename p q"
      | (one) p where "req_paths req = [p]"
      by (cases req) auto
    then show ?thesis
    proof cases
      case hello
      have "leads late 3 (lone h rs (Some (Rooting req [] [])) out os) ?end"
        using hello by (intro leads_act[where ls = "[]" and ?os1.0 = os]) auto
      then show ?thesis using enter leads_mono[of late 3 _ _ 7] hello by simp
    next
      case one
      show ?thesis
      proof (cases "resolve h os p")
        case (Err e)
        then have "leads late 3 (lone h rs (Some (Rooting req [] [p])) out os) ?end"
          using leads_denied[OF Err, of late rs req "[]" "[]" out] handle_unresolved[OF rw one Err] by simp
        then show ?thesis using enter leads_mono[of late 3 _ _ 7] one by simp
      next
        case (Ok q)
        have "needs_rw req \<longrightarrow> check_rw h = Ok ()" using rw by (auto simp: check_rw_def)
        from leads_one_path[OF wf faults this one Ok]
        have "leads late (Suc (Suc 3)) (lone h rs (Some (Rooting req [] [p])) out os) ?end"
          by (intro leads_resolve[OF Ok]) simp
        then show ?thesis using enter leads_mono[of late 5 _ _ 7] one by (simp add: eval_nat_numeral)
      qed
    next
      case two
      have ro: "check_rw h = Ok ()" using two rw by (auto simp: check_rw_def)
      show ?thesis
      proof (cases "resolve h os p")
        case (Err e)
        then have "leads late 3 (lone h rs (Some (Rooting req [] [p, q])) out os) ?end"
          using leads_denied[OF Err, of late rs req "[]" "[q]" out] handle_unresolved[OF rw _ Err] two by simp
        then show ?thesis using enter leads_mono[of late 3 _ _ 7] two by simp
      next
        case (Ok f)
        have "leads late 5 (lone h rs (Some (Rooting req [f] [q])) out os) ?end"
        proof (cases "resolve h os q")
          case (Err e)
          then have "leads late 3 (lone h rs (Some (Rooting req [f] [q])) out os) ?end"
            using leads_denied[OF Err, of late rs req "[f]" "[]" out] two ro Ok
            by (simp add: host_fs_vfs_def hfs_rename_def)
          then show ?thesis by (rule leads_mono) simp
        next
          case t: (Ok t)
          have "leads late 3 (lone h rs (Some (Rooting req [f, t] [])) out os) ?end"
            using two ro Ok t rename_at_alone[of f t os]
            by (intro leads_act[where ls = "[]" and ?os1.0 = "snd (os_rename os f t)"])
              (auto simp: host_fs_vfs_def hfs_rename_def io_result_pair prod_eq_iff map_prod_def split_beta)
          then have "leads late (Suc (Suc 3)) (lone h rs (Some (Rooting req [f] [q])) out os) ?end"
            by (intro leads_resolve[OF t]) simp
          then show ?thesis by (simp add: eval_nat_numeral)
        qed
        then have "leads late (Suc (Suc 5)) (lone h rs (Some (Rooting req [] [p, q])) out os) ?end"
          by (intro leads_resolve[OF Ok]) simp
        then show ?thesis using enter two by (simp add: eval_nat_numeral)
      qed
    qed
  qed
qed

lemma leads_requests:
  assumes "os_wf os" and "os_fault os SysWrite = (\<lambda>_. None)"
  shows "leads late (9 * length rs) (lone h rs None out os)
    (lone h [] None (out @ fst (run_requests (host_fs_vfs h) rs os)) (snd (run_requests (host_fs_vfs h) rs os)))"
  using assms
proof (induction rs arbitrary: out os)
  case Nil
  show ?case by simp
next
  case (Cons req rs)
  let ?os1 = "snd (handle (host_fs_vfs h) req os)"
  have st: "host_steps (\<lambda>_. True) os ?os1" using Cons.prems(1) by (intro handle_steps) simp_all
  have "os_wf ?os1" "os_fault ?os1 SysWrite = (\<lambda>_. None)"
    using host_steps_wf[OF st] host_steps_env[OF st] Cons.prems by simp_all
  from Cons.IH[OF this] leads_request[OF Cons.prems, of late h req rs out] show ?case
    using leads_trans by (fastforce simp: split_beta)
qed

lemma lone_done [simp]: "(lone_step late ^^ n) (lone h [] None out os) = lone h [] None out os"
  by (induction n) auto



section \<open>What the steps of many connections can change\<close>

text \<open>
  All connections share the canonical directory \<open>r\<close>, below which there is no symbolic link,
  and the paths they name have no \<^verbatim>\<open>..\<close> component.
\<close>

definition shared_dir :: "key \<Rightarrow> host_os \<Rightarrow> bool" where
  "shared_dir r os \<longleftrightarrow> os_wf os \<and> canon_reliable os \<and> is_dir_at os r \<and> link_free os r"

lemma jail_shared: "jail h r os \<longleftrightarrow> hf_root h = abs_path r \<and> shared_dir r os"
  by (auto simp: jail_def shared_dir_def)

lemma shared_dir_steps: "shared_dir r os \<Longrightarrow> host_steps (below r) os os' \<Longrightarrow> shared_dir r os'"
  using jail_steps[of "host_fs_new (abs_path r) False" r os os'] by (simp add: jail_shared host_fs_new_def)

lemma shared_dir_names: "shared_dir r os \<Longrightarrow> list_all name_ok r"
  using settled_dir[of os r] by (simp add: shared_dir_def settled_def)

definition dotless :: "path \<Rightarrow> bool" where
  "dotless p \<longleftrightarrow> list_all (\<lambda>c. c \<noteq> ParentDir) (components p)"

definition inside_path :: "key \<Rightarrow> path \<Rightarrow> bool" where
  "inside_path r q \<longleftrightarrow> (\<exists>ns. components q = RootDir # map Normal (r @ ns) \<and> (ns = [] \<longrightarrow> r = []))"

lemma plain_body:
  "list_all body_ok cs \<Longrightarrow> list_all (\<lambda>c. c \<noteq> ParentDir) cs \<Longrightarrow> \<exists>ns. cs = map Normal ns"
proof (induction cs)
  case (Cons c cs)
  then obtain ns n where "cs = map Normal ns" "c = Normal n" by (cases c) auto
  then show ?case by (metis list.map(2))
qed simp

lemma dotless_join:
  assumes "list_all name_ok r" and "dotless p"
  shows "\<exists>ns. components (path_join (abs_path r) (case strip_prefix p ''/'' of Some x \<Rightarrow> x | None \<Rightarrow> p)) =
           RootDir # map Normal (r @ ns)"
proof (cases "has_root p")
  case True
  then obtain cs where cs: "components p = RootDir # cs" by (auto simp: has_root_components)
  obtain ns where ns: "cs = map Normal ns"
    using plain_body[OF rooted_body[OF cs]] assms(2) cs by (auto simp: dotless_def)
  show ?thesis using joined_components[OF assms(1) cs] ns by auto
next
  case False
  let ?bs = "body_components (split_on slash p)"
  have "list_all (\<lambda>c. c \<noteq> ParentDir) ?bs"
    using assms(2) by (auto simp: dotless_def components_def split: if_splits)
  then obtain ns where "?bs = map Normal ns" using plain_body[OF body_components_split_ok] by blast
  then show ?thesis
    using components_join[OF False abs_path_nonempty[OF assms(1)]] strip_root_relative[OF False] assms(1)
    by auto
qed

lemma probe_inside:
  assumes sd: "shared_dir r os" and h: "hf_root h = abs_path r" and p: "dotless p"
    and pr: "probe_path h os (abs_path r) p = Some q"
  shows "inside_path r q"
proof -
  let ?rel = "case strip_prefix p ''/'' of Some x \<Rightarrow> x | None \<Rightarrow> p"
  let ?probe = "case path_parent q of Some x \<Rightarrow> x | None \<Rightarrow> q"
  have wf: "os_wf os" and cr: "canon_reliable os" and dir: "is_dir_at os r"
    using sd by (simp_all add: shared_dir_def)
  note names = shared_dir_names[OF sd]
  have q: "q = path_join (abs_path r) ?rel"
    and chk: "path_starts_with (case os_canonicalize os ?probe of Ok c \<Rightarrow> c | Err _ \<Rightarrow> ?probe) (abs_path r)"
    using pr h by (auto simp: probe_path_def Let_def split: if_splits)
  obtain ns where ns: "components q = RootDir # map Normal (r @ ns)"
    using dotless_join[OF names p] q by auto
  have "r = []" if "ns = []"
  proof (rule ccontr)
    assume "r \<noteq> []"
    then obtain r' x where r: "r = r' @ [x]" by (metis rev_exhaust)
    have "components q = (RootDir # map Normal r') @ [Normal x]" using ns \<open>ns = []\<close> r by simp
    then obtain probe where probe: "path_parent q = Some probe" "components probe = RootDir # map Normal r'"
      using path_parent_snoc[of q "RootDir # map Normal r'" "Normal x"] by auto
    have "os_canonicalize os probe = Ok (abs_path r')"
      using canonicalize_dir[OF wf cr is_dir_prefix[OF wf] probe(2)] dir r by blast
    then show False using chk probe(1) names r by auto
  qed
  then show ?thesis using ns by (auto simp: inside_path_def)
qed

lemma os_walk_inside:
  assumes "os_wf os" and "link_free os r" and "prefix r cur" and "os_walk os f cur (map Normal ns) = Ok k"
  shows "k = cur @ ns"
  using assms(3,4)
proof (induction ns arbitrary: cur)
  case (Cons n ns)
  have "node_at os (cur @ [n]) \<noteq> Some (NLink m t)" for m t
    using assms(1,2) Cons.prems(1) by (simp add: link_free_iff)
  then have "os_walk os f (cur @ [n]) (map Normal ns) = Ok k \<or> ns = [] \<and> k = cur @ [n]"
    using Cons.prems(2) by (auto split: if_splits option.splits os_node.splits)
  then show ?case using Cons.IH[of "cur @ [n]"] Cons.prems(1) by auto
qed simp

lemma walk_shared:
  assumes "shared_dir r os" and "os_walk os f cur (RootDir # map Normal r @ map Normal ns) = Ok k"
  shows "k = r @ ns"
  using assms os_walk_dirs[of os "[]" r f "map Normal ns"] os_walk_inside[of os r r f ns k]
  by (simp add: shared_dir_def)

lemma inside_resolve:
  assumes "shared_dir r os" and "inside_path r q" and "os_resolve os q = Ok k" and "\<not> is_dir_at os k"
  shows "below r k"
proof -
  obtain ns where ns: "components q = RootDir # map Normal (r @ ns)" "ns = [] \<longrightarrow> r = []"
    using assms(2) by (auto simp: inside_path_def)
  have "os_walk os symlink_limit (os_cwd os) (components q) = Ok k"
    using assms(3) by (auto simp: os_resolve_def split: if_splits)
  then have "k = r @ ns" using walk_shared[OF assms(1)] ns(1) by simp
  moreover have "ns \<noteq> []" using calculation assms(1,4) by (auto simp: shared_dir_def)
  ultimately show ?thesis by (simp add: strict_prefix_def)
qed

lemma inside_locate:
  assumes "shared_dir r os" and "inside_path r q" and "os_locate os q = Ok (k, True)"
  shows "below r k"
proof -
  obtain ns where ns: "components q = RootDir # map Normal (r @ ns)" "ns = [] \<longrightarrow> r = []"
    using assms(2) by (auto simp: inside_path_def)
  have wf: "os_wf os" using assms(1) by (simp add: shared_dir_def)
  obtain cs n d where q: "components q = cs @ [Normal n]"
      and d: "os_walk os symlink_limit (os_cwd os) cs = Ok d" "k = d @ [n]"
    using os_locate_named[OF wf assms(3)] by blast
  obtain ms where ms: "ns = ms @ [n]"
  proof (cases ns rule: rev_cases)
    case Nil
    then show ?thesis using ns q by (cases cs) auto
  next
    case (snoc ms x)
    then show ?thesis using that ns(1) q by (cases cs) auto
  qed
  then have "cs = RootDir # map Normal r @ map Normal ms" using ns(1) q by (cases cs) auto
  then have "d = r @ ms" using walk_shared[OF assms(1)] d(1) by simp
  then show ?thesis using d(2) by (simp add: strict_prefix_def)
qed


text \<open>What holds of a request under way, of a connection and of the pool.\<close>

fun task_ok :: "key \<Rightarrow> hfs_task \<Rightarrow> bool" where
  "task_ok r (Arrived req) = list_all dotless (req_paths req)"
| "task_ok r (Rooting req qs ps) = (list_all (inside_path r) qs \<and> list_all dotless ps)"
| "task_ok r (Probing req qs c p ps) =
     (list_all (inside_path r) qs \<and> c = abs_path r \<and> dotless p \<and> list_all dotless ps)"
| "task_ok r _ = True"

definition conn_ok :: "key \<Rightarrow> host_conn \<Rightarrow> bool" where
  "conn_ok r c \<longleftrightarrow> hf_root (hc_fs c) = abs_path r \<and>
     list_all (\<lambda>req. list_all dotless (req_paths req)) (hc_todo c) \<and>
     (case hc_task c of None \<Rightarrow> True | Some t \<Rightarrow> task_ok r t)"

definition late_below :: "key \<Rightarrow> late_write list \<Rightarrow> bool" where
  "late_below r ls \<longleftrightarrow> list_all (\<lambda>(k, _). below r k) ls"

text \<open>One step: the tree changes below the root only, and so do the writes under way.\<close>

definition step_ok :: "key \<Rightarrow> busy_host \<Rightarrow> hfs_task \<times> busy_host \<Rightarrow> bool" where
  "step_ok r b = (\<lambda>(t, ls, os'). task_ok r t \<and> host_steps (below r) (snd b) os' \<and> late_below r ls)"

lemma late_below_rename: "late_below r ls \<Longrightarrow> below r d \<Longrightarrow> late_below r (follow_rename s d ls)"
  by (auto simp: late_below_def follow_rename_def list_all_iff strict_prefix_def)

lemma late_below_remove: "late_below r ls \<Longrightarrow> late_below r (follow_remove s ls)"
  by (auto simp: late_below_def follow_remove_def list_all_iff)

lemma late_below_add: "late_below r ls \<Longrightarrow> below r k \<Longrightarrow> late_below r (ls @ [(k, x)])"
  by (simp add: late_below_def)

lemma os_rename_named:
  assumes "os_rename os p q = (Ok u, os')"
  shows "\<exists>d. os_locate os q = Ok (d, True)"
  using assms by (auto simp: os_rename_def split: result.splits option.splits prod.splits if_splits)

lemma write_at_confined:
  assumes sd: "shared_dir r os" and q: "inside_path r q" and ls: "late_below r ls"
    and w: "write_at late q off data (ls, os) = (res, ls', os')"
  shows "host_steps (below r) os os' \<and> late_below r ls'"
proof -
  have wf: "os_wf os" using sd by (simp add: shared_dir_def)
  obtain r1 os1 where op: "os_open_write os True True q = (r1, os1)" by fastforce
  have st: "host_steps (below r) os os1"
    using os_open_write_steps[OF wf, of q "below r" True True] inside_resolve[OF sd q] op by auto
  show ?thesis
  proof (cases r1)
    case (Err e)
    then show ?thesis using w op st ls by (auto simp: write_at_def)
  next
    case (Ok k)
    have k: "below r k"
      using os_open_write_ok(1,2)[OF wf op[unfolded Ok]] inside_resolve[OF sd q] by blast
    have "host_steps (below r) os (snd (os_write_all os1 k pos bs))" for pos bs
      using os_write_all_steps[of os1 "below r" k pos bs] host_steps_wf[OF st wf] k st
      by (meson rtranclp_trans)
    then show ?thesis using w op Ok st ls late_below_add[OF ls k]
      by (auto simp: write_at_def Let_def split: result.splits prod.splits) (metis snd_conv)+
  qed
qed

lemma task_act_confined:
  assumes sd: "shared_dir r os" and ls: "late_below r ls" and qs: "list_all (inside_path r) qs"
  shows "step_ok r (ls, os) (task_act late req qs (ls, os))"
proof (cases "(late, req, qs, (ls, os))" rule: task_act.cases)
  case (1 late uu q ls os)
  then show ?thesis using ls by (simp add: step_ok_def)
next
  case (2 late uv q ls os)
  then show ?thesis using ls by (simp add: step_ok_def)
next
  case (3 late uw off len q ls os)
  then show ?thesis using ls by (simp add: step_ok_def)
next
  case (4 late' ux off data q b)
  obtain res ls' os' where w: "write_at late q off data (ls, os) = (res, ls', os')" by (metis prod.exhaust)
  moreover have "b = (ls, os)" using 4 by simp
  ultimately show ?thesis using 4 write_at_confined[OF sd _ ls w] qs by (simp add: step_ok_def)
next
  case (5 late' p mode q ls' os')
  have "host_steps (below r) os (snd (os_open_write os True True q))"
    using os_open_write_steps[of os q "below r" True True] inside_resolve[OF sd] sd qs 5
    by (auto simp: shared_dir_def)
  then show ?thesis using 5 ls by (auto simp: step_ok_def split: prod.splits result.splits)
next
  case (6 late' p mode q ls' os')
  have "host_steps (below r) os (snd (os_create_dir os q))"
    using os_create_dir_steps[of os q "below r"] inside_locate[OF sd] sd qs 6
    by (auto simp: shared_dir_def)
  then show ?thesis using 6 ls by (auto simp: step_ok_def split: prod.splits result.splits)
next
  case (7 late' uy q ls' os')
  have "host_steps (below r) os (snd (os_remove_file os q))"
    using os_remove_file_steps[of os q "below r"] inside_locate[OF sd] sd qs 7
    by (auto simp: shared_dir_def)
  then show ?thesis using 7 ls late_below_remove
    by (auto simp: step_ok_def remove_at_def split: prod.splits result.splits)
next
  case (8 late' uz q ls' os')
  have "host_steps (below r) os (snd (os_remove_dir os q))"
    using os_remove_dir_steps[of os q "below r"] inside_locate[OF sd] sd qs 8
    by (auto simp: shared_dir_def)
  then show ?thesis using 8 ls late_below_remove
    by (auto simp: step_ok_def remove_at_def split: prod.splits result.splits)
next
  case (9 late' va vb q q' b)
  have "host_steps (below r) os (snd (os_rename os q q'))"
    using os_rename_steps[of os q "below r" q'] inside_locate[OF sd] sd qs 9
    by (auto simp: shared_dir_def)
  moreover have "below r d" if "os_rename os q q' = (Ok u, os1)" "os_locate os q' = Ok (d, nm)" for u os1 d nm
    using os_rename_named[OF that(1)] that(2) inside_locate[OF sd, of q' d] qs 9 by auto
  ultimately show ?thesis using 9 ls late_below_rename
    by (auto simp: step_ok_def rename_at_def split: prod.splits result.splits)
next
  case (10 late' vc sz q ls' os')
  have wf: "os_wf os" and q: "inside_path r q" using sd qs 10 by (simp_all add: shared_dir_def)
  obtain r1 os1 where op: "os_open_write os False False q = (r1, os1)" by fastforce
  have st: "host_steps (below r) os os1"
    using os_open_write_steps[OF wf, of q "below r" False False] inside_resolve[OF sd q] op by auto
  have "host_steps (below r) os (snd (os_set_len os1 k sz))" if "r1 = Ok k" for k
  proof -
    have "below r k"
      using os_open_write_ok(1,2)[OF wf op[unfolded that]] inside_resolve[OF sd q] by blast
    then show ?thesis using os_set_len_steps[of os1 "below r" k sz] host_steps_wf[OF st wf] st
      by (meson rtranclp_trans)
  qed
  then show ?thesis using 10 ls st op
    by (cases r1) (auto simp: step_ok_def truncate_at_def io_result_pair split: prod.splits)
qed (use ls in \<open>auto simp: step_ok_def\<close>)


lemma task_step_confined:
  assumes sd: "shared_dir r os" and ls: "late_below r ls" and h: "hf_root h = abs_path r"
    and t: "task_ok r t"
  shows "step_ok r (ls, os) (task_step late h t (ls, os))"
proof (cases "(late, h, t, (ls, os))" rule: task_step.cases)
  case (2 late h' req qs p ps ls' os')
  have root: "os_resolve os (abs_path r) = Ok r"
    using jail_root[of "host_fs_new (abs_path r) False" r os] sd
    by (simp add: jail_shared host_fs_new_def)
  have "c = abs_path r" if "os_canonicalize os (abs_path r) = Ok c" for c
    using canonicalize_Ok(1)[OF _ _ that root] sd by (simp add: shared_dir_def)
  then show ?thesis using 2 t ls h by (auto simp: step_ok_def split: result.splits)
next
  case (3 late h' req qs c p ps ls' os')
  then show ?thesis using t ls probe_inside[OF sd h, of p]
    by (auto simp: step_ok_def split: option.splits)
next
  case (4 late' h' req qs b)
  then show ?thesis using task_act_confined[OF sd ls, of qs late req] t by simp
qed (use t ls in \<open>auto simp: step_ok_def\<close>)

definition pool_ok :: "key \<Rightarrow> host_pool \<Rightarrow> bool" where
  "pool_ok r p \<longleftrightarrow> shared_dir r (hp_os p) \<and> late_below r (hp_late p) \<and> list_all (conn_ok r) (hp_conns p)"

lemma conn_step_confined:
  assumes sd: "shared_dir r os" and ls: "late_below r ls" and c: "conn_ok r c"
    and st: "conn_step late c (ls, os) = (c', ls', os')"
  shows "conn_ok r c' \<and> host_steps (below r) os os' \<and> late_below r ls'"
proof (cases "hc_task c")
  case None
  then show ?thesis using st c ls by (auto simp: conn_step_def conn_ok_def split: list.splits)
next
  case (Some t)
  show ?thesis
  proof (cases "\<exists>resp. t = Answered resp")
    case True
    then show ?thesis using st c ls Some by (auto simp: conn_step_def conn_ok_def)
  next
    case False
    then obtain t' where t': "task_step late (hc_fs c) t (ls, os) = (t', ls', os')" "c' = c\<lparr>hc_task := Some t'\<rparr>"
      using st Some by (auto simp: conn_step_def split: hfs_task.splits prod.splits simp del: task_step.simps)
    have "step_ok r (ls, os) (t', ls', os')"
      using task_step_confined[OF sd ls, of "hc_fs c" t late] c Some t'(1) by (simp add: conn_ok_def)
    then show ?thesis using t'(2) c by (simp add: step_ok_def conn_ok_def)
  qed
qed

lemma pool_step_confined:
  assumes "pool_ok r p"
  shows "pool_ok r (pool_step late m p) \<and> host_steps (below r) (hp_os p) (hp_os (pool_step late m p))"
proof -
  have sd: "shared_dir r (hp_os p)" and ls: "late_below r (hp_late p)"
    and cs: "list_all (conn_ok r) (hp_conns p)"
    using assms by (simp_all add: pool_ok_def)
  show ?thesis
  proof (cases m)
    case (Serve i)
    show ?thesis
    proof (cases "i < length (hp_conns p)")
      case True
      obtain c ls' os' where st: "conn_step late (hp_conns p ! i) (hp_late p, hp_os p) = (c, ls', os')"
        by (metis prod.exhaust)
      have "conn_ok r (hp_conns p ! i)" using cs True by (simp add: list_all_length)
      from conn_step_confined[OF sd ls this st] show ?thesis
        using Serve True st cs shared_dir_steps[OF sd]
        by (auto simp: pool_ok_def list_all_length nth_list_update)
    qed (use Serve assms in simp)
  next
    case (Settle j)
    show ?thesis
    proof (cases "j < length (hp_late p)")
      case True
      obtain k pos bs where job: "hp_late p ! j = (k, pos, bs)" by (metis prod.exhaust)
      have k: "below r k" using ls True job by (auto simp: late_below_def list_all_length)
      have "late_below r (take j (hp_late p) @ drop (Suc j) (hp_late p))"
        using ls by (auto simp: late_below_def list_all_iff dest: in_set_takeD in_set_dropD)
      moreover have "host_steps (below r) (hp_os p) (snd (os_write_all (hp_os p) k pos bs))"
        using os_write_all_steps sd k by (simp add: shared_dir_def)
      ultimately show ?thesis using Settle True job cs shared_dir_steps[OF sd] by (simp add: pool_ok_def)
    qed (use Settle assms in simp)
  qed
qed

lemma pool_run_confined:
  assumes "pool_ok r p"
  shows "pool_ok r (pool_run late ms p) \<and> host_steps (below r) (hp_os p) (hp_os (pool_run late ms p))"
  using assms
proof (induction ms arbitrary: p)
  case (Cons m ms)
  from pool_step_confined[OF Cons.prems, of late m] Cons.IH[of "pool_step late m p"] show ?case
    using rtranclp_trans[of "host_step (below r)"] by (auto simp del: pool_step.simps)
qed simp

end
