(* ===== verification/Host_Conc_Props.thy ===== *)
theory Host_Conc_Props
  imports Host_Conc_Laws
begin

text \<open>
  The properties of connections that share a host directory: alone a connection gets what
  the methods give in one piece; together they stay below the root as long as no path has
  a \<^verbatim>\<open>..\<close> component; with one, the time between the check and its use lets a path out.
\<close>

section \<open>Stepping a pool\<close>

definition pool_of :: "(host_fs \<times> request list) list \<Rightarrow> host_os \<Rightarrow> host_pool" where
  "pool_of shares os =
     \<lparr>hp_conns = map (\<lambda>(h, rs). idle_conn h rs []) shares, hp_late = [], hp_os = os\<rparr>"

lemma pool_run_append: "pool_run late (ms @ ms') p = pool_run late ms' (pool_run late ms p)"
  by (induction ms arbitrary: p) auto

text \<open>A path of the share that cannot be canonicalized yet.\<close>

definition detour :: "name \<Rightarrow> name \<Rightarrow> path" where
  "detour n x = render [RootDir, Normal n, ParentDir, ParentDir, Normal x]"

lemma detour_components:
  "name_ok n \<Longrightarrow> name_ok x \<Longrightarrow> components (detour n x) = [RootDir, Normal n, ParentDir, ParentDir, Normal x]"
  unfolding detour_def by (rule components_render) simp

lemma detour_passes:
  assumes sd: "shared_dir r os" and h: "hf_root h = abs_path r"
    and n: "name_ok n" "node_at os (r @ [n]) = None" and x: "name_ok x"
  obtains q where "probe_path h os (abs_path r) (detour n x) = Some q"
    and "components q = RootDir # map Normal r @ [Normal n, ParentDir, ParentDir, Normal x]"
proof -
  note names = shared_dir_names[OF sd]
  have wf: "os_wf os" and dir: "is_dir_at os r" and cr: "canon_reliable os"
    using sd by (simp_all add: shared_dir_def)
  obtain rel where rel: "strip_prefix (detour n x) ''/'' = Some rel"
      "components (path_join (abs_path r) rel) = RootDir # map Normal r @ [Normal n, ParentDir, ParentDir, Normal x]"
    using joined_components[OF names detour_components[OF n(1) x]] by blast
  let ?q = "path_join (abs_path r) rel"
  have "components ?q = (RootDir # map Normal r @ [Normal n, ParentDir, ParentDir]) @ [Normal x]"
    using rel(2) by simp
  then obtain probe where probe: "path_parent ?q = Some probe"
      "components probe = RootDir # map Normal r @ [Normal n, ParentDir, ParentDir]"
    using path_parent_snoc[of ?q _ "Normal x"] by blast
  have "os_walk os f c (components probe) = Err enoent" for f c
    using probe(2) os_walk_dirs[OF wf, of "[]" r f "[Normal n, ParentDir, ParentDir]"] dir n(2) by simp
  then have "os_canonicalize os probe = Err enoent"
    by (simp add: os_canonicalize_def os_resolve_def)
  moreover have "path_starts_with probe (abs_path r)"
    using probe(2) names by (simp add: path_starts_with_def)
  ultimately have "probe_path h os (abs_path r) (detour n x) = Some ?q"
    using rel(1) probe(1) h by (simp add: probe_path_def Let_def)
  then show thesis using that rel(2) by blast
qed

lemma detour_reaches:
  assumes wf: "os_wf os" and r: "is_dir_at os (r @ [n])" and x: "name_ok x"
    and q: "components q = RootDir # map Normal r @ [Normal n, ParentDir, ParentDir, Normal x]"
  shows "os_locate os q = Ok (butlast r @ [x], True)"
proof -
  obtain m l where nd: "node_at os (r @ [n]) = Some (NDir m l)" using r by (auto simp: is_dir_at_node)
  have dir: "is_dir_at os r" using is_dir_prefix[OF wf r] .
  have up: "is_dir_at os (butlast r)" using settled_parent[OF wf dir] .
  have "rev (components q) = Normal x # rev (RootDir # map Normal r @ [Normal n, ParentDir, ParentDir])"
    using q by simp
  moreover have "os_walk os f c (RootDir # map Normal r @ [Normal n, ParentDir, ParentDir]) = Ok (butlast r)" for f c
    using os_walk_dirs[OF wf, of "[]" r f "[Normal n, ParentDir, ParentDir]"] dir nd r by simp
  ultimately show ?thesis using up
    by (auto simp: os_locate_def is_dir_at_node simp del: os_walk.simps)
qed


text \<open>The schedule: one connection checks its path, the other makes the directory, the first goes on.\<close>

definition race :: "pool_move list" where
  "race = replicate 4 (Serve 0) @ replicate 5 (Serve 1) @ [Serve 0]"

lemma race_removes:
  assumes sd: "shared_dir r os" and hl: "healthy os" and h: "hf_root h = abs_path r" "\<not> hf_read_only h"
    and n: "name_ok n" "node_at os (r @ [n]) = None"
    and x: "name_ok x" "node_at os (butlast r @ [x]) = Some (NFile m d)"
  shows "\<exists>os1. hp_os (pool_run late race
           (pool_of [(h, [ReqRemove (detour n x)]), (h, [ReqMkdir (abs_path [n]) mode])] os)) =
         drop_node os1 (butlast r @ [x])"
proof -
  have wf: "os_wf os" and dir: "is_dir_at os r" using sd by (simp_all add: shared_dir_def)
  note names = shared_dir_names[OF sd]
  obtain q where q: "probe_path h os (abs_path r) (detour n x) = Some q"
      "components q = RootDir # map Normal r @ [Normal n, ParentDir, ParentDir, Normal x]"
    using detour_passes[OF sd h(1) n x(1)] by blast
  have root: "os_canonicalize os (abs_path r) = Ok (abs_path r)"
    using canonicalize_dir[OF wf _ dir] sd names by (simp add: shared_dir_def)
  have "serves h r os [n]" using wf hl h(1) names n(1) dir by (simp add: serves_def)
  then obtain q1 where q1: "resolve h os (abs_path [n]) = Ok q1" "os_locate os q1 = Ok (r @ [n], True)"
    using serves_resolve by blast
  then have probe1: "probe_path h os (abs_path r) (abs_path [n]) = Some q1"
    using root h(1) by (auto simp: resolve_halves split: option.splits)
  let ?os1 = "put_node os (r @ [n]) (NDir (os_fresh os True) 4096)"
  have mk: "os_create_dir os q1 = (Ok (), ?os1)" using q1(2) n(2) hl by (simp add: os_create_dir_def)
  have wf1: "os_wf ?os1"
    using os_wf_put[OF wf, of "r @ [n]" "NDir (os_fresh os True) 4096"] names n(1) dir by simp
  have dir1: "is_dir_at ?os1 (r @ [n])" by (simp add: is_dir_at_node)
  have "butlast r @ [x] \<noteq> r @ [n]" using n(2) x(2) by auto
  then have keep: "node_at ?os1 (butlast r @ [x]) = Some (NFile m d)" using x(2) by simp
  have "os_locate ?os1 q = Ok (butlast r @ [x], True)" by (rule detour_reaches[OF wf1 dir1 x(1) q(2)])
  then have rm: "os_remove_file ?os1 q = (Ok (), drop_node ?os1 (butlast r @ [x]))"
    using keep hl by (simp add: os_remove_file_def del: node_at_put)
  let ?p0 = "pool_of [(h, [ReqRemove (detour n x)]), (h, [ReqMkdir (abs_path [n]) mode])] os"
  have p1: "pool_run late (replicate 4 (Serve 0)) ?p0 =
      \<lparr>hp_conns = [\<lparr>hc_fs = h, hc_todo = [], hc_task = Some (Rooting (ReqRemove (detour n x)) [q] []), hc_out = []\<rparr>,
         idle_conn h [ReqMkdir (abs_path [n]) mode] []], hp_late = [], hp_os = os\<rparr>"
    using h root q(1) by (simp add: eval_nat_numeral pool_of_def idle_conn_def conn_step_def)
  have p2: "pool_run late (replicate 5 (Serve 1)) (pool_run late (replicate 4 (Serve 0)) ?p0) =
      \<lparr>hp_conns = [\<lparr>hc_fs = h, hc_todo = [], hc_task = Some (Rooting (ReqRemove (detour n x)) [q] []), hc_out = []\<rparr>,
         \<lparr>hc_fs = h, hc_todo = [], hc_task = Some (Statting (ReqMkdir (abs_path [n]) mode) q1), hc_out = []\<rparr>],
       hp_late = [], hp_os = ?os1\<rparr>"
    unfolding p1 using h root probe1 mk by (simp add: eval_nat_numeral idle_conn_def conn_step_def)
  have "hp_os (pool_run late [Serve 0] (pool_run late (replicate 5 (Serve 1)) (pool_run late (replicate 4 (Serve 0)) ?p0)))
      = drop_node ?os1 (butlast r @ [x])"
    unfolding p2 using rm by (simp add: conn_step_def remove_at_def split: result.splits prod.splits)
  then show ?thesis unfolding race_def pool_run_append by blast
qed


text \<open>A resolved request up to its operation, on a pool of one connection.\<close>

lemma serve_resolved:
  assumes "resolve h os p = Ok q" and "req_paths req = [p]" and "\<not> hf_read_only h"
    and "task_act late req [q] (ls, os) = (Answered r, ls', os')"
  shows "pool_run late (replicate 6 (Serve 0))
           \<lparr>hp_conns = [idle_conn h (req # rs) out], hp_late = ls, hp_os = os\<rparr> =
         \<lparr>hp_conns = [idle_conn h rs (out @ [r])], hp_late = ls', hp_os = os'\<rparr>"
proof -
  obtain c where "os_canonicalize os (hf_root h) = Ok c" "probe_path h os c p = Some q"
    using assms(1) by (auto simp: resolve_halves split: result.splits option.splits)
  then show ?thesis using assms(2-4) by (simp add: eval_nat_numeral idle_conn_def conn_step_def)
qed

text \<open>The two models of the methods agree: a connection that is alone gets, in at most nine steps
  per request, the responses of the methods taken in one piece.\<close>

lemma lone_connection_is_sequential:
  assumes "os_wf os" and "os_fault os SysWrite = (\<lambda>_. None)" and "9 * length rs \<le> n"
  shows "(lone_step late ^^ n) (pool_of [(h, rs)] os) =
    \<lparr>hp_conns = [idle_conn h [] (fst (run_requests (host_fs_vfs h) rs os))], hp_late = [],
     hp_os = snd (run_requests (host_fs_vfs h) rs os)\<rparr>"
proof -
  have pool: "pool_of [(h, rs)] os = lone h rs None [] os" by (simp add: pool_of_def lone_def idle_conn_def)
  let ?final = "lone h [] None (fst (run_requests (host_fs_vfs h) rs os)) (snd (run_requests (host_fs_vfs h) rs os))"
  obtain m where m: "m \<le> 9 * length rs" "(lone_step late ^^ m) (lone h rs None [] os) = ?final"
    using leads_requests[OF assms(1,2), of late rs h "[]"] by (auto simp: leads_def)
  have "(lone_step late ^^ n) (lone h rs None [] os) = (lone_step late ^^ (n - m)) ?final"
    using m assms(3) by (metis funpow_add le_add_diff_inverse2 o_apply order_trans)
  then show ?thesis unfolding pool lone_done by (simp add: lone_def idle_conn_def)
qed


section \<open>Properties\<close>

text \<open>C5: Connections that share a canonical directory without symbolic links, and name no path
  with a \<^verbatim>\<open>..\<close> component, change nothing outside it, however their steps and the writes
  under way interleave.\<close>

theorem connections_confined:
  assumes "shared_dir r os"
    and "list_all (\<lambda>(h, rs). hf_root h = abs_path r \<and> list_all (\<lambda>req. list_all dotless (req_paths req)) rs) shares"
    and "\<not> below r k"
  shows "node_at (hp_os (pool_run late sched (pool_of shares os))) k = node_at os k \<and>
         shared_dir r (hp_os (pool_run late sched (pool_of shares os)))"
proof -
  have "pool_ok r (pool_of shares os)"
    using assms(1,2)
    by (auto simp: pool_ok_def pool_of_def late_below_def conn_ok_def idle_conn_def list_all_iff)
  from pool_run_confined[OF this, of late sched]
  have st: "host_steps (below r) os (hp_os (pool_run late sched (pool_of shares os)))"
    by (simp add: pool_of_def)
  have "os_wf os" using assms(1) by (simp add: shared_dir_def)
  from host_steps_outside[OF st this assms(3)] shared_dir_steps[OF assms(1) st] show ?thesis by blast
qed

definition two_writers :: "pool_move list" where
  "two_writers = [Serve 0, Serve 1, Serve 0, Serve 1, Serve 0, Serve 1, Serve 0, Serve 1, Settle 0, Serve 1]"

theorem connections_confined_witness:
  "node_at (hp_os (pool_run (\<lambda>n. n) two_writers (pool_of
      [(sample_fs, [ReqRemove ''/a'', ReqMkdir ''/a'' 0]),
       (sample_fs, [ReqWrite ''/b'' 0 [1], ReqRename ''/b'' ''/a/b''])] jail_os))) [''etc'', ''passwd''] =
     Some (NFile sample_meta [9, 9])"
proof -
  have sd: "shared_dir [''srv'', ''box''] jail_os" using sample_jail by (simp add: jail_shared)
  have dl: "dotless ''/a''" "dotless ''/b''" "dotless ''/a/b''" by code_simp+
  have "\<not> below [''srv'', ''box''] [''etc'', ''passwd'']" by simp
  moreover have "node_at jail_os [''etc'', ''passwd''] = Some (NFile sample_meta [9, 9])"
    by (simp add: jail_os_def sample_os_def node_at_def)
  ultimately show ?thesis
    using connections_confined[OF sd, of "[(sample_fs, [ReqRemove ''/a'', ReqMkdir ''/a'' 0]),
      (sample_fs, [ReqWrite ''/b'' 0 [1], ReqRename ''/b'' ''/a/b''])]" _ "\<lambda>n. n" two_writers]
    by (simp add: sample_root dl)
qed

text \<open>C30: With such a path they can: \<^verbatim>\<open>resolve\<close> falls back to the path as written when its parent
  does not exist, and checks only that it starts with the root. While the directory \<open>n\<close> does
  not exist the path \<^verbatim>\<open>/n/../../x\<close> passes; another connection makes \<open>n\<close>; and the removal
  that follows removes a file next to the root. Taken one after the other, in either order,
  the same two requests leave that file alone.\<close>

theorem race_escapes:
  assumes "shared_dir r os" and "healthy os" and "hf_root h = abs_path r" and "\<not> hf_read_only h"
    and "name_ok n" and "node_at os (r @ [n]) = None"
    and "name_ok x" and "node_at os (butlast r @ [x]) = Some (NFile m d)" and "r \<noteq> []"
  shows "node_at (hp_os (pool_run late race
            (pool_of [(h, [ReqRemove (detour n x)]), (h, [ReqMkdir (abs_path [n]) mode])] os)))
           (butlast r @ [x]) = None \<and>
         node_at (snd (run_requests (host_fs_vfs h) [ReqRemove (detour n x), ReqMkdir (abs_path [n]) mode] os))
           (butlast r @ [x]) = Some (NFile m d) \<and>
         node_at (snd (run_requests (host_fs_vfs h) [ReqMkdir (abs_path [n]) mode, ReqRemove (detour n x)] os))
           (butlast r @ [x]) = Some (NFile m d)"
proof -
  have out: "\<not> below r (butlast r @ [x])"
    using prefix_length_less[of r "butlast r @ [x]"] assms(9) by auto
  have "node_at (snd (run_requests (host_fs_vfs h) rs os)) (butlast r @ [x]) = Some (NFile m d)" for rs
    using host_steps_outside[OF run_requests_steps[of h r os rs] _ out] assms(1,3,8)
    by (simp add: jail_shared shared_dir_def)
  moreover obtain os1 where "hp_os (pool_run late race
      (pool_of [(h, [ReqRemove (detour n x)]), (h, [ReqMkdir (abs_path [n]) mode])] os)) = drop_node os1 (butlast r @ [x])"
    using race_removes[OF assms(1-8)] by blast
  ultimately show ?thesis by (simp del: run_requests.simps)
qed


text \<open>The sample host with a file next to the shared directory.\<close>

definition race_os :: host_os where
  "race_os = jail_os\<lparr>os_nodes := ([''srv'', ''key''], NFile sample_meta [5]) # os_nodes jail_os\<rparr>"

theorem race_escapes_witness:
  "node_at race_os [''srv'', ''key''] = Some (NFile sample_meta [5]) \<and>
   node_at (hp_os (pool_run (\<lambda>n. n) race (pool_of
      [(sample_fs, [ReqRemove (detour ''n'' ''key'')]), (sample_fs, [ReqMkdir (abs_path [''n'']) 0])] race_os)))
     [''srv'', ''key''] = None"
proof -
  have "os_wf race_os" "is_dir_at race_os [''srv'', ''box'']" "link_free race_os [''srv'', ''box'']"
    by code_simp+
  moreover have hl: "healthy race_os" by (simp add: healthy_def race_os_def jail_os_def sample_os_def)
  ultimately have sd: "shared_dir [''srv'', ''box''] race_os" by (simp add: shared_dir_def)
  have n: "name_ok ''n''" "node_at race_os ([''srv'', ''box''] @ [''n'']) = None"
    and x: "name_ok ''key''" "node_at race_os (butlast [''srv'', ''box''] @ [''key'']) = Some (NFile sample_meta [5])"
    by (simp_all add: race_os_def jail_os_def sample_os_def node_at_def name_ok_def)
  show ?thesis using race_escapes[OF sd hl sample_root sample_rw n x, of "\<lambda>n. n" 0] x(2) by simp
qed

text \<open>C31: A write is acknowledged before its bytes are in the file: the file is truncated and
  dropped without \<^verbatim>\<open>flush\<close>, so while the last write is under way the next request of the
  same connection still finds it empty; the bytes appear later.\<close>

theorem write_acknowledged_early:
  assumes s: "serves h r os ns" and rw: "\<not> hf_read_only h"
    and at: "node_at os (r @ ns) = Some (NFile m d)"
    and late: "length data \<le> late (length data)"
  shows "\<exists>p1 m1 m2. pool_run late (replicate 12 (Serve 0))
             (pool_of [(h, [ReqWrite (abs_path ns) 0 data, ReqRead (abs_path ns) 0 len])] os) = p1 \<and>
           hp_conns p1 = [idle_conn h [] [RespWrite (Ok (of_nat (length data))), RespRead (Ok [])]] \<and>
           node_at (hp_os p1) (r @ ns) = Some (NFile m1 []) \<and>
           node_at (hp_os (pool_run late [Settle 0] p1)) (r @ ns) = Some (NFile m2 data)"
proof -
  note sv = s[unfolded serves_def]
  have hl: "healthy os" and wf: "os_wf os" using sv by auto
  have ne: "r @ ns \<noteq> []" using sv by simp
  obtain q where q: "resolve h os (abs_path ns) = Ok q" "os_resolve os q = Ok (r @ ns)"
    using serves_resolve[OF s] at by auto
  let ?os1 = "put_data os (r @ ns) m []"
  let ?W = "ReqWrite (abs_path ns) 0 data" and ?R = "ReqRead (abs_path ns) 0 len"
  have "task_act late ?W [q] ([], os) =
      (Answered (RespWrite (Ok (of_nat (length data)))), [(r @ ns, 0, data)], ?os1)"
    using q(2) at hl late
    by (simp add: write_at_def os_open_write_def os_seek_def os_write_all_def Let_def)
  from serve_resolved[OF q(1) _ rw this, of "[?R]" "[]"]
  have w: "pool_run late (replicate 6 (Serve 0)) (pool_of [(h, [?W, ?R])] os) =
      \<lparr>hp_conns = [idle_conn h [?R] [RespWrite (Ok (of_nat (length data)))]],
       hp_late = [(r @ ns, 0, data)], hp_os = ?os1\<rparr>"
    by (simp add: pool_of_def)
  have at1: "node_at ?os1 (r @ ns) = Some (NFile (m\<lparr>om_modified := om_modified (os_fresh os False)\<rparr>) [])"
    using ne by simp
  have "is_dir_at ?os1 (r @ butlast ns)"
    using sv ne at by (cases ns rule: rev_cases) (auto simp: is_dir_at_def)
  then have s1: "serves h r ?os1 ns" using s os_wf_put_data[OF wf at] by (simp add: serves_def)
  obtain q1 where q1: "resolve h ?os1 (abs_path ns) = Ok q1"
    using serves_resolve[OF s1] by blast
  have "hfs_read h (abs_path ns) 0 len ?os1 = (Ok [], ?os1)"
    using hfs_read_plain[OF s1 at1, of 0 len] by simp
  then have "read_at q1 0 len ?os1 = Ok []"
    using q1 by (auto simp: hfs_read_def read_at_def split: result.splits)
  then have "task_act late ?R [q1] ([(r @ ns, 0, data)], ?os1) =
      (Answered (RespRead (Ok [])), [(r @ ns, 0, data)], ?os1)" by simp
  from serve_resolved[OF q1 _ rw this, of "[]" "[RespWrite (Ok (of_nat (length data)))]"]
  have run: "pool_run late (replicate 12 (Serve 0)) (pool_of [(h, [?W, ?R])] os) =
      \<lparr>hp_conns = [idle_conn h [] [RespWrite (Ok (of_nat (length data))), RespRead (Ok [])]],
       hp_late = [(r @ ns, 0, data)], hp_os = ?os1\<rparr>"
    using pool_run_append[of late "replicate 6 (Serve 0)" "replicate 6 (Serve 0)"] w
    by (simp add: replicate_add[symmetric])
  have "\<exists>m2. node_at (snd (os_write_all ?os1 (r @ ns) 0 data)) (r @ ns) = Some (NFile m2 data)"
    using at1 hl ne by (auto simp: os_write_all_def overwrite_def)
  then show ?thesis unfolding run using at1 by simp
qed

theorem write_acknowledged_early_witness:
  "hp_conns (pool_run (\<lambda>n. n) (replicate 12 (Serve 0))
      (pool_of [(sample_fs, [ReqWrite (abs_path [''a'']) 0 [7, 7], ReqRead (abs_path [''a'']) 0 9])] sample_os)) =
   [idle_conn sample_fs [] [RespWrite (Ok 2), RespRead (Ok [])]]"
  using write_acknowledged_early[OF sample_serves sample_rw sample_file, of "[7, 7]" "\<lambda>n. n" 9] by auto

end
