(* ===== verification/Duplex.thy ===== *)
theory Duplex
  imports Rpc_Laws
begin

text \<open>
  The RPC over streams that are polled. The WSL backend joins the standard output and input
  of a child into one stream (\<^verbatim>\<open>ChildDuplex\<close>), the agent its own input and output
  (\<^verbatim>\<open>StdioDuplex\<close>); a task on such a stream is polled, each poll may find a few bytes, take a
  few, or neither. Here \<^verbatim>\<open>read_frame\<close>, \<^verbatim>\<open>write_frame\<close>, \<^verbatim>\<open>serve_stream\<close> and \<^verbatim>\<open>Client::call\<close> are
  tasks suspended at their awaits, one poll a step.
\<close>

section \<open>Streams and duplexes\<close>

datatype 'a poll = Ready 'a | Not_yet

text \<open>\<^verbatim>\<open>AsyncRead\<close> (the bytes put into a buffer with room for so many) and \<^verbatim>\<open>AsyncWrite\<close>.\<close>

type_synonym ('d, 'a) polled = "'d \<Rightarrow> ('a, anyhow) result poll \<times> 'd"

record 'd reader =
  poll_read :: "nat \<Rightarrow> ('d, byte list) polled"

record 'd writer =
  poll_write :: "byte list \<Rightarrow> ('d, nat) polled"
  poll_flush :: "('d, unit) polled"
  poll_shutdown :: "('d, unit) polled"

text \<open>A call on a part of a stream.\<close>

definition on_part :: "('d \<Rightarrow> 'p) \<Rightarrow> ('p \<Rightarrow> 'd \<Rightarrow> 'd) \<Rightarrow> ('p, 'a) polled \<Rightarrow> ('d, 'a) polled" where
  "on_part get put f d = (case f (get d) of (x, p) \<Rightarrow> (x, put p d))"

record ('r, 'w) stdio_duplex =
  sd_r :: 'r
  sd_w :: 'w

definition stdio_reader :: "'r reader \<Rightarrow> ('r, 'w) stdio_duplex reader" where
  "stdio_reader R = \<lparr>poll_read = (\<lambda>n. on_part sd_r (\<lambda>p. sd_r_update (\<lambda>_. p)) (poll_read R n))\<rparr>"

definition stdio_writer :: "'w writer \<Rightarrow> ('r, 'w) stdio_duplex writer" where
  "stdio_writer W =
     \<lparr>poll_write = (\<lambda>bs. on_part sd_w (\<lambda>p. sd_w_update (\<lambda>_. p)) (poll_write W bs)),
      poll_flush = on_part sd_w (\<lambda>p. sd_w_update (\<lambda>_. p)) (poll_flush W),
      poll_shutdown = on_part sd_w (\<lambda>p. sd_w_update (\<lambda>_. p)) (poll_shutdown W)\<rparr>"

record ('r, 'w) child_duplex =
  cd_r :: 'r
  cd_w :: 'w

definition child_reader :: "'r reader \<Rightarrow> ('r, 'w) child_duplex reader" where
  "child_reader R = \<lparr>poll_read = (\<lambda>n. on_part cd_r (\<lambda>p. cd_r_update (\<lambda>_. p)) (poll_read R n))\<rparr>"

definition child_writer :: "'w writer \<Rightarrow> ('r, 'w) child_duplex writer" where
  "child_writer W =
     \<lparr>poll_write = (\<lambda>bs. on_part cd_w (\<lambda>p. cd_w_update (\<lambda>_. p)) (poll_write W bs)),
      poll_flush = on_part cd_w (\<lambda>p. cd_w_update (\<lambda>_. p)) (poll_flush W),
      poll_shutdown = on_part cd_w (\<lambda>p. cd_w_update (\<lambda>_. p)) (poll_shutdown W)\<rparr>"


section \<open>Frames, poll by poll\<close>

text \<open>\<^verbatim>\<open>read_exact\<close> with \<open>got\<close> of \<open>want\<close> bytes.\<close>

datatype fill = Filling "byte list" | Full "byte list" | Broken anyhow

definition fill_step :: "'d reader \<Rightarrow> nat \<Rightarrow> byte list \<Rightarrow> 'd \<Rightarrow> fill \<times> 'd" where
  "fill_step R want got d =
     (case poll_read R (want - length got) d of
        (Not_yet, d1) \<Rightarrow> (Filling got, d1)
      | (Ready (Err e), d1) \<Rightarrow> (Broken e, d1)
      | (Ready (Ok bs), d1) \<Rightarrow>
          (if bs = [] then Broken ''early eof''
           else if length (got @ bs) < want then Filling (got @ bs) else Full (got @ bs), d1))"

datatype 'm rd_task =
    Rd_len "byte list"
  | Rd_body nat "byte list"
  | Rd_done "('m, anyhow) result"

definition rd_sized :: "'m decoder \<Rightarrow> byte list \<Rightarrow> 'm rd_task" where
  "rd_sized dec header =
     (let len = unat (from_be_bytes header)
      in if max_frame < len then Rd_done (Err (''frame too large: '' @ show_nat len))
         else if len = 0 then Rd_done (dec []) else Rd_body len [])"

fun rd_step :: "'m decoder \<Rightarrow> 'd reader \<Rightarrow> 'm rd_task \<times> 'd \<Rightarrow> 'm rd_task \<times> 'd" where
  "rd_step dec R (Rd_len got, d) =
     (case fill_step R 4 got d of
        (Filling g, d1) \<Rightarrow> (Rd_len g, d1)
      | (Full bs, d1) \<Rightarrow> (rd_sized dec bs, d1)
      | (Broken e, d1) \<Rightarrow> (Rd_done (Err e), d1))"
| "rd_step dec R (Rd_body len got, d) =
     (case fill_step R len got d of
        (Filling g, d1) \<Rightarrow> (Rd_body len g, d1)
      | (Full bs, d1) \<Rightarrow> (Rd_done (dec bs), d1)
      | (Broken e, d1) \<Rightarrow> (Rd_done (Err e), d1))"
| "rd_step dec R (Rd_done r, d) = (Rd_done r, d)"

text \<open>\<^verbatim>\<open>write_frame\<close>: the two \<^verbatim>\<open>write_all\<close>, the bytes left, then \<^verbatim>\<open>flush\<close>.\<close>

datatype wr_task =
    Wr_len "byte list" "byte list"
  | Wr_body "byte list"
  | Wr_flush
  | Wr_done "(unit, anyhow) result"

definition wr_then :: "byte list \<Rightarrow> wr_task" where
  "wr_then body = (if body = [] then Wr_flush else Wr_body body)"

definition wr_start :: "'m encoder \<Rightarrow> 'm \<Rightarrow> wr_task" where
  "wr_start enc msg =
     (case enc msg of
        Err e \<Rightarrow> Wr_done (Err e)
      | Ok bytes \<Rightarrow>
          if 2 ^ 32 \<le> length bytes then Wr_done (Err ''frame too large'')
          else Wr_len (to_be_bytes (of_nat (length bytes))) bytes)"

text \<open>One poll of \<^verbatim>\<open>write_all\<close>: what is left, or the error.\<close>

definition drain_step :: "'d writer \<Rightarrow> byte list \<Rightarrow> 'd \<Rightarrow> (byte list, anyhow) result \<times> 'd" where
  "drain_step W bs d =
     (case poll_write W bs d of
        (Not_yet, d1) \<Rightarrow> (Ok bs, d1)
      | (Ready (Err e), d1) \<Rightarrow> (Err e, d1)
      | (Ready (Ok n), d1) \<Rightarrow> (if n = 0 then Err ''write zero'' else Ok (drop n bs), d1))"

fun wr_step :: "'d writer \<Rightarrow> wr_task \<times> 'd \<Rightarrow> wr_task \<times> 'd" where
  "wr_step W (Wr_len bs body, d) =
     (case drain_step W bs d of
        (Err e, d1) \<Rightarrow> (Wr_done (Err e), d1)
      | (Ok left, d1) \<Rightarrow> (if left = [] then wr_then body else Wr_len left body, d1))"
| "wr_step W (Wr_body bs, d) =
     (case drain_step W bs d of
        (Err e, d1) \<Rightarrow> (Wr_done (Err e), d1)
      | (Ok left, d1) \<Rightarrow> (wr_then left, d1))"
| "wr_step W (Wr_flush, d) =
     (case poll_flush W d of
        (Not_yet, d1) \<Rightarrow> (Wr_flush, d1)
      | (Ready r, d1) \<Rightarrow> (Wr_done r, d1))"
| "wr_step W (Wr_done r, d) = (Wr_done r, d)"


section \<open>The two ends, poll by poll\<close>

datatype serve_task = Sv_read "request rd_task" | Sv_write wr_task | Sv_end

fun serve_step ::
    "codec \<Rightarrow> 's tokimo_vfs \<Rightarrow> 'd reader \<Rightarrow> 'd writer \<Rightarrow> serve_task \<times> 'd \<times> 's \<Rightarrow> serve_task \<times> 'd \<times> 's" where
  "serve_step c V R W (Sv_read (Rd_done (Err e)), d, s) = (Sv_end, d, s)"
| "serve_step c V R W (Sv_read (Rd_done (Ok req)), d, s) =
     (case handle V req s of (resp, s1) \<Rightarrow> (Sv_write (wr_start (enc_resp c) resp), d, s1))"
| "serve_step c V R W (Sv_read t, d, s) =
     (case rd_step (dec_req c) R (t, d) of (t1, d1) \<Rightarrow> (Sv_read t1, d1, s))"
| "serve_step c V R W (Sv_write (Wr_done (Err e)), d, s) = (Sv_end, d, s)"
| "serve_step c V R W (Sv_write (Wr_done (Ok _)), d, s) = (Sv_read (Rd_len []), d, s)"
| "serve_step c V R W (Sv_write t, d, s) = (case wr_step W (t, d) of (t1, d1) \<Rightarrow> (Sv_write t1, d1, s))"
| "serve_step c V R W (Sv_end, d, s) = (Sv_end, d, s)"

datatype call_task = Cl_write wr_task | Cl_read "response rd_task" | Cl_done "(response, anyhow) result"

fun call_step :: "codec \<Rightarrow> 'd reader \<Rightarrow> 'd writer \<Rightarrow> call_task \<times> 'd \<Rightarrow> call_task \<times> 'd" where
  "call_step c R W (Cl_write (Wr_done (Err e)), d) = (Cl_done (Err e), d)"
| "call_step c R W (Cl_write (Wr_done (Ok _)), d) = (Cl_read (Rd_len []), d)"
| "call_step c R W (Cl_write t, d) = (case wr_step W (t, d) of (t1, d1) \<Rightarrow> (Cl_write t1, d1))"
| "call_step c R W (Cl_read (Rd_done r), d) = (Cl_done r, d)"
| "call_step c R W (Cl_read t, d) = (case rd_step (dec_resp c) R (t, d) of (t1, d1) \<Rightarrow> (Cl_read t1, d1))"
| "call_step c R W (Cl_done r, d) = (Cl_done r, d)"


section \<open>Pipes\<close>

text \<open>
  A pipe to read from: what each poll finds, nothing (\<open>None\<close>) or some bytes, and whether it
  ends after that. A pipe to write to: what each poll takes, nothing or up to so many more
  than one, everything from some time on; and the bytes it takes before it breaks.
\<close>

record in_pipe =
  ip_script :: "byte list option list"
  ip_closed :: bool

record out_pipe =
  op_plan :: "nat option list"
  op_out :: "byte list"
  op_room :: "nat option"

fun script_poll :: "nat \<Rightarrow> bool \<Rightarrow> byte list option list \<Rightarrow> (byte list, anyhow) result poll \<times> byte list option list" where
  "script_poll n closed [] = (if closed then Ready (Ok []) else Not_yet, [])"
| "script_poll n closed (None # cs) = (Not_yet, cs)"
| "script_poll n closed (Some bs # cs) =
     (if bs = [] then script_poll n closed cs
      else (Ready (Ok (take n bs)), if drop n bs = [] then cs else Some (drop n bs) # cs))"

definition pipe_reader :: "in_pipe reader" where
  "pipe_reader = \<lparr>poll_read = (\<lambda>n p. case script_poll n (ip_closed p) (ip_script p) of
     (x, cs) \<Rightarrow> (x, p\<lparr>ip_script := cs\<rparr>))\<rparr>"

definition pipe_write :: "byte list \<Rightarrow> (out_pipe, nat) polled" where
  "pipe_write bs p =
     (case op_plan p of
        None # ps \<Rightarrow> (Not_yet, p\<lparr>op_plan := ps\<rparr>)
      | ps \<Rightarrow>
          let lim = (case ps of Some k # _ \<Rightarrow> Suc k | _ \<Rightarrow> length bs);
              n = (case op_room p of None \<Rightarrow> min lim (length bs) | Some r \<Rightarrow> min r (min lim (length bs)))
          in if op_room p = Some 0 then (Ready (Err ''broken pipe''), p)
             else (Ready (Ok n), \<lparr>op_plan = tl ps, op_out = op_out p @ take n bs, op_room = map_option (\<lambda>r. r - n) (op_room p)\<rparr>))"

definition pipe_flush :: "(out_pipe, unit) polled" where
  "pipe_flush p =
     (case op_plan p of None # ps \<Rightarrow> (Not_yet, p\<lparr>op_plan := ps\<rparr>) | _ \<Rightarrow> (Ready (Ok ()), p))"

definition pipe_writer :: "out_pipe writer" where
  "pipe_writer = \<lparr>poll_write = pipe_write, poll_flush = pipe_flush, poll_shutdown = (\<lambda>p. (Ready (Ok ()), p))\<rparr>"

end
