(* ===== verification/Duplex_Laws.thy ===== *)
theory Duplex_Laws
  imports Duplex
begin

text \<open>
  Polled tasks come to what the whole bytes come to: the meaning of a task (what it makes of
  the bytes still to come, or of the writer it has) is kept by every poll, and every task
  ends or waits.
\<close>

section \<open>Running a step\<close>

definition gets :: "('a \<Rightarrow> 'a) \<Rightarrow> 'a \<Rightarrow> 'a \<Rightarrow> bool" where
  "gets f x y \<longleftrightarrow> (\<exists>n. (f ^^ n) x = y)"

lemma gets_refl [simp, intro]: "gets f x x"
  unfolding gets_def by (intro exI[of _ 0]) simp

lemma gets_step: "gets f (f x) y \<Longrightarrow> gets f x y"
  unfolding gets_def by (metis funpow_swap1 funpow.simps(2) comp_apply)

lemma gets_refl_eq: "x = y \<Longrightarrow> gets f x y"
  by simp

lemma gets_trans: "gets f x y \<Longrightarrow> gets f y z \<Longrightarrow> gets f x z"
  unfolding gets_def by (metis funpow_add comp_apply)

lemma gets_fixed: "gets f x y \<Longrightarrow> f y = y \<Longrightarrow> \<exists>n0. \<forall>n \<ge> n0. (f ^^ n) x = y"
proof -
  assume "gets f x y" and fixed: "f y = y"
  then obtain n0 where n0: "(f ^^ n0) x = y" by (auto simp: gets_def)
  have "(f ^^ (m + n0)) x = y" for m
    by (induction m) (simp_all add: n0 fixed)
  then have "(f ^^ n) x = y" if "n0 \<le> n" for n using that by (metis le_add_diff_inverse2)
  then show ?thesis by blast
qed


section \<open>Pipes\<close>

text \<open>The bytes to come, and the polls they can take.\<close>

fun script_bytes :: "byte list option list \<Rightarrow> byte list" where
  "script_bytes [] = []"
| "script_bytes (None # cs) = script_bytes cs"
| "script_bytes (Some bs # cs) = bs @ script_bytes cs"

definition coming :: "in_pipe \<Rightarrow> byte list" where
  "coming p = script_bytes (ip_script p)"

fun script_weight :: "byte list option list \<Rightarrow> nat" where
  "script_weight [] = 0"
| "script_weight (None # cs) = Suc (script_weight cs)"
| "script_weight (Some bs # cs) = Suc (length bs + script_weight cs)"

definition quiet :: "in_pipe \<Rightarrow> bool" where
  "quiet p \<longleftrightarrow> ip_script p = [] \<and> \<not> ip_closed p"

definition poll_result :: "nat \<Rightarrow> bool \<Rightarrow> byte list option list \<Rightarrow> (byte list, anyhow) result poll \<times> byte list option list \<Rightarrow> bool" where
  "poll_result n closed cs = (\<lambda>(x, cs').
     script_bytes cs = [] \<and> cs' = [] \<and> x = (if closed then Ready (Ok []) else Not_yet) \<or>
     x = Not_yet \<and> script_bytes cs' = script_bytes cs \<and> script_weight cs' < script_weight cs \<or>
     (\<exists>bs. x = Ready (Ok bs) \<and> bs \<noteq> [] \<and> length bs \<le> n \<and> script_bytes cs = bs @ script_bytes cs' \<and>
        script_weight cs' < script_weight cs))"

lemma script_poll_result: "0 < n \<Longrightarrow> poll_result n closed cs (script_poll n closed cs)"
proof (induction n closed cs rule: script_poll.induct)
  case (3 n closed bs cs)
  show ?case
  proof (cases "bs = []")
    case True
    obtain x cs' where sp: "script_poll n closed cs = (x, cs')" by fastforce
    have "poll_result n closed cs (x, cs')" using "3.IH"[OF True "3.prems"] sp by simp
    then have "poll_result n closed (Some [] # cs) (x, cs')"
      unfolding poll_result_def prod.case script_bytes.simps script_weight.simps append_Nil list.size(3)
      by (elim disjE) (auto intro: less_SucI)
    then show ?thesis using True sp by simp
  next
    case False
    have "bs @ script_bytes cs = take n bs @ script_bytes (if drop n bs = [] then cs else Some (drop n bs) # cs)"
      by (simp add: append.assoc[symmetric])
    moreover have "script_weight (if drop n bs = [] then cs else Some (drop n bs) # cs) < script_weight (Some bs # cs)"
      using False "3.prems" by (cases bs) auto
    moreover have "take n bs \<noteq> []" using False "3.prems" by simp
    ultimately show ?thesis using False
      unfolding poll_result_def by (simp only: script_poll.simps script_bytes.simps if_False prod.case) auto
  qed
qed (simp_all add: poll_result_def)

lemma script_poll_cases:
  assumes "0 < n"
  obtains (exhausted) "script_bytes cs = []" "script_poll n closed cs = (if closed then Ready (Ok []) else Not_yet, [])"
  | (later) cs' where "script_poll n closed cs = (Not_yet, cs')" "script_bytes cs' = script_bytes cs"
      "script_weight cs' < script_weight cs"
  | (some) bs cs' where "script_poll n closed cs = (Ready (Ok bs), cs')" "bs \<noteq> []" "length bs \<le> n"
      "script_bytes cs = bs @ script_bytes cs'" "script_weight cs' < script_weight cs"
  using script_poll_result[OF assms, of closed cs]
  by (cases "script_poll n closed cs") (auto simp: poll_result_def)


definition weight :: "in_pipe \<Rightarrow> nat" where
  "weight p = script_weight (ip_script p)"

text \<open>One poll of \<^verbatim>\<open>read_exact\<close> on a pipe.\<close>

definition fill_result :: "nat \<Rightarrow> byte list \<Rightarrow> in_pipe \<Rightarrow> fill \<times> in_pipe \<Rightarrow> bool" where
  "fill_result want got p = (\<lambda>(x, p').
     ip_closed p' = ip_closed p \<and>
     (coming p = [] \<and> ip_script p' = [] \<and> x = (if ip_closed p then Broken ''early eof'' else Filling got) \<or>
      weight p' < weight p \<and>
        (case x of
           Filling g \<Rightarrow> length g < want \<and> g @ coming p' = got @ coming p
         | Full g \<Rightarrow> length g = want \<and> g @ coming p' = got @ coming p
         | Broken _ \<Rightarrow> False)))"

lemma fill_step_result:
  assumes "length got < want"
  shows "fill_result want got p (fill_step pipe_reader want got p)"
proof -
  have n: "0 < want - length got" using assms by simp
  show ?thesis
  proof (rule script_poll_cases[OF n, of "ip_script p" "ip_closed p"], goal_cases exhausted later some)
    case exhausted
    then show ?thesis by (simp add: fill_result_def fill_step_def pipe_reader_def coming_def)
  next
    case (later cs')
    then show ?thesis using assms by (simp add: fill_result_def fill_step_def pipe_reader_def coming_def weight_def)
  next
    case (some bs cs')
    then show ?thesis using assms by (auto simp: fill_result_def fill_step_def pipe_reader_def coming_def weight_def)
  qed
qed


section \<open>Reading a frame\<close>

text \<open>What a task makes of the bytes to come.\<close>

definition body_outcome :: "'m decoder \<Rightarrow> bool \<Rightarrow> nat \<Rightarrow> byte list \<Rightarrow> 'm read_outcome" where
  "body_outcome dec closed len bs =
     (if length bs < len then (if closed then Failed ''early eof'' [] else Waiting)
      else (case dec (take len bs) of Ok m \<Rightarrow> Got m (drop len bs) | Err e \<Rightarrow> Failed e (drop len bs)))"

fun rd_outcome :: "'m decoder \<Rightarrow> bool \<Rightarrow> 'm rd_task \<Rightarrow> byte list \<Rightarrow> 'm read_outcome" where
  "rd_outcome dec closed (Rd_len got) bs = read_frame dec closed (got @ bs)"
| "rd_outcome dec closed (Rd_body len got) bs = body_outcome dec closed len (got @ bs)"
| "rd_outcome dec closed (Rd_done (Ok m)) bs = Got m bs"
| "rd_outcome dec closed (Rd_done (Err e)) bs = Failed e bs"

fun rd_wf :: "'m rd_task \<Rightarrow> bool" where
  "rd_wf (Rd_len got) = (length got < 4)"
| "rd_wf (Rd_body len got) = (length got < len)"
| "rd_wf (Rd_done _) = True"

fun rd_over :: "'m rd_task \<Rightarrow> bool" where
  "rd_over (Rd_done _) = True"
| "rd_over _ = False"

lemma read_frame_sized:
  "length header = 4 \<Longrightarrow> rd_outcome dec closed (rd_sized dec header) bs = read_frame dec closed (header @ bs)"
  by (auto simp: read_frame_def rd_sized_def Let_def body_outcome_def split: result.splits)

lemma rd_sized_wf: "rd_wf (rd_sized dec header)"
  by (simp add: rd_sized_def Let_def)

definition rd_result :: "'m decoder \<Rightarrow> 'm rd_task \<Rightarrow> in_pipe \<Rightarrow> 'm rd_task \<times> in_pipe \<Rightarrow> bool" where
  "rd_result dec t p = (\<lambda>(t', p').
     ip_closed p' = ip_closed p \<and> rd_wf t' \<and>
     rd_outcome dec (ip_closed p) t' (coming p') = rd_outcome dec (ip_closed p) t (coming p) \<and>
     (weight p' < weight p \<or> rd_over t' \<or> ip_script p' = [] \<and> \<not> ip_closed p'))"

lemma rd_step_result:
  assumes "rd_wf t" and "\<not> rd_over t"
  shows "rd_result dec t p (rd_step dec pipe_reader (t, p))"
proof (cases t)
  case (Rd_len got)
  obtain x p' where f: "fill_step pipe_reader 4 got p = (x, p')" by fastforce
  have "length got < 4" using assms(1) Rd_len by simp
  from fill_step_result[OF this, of p] have r: "fill_result 4 got p (x, p')" by (simp only: f)
  show ?thesis
  proof (cases x)
    case (Filling g)
    then show ?thesis using Rd_len f r assms(1)
      by (auto simp: fill_result_def rd_result_def coming_def split: if_splits)
  next
    case (Full g)
    then have g: "length g = 4" "g @ coming p' = got @ coming p" "ip_closed p' = ip_closed p" "weight p' < weight p"
      using r by (auto simp: fill_result_def split: if_splits)
    then show ?thesis using Rd_len f Full read_frame_sized[OF g(1), of dec _ "coming p'"]
      by (simp add: rd_result_def rd_sized_wf)
  next
    case (Broken e)
    then have "coming p = []" "ip_script p' = []" "ip_closed p" "e = ''early eof''" "ip_closed p' = ip_closed p"
      using r by (auto simp: fill_result_def split: if_splits)
    then show ?thesis using Rd_len f Broken assms(1)
      by (simp add: rd_result_def coming_def read_frame_def)
  qed
next
  case (Rd_body len got)
  obtain x p' where f: "fill_step pipe_reader len got p = (x, p')" by fastforce
  have "length got < len" using assms(1) Rd_body by simp
  from fill_step_result[OF this, of p] have r: "fill_result len got p (x, p')" by (simp only: f)
  show ?thesis
  proof (cases x)
    case (Filling g)
    then show ?thesis using Rd_body f r assms(1)
      by (auto simp: fill_result_def rd_result_def coming_def split: if_splits)
  next
    case (Full g)
    then have g: "length g = len" "g @ coming p' = got @ coming p" "ip_closed p' = ip_closed p" "weight p' < weight p"
      using r by (auto simp: fill_result_def split: if_splits)
    then have "body_outcome dec (ip_closed p) len (got @ coming p) = (case dec g of Ok m \<Rightarrow> Got m (coming p') | Err e \<Rightarrow> Failed e (coming p'))"
      unfolding g(2)[symmetric] g(1)[symmetric] by (simp add: body_outcome_def cong: result.case_cong)
    then show ?thesis using Rd_body f Full g
      by (cases "dec g") (simp_all add: rd_result_def)
  next
    case (Broken e)
    then have "coming p = []" "ip_script p' = []" "ip_closed p" "e = ''early eof''" "ip_closed p' = ip_closed p"
      using r by (auto simp: fill_result_def split: if_splits)
    then show ?thesis using Rd_body f Broken assms(1)
      by (simp add: rd_result_def coming_def body_outcome_def)
  qed
next
  case (Rd_done r)
  then show ?thesis using assms(2) by simp
qed

text \<open>A machine \<open>F\<close> that runs the task inside its state comes to the end of the task, or to a wait.\<close>

lemma rd_runs:
  assumes F: "\<And>t p. \<not> rd_over t \<Longrightarrow> F (E t p) = (case rd_step dec pipe_reader (t, p) of (t', p') \<Rightarrow> E t' p')"
    and "rd_wf t"
  shows "\<exists>t' p'. gets F (E t p) (E t' p') \<and> ip_closed p' = ip_closed p \<and> rd_wf t' \<and>
    rd_outcome dec (ip_closed p) t' (coming p') = rd_outcome dec (ip_closed p) t (coming p) \<and> (rd_over t' \<or> quiet p')"
  using assms(2)
proof (induction "weight p" arbitrary: t p rule: less_induct)
  case less
  show ?case
  proof (cases "rd_over t")
    case True
    then show ?thesis using less.prems by blast
  next
    case False
    obtain t1 p1 where s: "rd_step dec pipe_reader (t, p) = (t1, p1)" by fastforce
    have r: "rd_result dec t p (t1, p1)" using rd_step_result[OF less.prems False, of dec p] by (simp only: s)
    have g: "gets F (E t p) x" if "gets F (E t1 p1) x" for x
      using gets_step[of F "E t p"] F[OF False, of p] s that by simp
    show ?thesis
    proof (cases "weight p1 < weight p")
      case True
      then obtain t' p' where "gets F (E t1 p1) (E t' p')" "ip_closed p' = ip_closed p1" "rd_wf t'"
        "rd_outcome dec (ip_closed p1) t' (coming p') = rd_outcome dec (ip_closed p1) t1 (coming p1)" "rd_over t' \<or> quiet p'"
        using less.hyps[OF True, of t1] r unfolding rd_result_def prod.case by blast
      then show ?thesis using r g by (intro exI[of _ t'] exI[of _ p']) (simp add: rd_result_def)
    next
      case False
      then show ?thesis using r g[OF gets_refl]
        by (intro exI[of _ t1] exI[of _ p1]) (auto simp: rd_result_def quiet_def)
    qed
  qed
qed

lemma rd_waits:
  "rd_wf t \<Longrightarrow> \<not> rd_over t \<Longrightarrow> quiet p \<Longrightarrow> rd_step dec pipe_reader (t, p) = (t, p) \<and> rd_outcome dec False t (coming p) = Waiting"
  by (cases t) (auto simp: quiet_def coming_def fill_step_def pipe_reader_def read_frame_def body_outcome_def)



section \<open>Writing a frame\<close>

definition chan :: "out_pipe \<Rightarrow> wchan" where
  "chan p = \<lparr>wc_pending = op_out p, wc_room = op_room p\<rparr>"

lemma write_all_Nil [simp]: "write_all [] w = (Ok (), w)"
  by (simp add: write_all_def split: option.splits)

lemma write_all_part:
  assumes "n \<le> length bs" and "\<forall>r. room = Some r \<longrightarrow> n \<le> r"
  shows "write_all bs \<lparr>wc_pending = x, wc_room = room\<rparr> =
    write_all (drop n bs) \<lparr>wc_pending = x @ take n bs, wc_room = map_option (\<lambda>r. r - n) room\<rparr>"
proof (cases room)
  case (Some r)
  have "take r bs = take n bs @ take (r - n) (drop n bs)"
    using assms Some by (metis le_add_diff_inverse take_add)
  then show ?thesis using assms Some by (auto simp: write_all_def)
qed (simp add: write_all_def)

text \<open>What a task makes of the pipe it writes to.\<close>

fun wr_outcome :: "wr_task \<Rightarrow> wchan \<Rightarrow> (unit, anyhow) result \<times> wchan" where
  "wr_outcome (Wr_len bs body) w =
     (case write_all bs w of (Err e, w1) \<Rightarrow> (Err e, w1) | (Ok _, w1) \<Rightarrow> write_all body w1)"
| "wr_outcome (Wr_body bs) w = write_all bs w"
| "wr_outcome Wr_flush w = (Ok (), w)"
| "wr_outcome (Wr_done r) w = (r, w)"

fun wr_wf :: "wr_task \<Rightarrow> bool" where
  "wr_wf (Wr_len bs body) = (bs \<noteq> [])"
| "wr_wf (Wr_body bs) = (bs \<noteq> [])"
| "wr_wf _ = True"

fun wr_over :: "wr_task \<Rightarrow> bool" where
  "wr_over (Wr_done _) = True"
| "wr_over _ = False"

fun wr_left :: "wr_task \<Rightarrow> nat" where
  "wr_left (Wr_len bs body) = length bs + length body + 2"
| "wr_left (Wr_body bs) = length bs + 1"
| "wr_left _ = 1"

lemma wr_start_outcome:
  "wr_outcome (wr_start enc msg) w = write_frame enc msg w" "wr_wf (wr_start enc msg)"
  by (auto simp: wr_start_def write_frame_def to_be_bytes_def split: result.splits)

lemma wr_then_outcome [simp]: "wr_outcome (wr_then body) w = write_all body w" "wr_wf (wr_then body)"
  "wr_left (wr_then body) \<le> length body + 1"
  by (simp_all add: wr_then_def)

definition drain_result :: "byte list \<Rightarrow> out_pipe \<Rightarrow> (byte list, anyhow) result \<times> out_pipe \<Rightarrow> bool" where
  "drain_result bs p = (\<lambda>(x, p').
     case x of
       Err e \<Rightarrow> write_all bs (chan p) = (Err e, chan p')
     | Ok left \<Rightarrow> write_all bs (chan p) = write_all left (chan p') \<and>
         length left \<le> length bs \<and> length (op_plan p') \<le> length (op_plan p) \<and>
         (length left < length bs \<or> left = bs \<and> length (op_plan p') < length (op_plan p)))"

lemma drain_step_result:
  assumes "bs \<noteq> []"
  shows "drain_result bs p (drain_step pipe_writer bs p)"
proof (cases "\<exists>ps. op_plan p = None # ps")
  case True
  then show ?thesis using assms
    by (auto simp: drain_result_def drain_step_def pipe_writer_def pipe_write_def chan_def)
next
  case False
  let ?lim = "case op_plan p of Some k # _ \<Rightarrow> Suc k | _ \<Rightarrow> length bs"
  let ?n = "case op_room p of None \<Rightarrow> min ?lim (length bs) | Some r \<Rightarrow> min r (min ?lim (length bs))"
  have w: "pipe_write bs p = (if op_room p = Some 0 then (Ready (Err ''broken pipe''), p)
     else (Ready (Ok ?n), \<lparr>op_plan = tl (op_plan p), op_out = op_out p @ take ?n bs, op_room = map_option (\<lambda>r. r - ?n) (op_room p)\<rparr>))"
    using False by (auto simp: pipe_write_def Let_def split: list.splits option.splits)
  show ?thesis
  proof (cases "op_room p = Some 0")
    case True
    then show ?thesis using w assms
      by (simp add: drain_result_def drain_step_def pipe_writer_def chan_def write_all_def)
  next
    case open': False
    have "0 < ?lim" using assms by (auto split: list.splits option.splits)
    then have n: "0 < ?n" "?n \<le> length bs" "\<forall>r. op_room p = Some r \<longrightarrow> ?n \<le> r"
      using open' assms by (auto split: option.splits)
    then show ?thesis using w open' write_all_part[OF n(2,3), of "op_out p"] assms
      by (simp add: drain_result_def drain_step_def pipe_writer_def chan_def)
  qed
qed

definition wr_result :: "wr_task \<Rightarrow> out_pipe \<Rightarrow> wr_task \<times> out_pipe \<Rightarrow> bool" where
  "wr_result t p = (\<lambda>(t', p').
     wr_wf t' \<and> wr_outcome t' (chan p') = wr_outcome t (chan p) \<and>
     (wr_over t' \<or> wr_left t' + length (op_plan p') < wr_left t + length (op_plan p)))"

lemma wr_step_result:
  assumes "wr_wf t" and "\<not> wr_over t"
  shows "wr_result t p (wr_step pipe_writer (t, p))"
proof (cases t)
  case (Wr_len bs body)
  obtain x p' where d: "drain_step pipe_writer bs p = (x, p')" by fastforce
  have "bs \<noteq> []" using assms(1) Wr_len by simp
  from drain_step_result[OF this, of p] have r: "drain_result bs p (x, p')" by (simp only: d)
  have "wr_left (wr_then body) + length (op_plan p') < length bs + length body + 2 + length (op_plan p)"
    if "length (op_plan p') \<le> length (op_plan p)"
    using wr_then_outcome(3)[of body] that by linarith
  then show ?thesis using Wr_len d r
    by (cases x) (auto simp: drain_result_def wr_result_def)
next
  case (Wr_body bs)
  obtain x p' where d: "drain_step pipe_writer bs p = (x, p')" by fastforce
  have "bs \<noteq> []" using assms(1) Wr_body by simp
  from drain_step_result[OF this, of p] have r: "drain_result bs p (x, p')" by (simp only: d)
  have "wr_left (wr_then left) + length (op_plan p') < length bs + 1 + length (op_plan p)"
    if "length left \<le> length bs" "length (op_plan p') \<le> length (op_plan p)"
      "length left < length bs \<or> length (op_plan p') < length (op_plan p)" for left
    using wr_then_outcome(3)[of left] that by linarith
  then show ?thesis using Wr_body d r
    by (cases x) (auto simp: drain_result_def wr_result_def)
next
  case Wr_flush
  then show ?thesis
    by (auto simp: wr_result_def pipe_writer_def pipe_flush_def chan_def split: list.splits option.splits)
next
  case (Wr_done r)
  then show ?thesis using assms(2) by simp
qed

lemma wr_runs:
  assumes F: "\<And>t p. \<not> wr_over t \<Longrightarrow> F (E t p) = (case wr_step pipe_writer (t, p) of (t', p') \<Rightarrow> E t' p')"
    and "wr_wf t"
  shows "\<exists>r p'. gets F (E t p) (E (Wr_done r) p') \<and> wr_outcome t (chan p) = (r, chan p')"
  using assms(2)
proof (induction "wr_left t + length (op_plan p)" arbitrary: t p rule: less_induct)
  case less
  show ?case
  proof (cases "wr_over t")
    case True
    then show ?thesis by (cases t) auto
  next
    case False
    obtain t1 p1 where s: "wr_step pipe_writer (t, p) = (t1, p1)" by fastforce
    have r: "wr_result t p (t1, p1)" using wr_step_result[OF less.prems False, of p] by (simp only: s)
    have g: "gets F (E t p) x" if "gets F (E t1 p1) x" for x
      using gets_step[of F "E t p"] F[OF False, of p] s that by simp
    show ?thesis
    proof (cases "wr_over t1")
      case True
      then obtain x where "t1 = Wr_done x" by (cases t1) auto
      then show ?thesis using r g[OF gets_refl] by (intro exI[of _ x] exI[of _ p1]) (simp add: wr_result_def)
    next
      case False
      then have smaller: "wr_left t1 + length (op_plan p1) < wr_left t + length (op_plan p)" "wr_wf t1"
          "wr_outcome t1 (chan p1) = wr_outcome t (chan p)"
        using r by (simp_all add: wr_result_def)
      obtain x p' where "gets F (E t1 p1) (E (Wr_done x) p')" "wr_outcome t1 (chan p1) = (x, chan p')"
        using less.hyps[OF smaller(1,2)] by blast
      then show ?thesis using g smaller(3) by (intro exI[of _ x] exI[of _ p']) simp
    qed
  qed
qed

end
