(* ===== verification/Duplex_Props.thy ===== *)
theory Duplex_Props
  imports Duplex_Laws Rpc_Props
begin

text \<open>
  The two duplexes as instances of one interface, and what tasks on them come to: the server
  and the client over any way the bytes are cut do what \<open>serve\<close> and \<open>client_call\<close> say of
  whole bytes.
\<close>

section \<open>Joined streams\<close>

text \<open>A stream \<open>mk r w\<close> whose two directions are those of its parts.\<close>

locale duplex =
  fixes R :: "'r reader" and W :: "'w writer"
    and RD :: "'d reader" and WD :: "'d writer" and mk :: "'r \<Rightarrow> 'w \<Rightarrow> 'd"
  assumes reads: "poll_read RD n (mk r w) = apsnd (\<lambda>r. mk r w) (poll_read R n r)"
    and writes: "poll_write WD bs (mk r w) = apsnd (mk r) (poll_write W bs w)"
    and flushes: "poll_flush WD (mk r w) = apsnd (mk r) (poll_flush W w)"
    and shuts: "poll_shutdown WD (mk r w) = apsnd (mk r) (poll_shutdown W w)"
begin

lemma fill_step_part: "fill_step RD want got (mk r w) = apsnd (\<lambda>r. mk r w) (fill_step R want got r)"
  by (simp add: fill_step_def reads split: prod.splits poll.splits result.splits)

lemma rd_step_part: "rd_step dec RD (t, mk r w) = apsnd (\<lambda>r. mk r w) (rd_step dec R (t, r))"
  by (cases t) (simp_all add: fill_step_part split: prod.splits fill.splits)

lemma drain_step_part: "drain_step WD bs (mk r w) = apsnd (mk r) (drain_step W bs w)"
  by (simp add: drain_step_def writes split: prod.splits poll.splits result.splits)

lemma wr_step_part: "wr_step WD (t, mk r w) = apsnd (mk r) (wr_step W (t, w))"
  by (cases t) (simp_all add: drain_step_part flushes split: prod.splits poll.splits result.splits)

end

text \<open>A server that has come to rest, with what \<open>serve\<close> says: waiting for the rest of a request,
  or ended, with the bytes it has not read.\<close>

definition served_as :: "(in_pipe \<Rightarrow> out_pipe \<Rightarrow> 'd) \<Rightarrow> codec \<Rightarrow> 's tokimo_vfs \<Rightarrow> in_pipe \<Rightarrow> out_pipe \<Rightarrow> 's \<Rightarrow>
    serve_task \<times> 'd \<times> 's \<Rightarrow> bool" where
  "served_as mk c V p w s = (\<lambda>(t, d, s').
     \<exists>p' w' running rest. d = mk p' w' \<and>
       serve c V (ip_closed p) (coming p) s (chan w) = (running, rest, s', chan w') \<and>
       (if running then quiet p' \<and> (\<exists>rt. t = Sv_read rt \<and> rd_wf rt \<and> \<not> rd_over rt)
        else t = Sv_end \<and> coming p' = rest))"

text \<open>Pipes in both directions.\<close>

locale piped = duplex pipe_reader pipe_writer RD WD mk
  for RD :: "'d reader" and WD :: "'d writer" and mk :: "in_pipe \<Rightarrow> out_pipe \<Rightarrow> 'd"
begin

lemma serve_reads:
  "\<not> rd_over t \<Longrightarrow> serve_step c V RD WD (Sv_read t, mk p w, s) =
     (case rd_step (dec_req c) pipe_reader (t, p) of (t', p') \<Rightarrow> (Sv_read t', mk p' w, s))"
  by (cases t) (simp_all add: rd_step_part del: rd_step.simps split: prod.splits)

lemma serve_writes:
  "\<not> wr_over t \<Longrightarrow> serve_step c V RD WD (Sv_write t, mk p w, s) =
     (case wr_step pipe_writer (t, w) of (t', w') \<Rightarrow> (Sv_write t', mk p w', s))"
  by (cases t) (simp_all add: wr_step_part del: wr_step.simps split: prod.splits)

lemma serve_polled:
  "\<exists>x. gets (serve_step c V RD WD) (Sv_read (Rd_len []), mk p w, s) x \<and> served_as mk c V p w s x"
proof (induction c V "ip_closed p" "coming p" s "chan w" arbitrary: p w rule: serve.induct)
  case (1 c V s)
  let ?F = "serve_step c V RD WD"
  obtain t p1 where rd: "gets ?F (Sv_read (Rd_len []), mk p w, s) (Sv_read t, mk p1 w, s)" "ip_closed p1 = ip_closed p"
      "rd_wf t" "rd_outcome (dec_req c) (ip_closed p) t (coming p1) = read_frame (dec_req c) (ip_closed p) (coming p)"
      "rd_over t \<or> quiet p1"
    using rd_runs[of ?F "\<lambda>t p. (Sv_read t, mk p w, s)" "dec_req c" "Rd_len []" p, OF serve_reads] by auto
  have via: "\<exists>x. gets ?F (Sv_read (Rd_len []), mk p w, s) x \<and> served_as mk c V p w s x"
    if "gets ?F (Sv_read t, mk p1 w, s) x" "served_as mk c V p w s x" for x
    using gets_trans[OF rd(1) that(1)] that(2) by blast
  show ?case
  proof (cases "rd_over t")
    case False
    then have "quiet p1" "\<not> ip_closed p" using rd by (auto simp: quiet_def)
    moreover have "read_frame (dec_req c) False (coming p) = Waiting"
      using rd_waits[OF rd(3) False \<open>quiet p1\<close>, of "dec_req c"] rd(4) calculation(2) by simp
    ultimately have "served_as mk c V p w s (Sv_read t, mk p1 w, s)"
      unfolding served_as_def prod.case using False rd(3)
      by (intro exI[of _ p1] exI[of _ w] exI[of _ True] exI[of _ "coming p"]) (simp add: serve.simps)
    then show ?thesis by (intro via[OF gets_refl])
  next
    case True
    then obtain r where t: "t = Rd_done r" by (cases t) auto
    show ?thesis
    proof (cases r)
      case (Err e)
      then have "read_frame (dec_req c) (ip_closed p) (coming p) = Failed e (coming p1)" using rd(4) t by simp
      then have "served_as mk c V p w s (Sv_end, mk p1 w, s)"
        unfolding served_as_def prod.case
        by (intro exI[of _ p1] exI[of _ w] exI[of _ False] exI[of _ "coming p1"]) (simp add: serve.simps)
      moreover have "gets ?F (Sv_read t, mk p1 w, s) (Sv_end, mk p1 w, s)" using t Err by (intro gets_step[OF gets_refl_eq]) simp
      ultimately show ?thesis by (intro via)
    next
      case (Ok req)
      then have got: "Got req (coming p1) = read_frame (dec_req c) (ip_closed p) (coming p)" using rd(4) t by simp
      obtain resp s1 where h: "(resp, s1) = handle V req s" by (metis surj_pair)
      obtain wres w1 where wr: "gets ?F (Sv_write (wr_start (enc_resp c) resp), mk p1 w, s1) (Sv_write (Wr_done wres), mk p1 w1, s1)"
          "write_frame (enc_resp c) resp (chan w) = (wres, chan w1)"
        using wr_runs[of ?F "\<lambda>t w. (Sv_write t, mk p1 w, s1)" "wr_start (enc_resp c) resp" w, OF serve_writes]
          wr_start_outcome[of "enc_resp c" resp] by auto
      have g: "gets ?F (Sv_read t, mk p1 w, s) x" if "gets ?F (Sv_write (Wr_done wres), mk p1 w1, s1) x" for x
        using gets_trans[OF wr(1) that] t Ok h[symmetric] gets_step[of ?F "(Sv_read t, mk p1 w, s)" x] by simp
      show ?thesis
      proof (cases wres)
        case (Err e)
        then have "served_as mk c V p w s (Sv_end, mk p1 w1, s1)"
          unfolding served_as_def prod.case using got[symmetric] h[symmetric] wr(2)
          by (intro exI[of _ p1] exI[of _ w1] exI[of _ False] exI[of _ "coming p1"]) (simp add: serve.simps)
        moreover have "gets ?F (Sv_write (Wr_done wres), mk p1 w1, s1) (Sv_end, mk p1 w1, s1)"
          using Err by (intro gets_step[OF gets_refl_eq]) simp
        ultimately show ?thesis by (intro via g)
      next
        case (Ok u)
        have serve: "serve c V (ip_closed p) (coming p) s (chan w) = serve c V (ip_closed p1) (coming p1) s1 (chan w1)"
          using got[symmetric] h[symmetric] wr(2) Ok rd(2) by (subst serve.simps) simp
        obtain x where x: "gets ?F (Sv_read (Rd_len []), mk p1 w1, s1) x" "served_as mk c V p1 w1 s1 x"
          using 1[OF got[symmetric] h wr(2)[symmetric] Ok rd(2)[symmetric]] by blast
        have "gets ?F (Sv_write (Wr_done wres), mk p1 w1, s1) x" using x(1) Ok gets_step[of ?F "(Sv_write (Wr_done wres), mk p1 w1, s1)" x] by simp
        moreover have "served_as mk c V p w s x" using x(2) serve by (auto simp: served_as_def)
        ultimately show ?thesis by (intro via g)
      qed
    qed
  qed
qed

lemma serve_stays: "served_as mk c V p w s x \<Longrightarrow> serve_step c V RD WD x = x"
proof (cases x)
  case (fields t d s')
  assume "served_as mk c V p w s x"
  then obtain p' w' where d: "d = mk p' w'" and t: "t = Sv_end \<or> quiet p' \<and> (\<exists>rt. t = Sv_read rt \<and> rd_wf rt \<and> \<not> rd_over rt)"
    unfolding fields served_as_def by (auto split: if_splits)
  show ?thesis using t
  proof
    assume "quiet p' \<and> (\<exists>rt. t = Sv_read rt \<and> rd_wf rt \<and> \<not> rd_over rt)"
    then obtain rt where rt: "t = Sv_read rt" "rd_wf rt" "\<not> rd_over rt" "quiet p'" by blast
    then show ?thesis using serve_reads[OF rt(3), of c V p' w' s'] rd_waits[OF rt(2-4), of "dec_req c"] d fields by simp
  qed (simp add: fields)
qed

lemma call_writing:
  "\<not> wr_over t \<Longrightarrow> call_step c RD WD (Cl_write t, mk p w) =
     (case wr_step pipe_writer (t, w) of (t', w') \<Rightarrow> (Cl_write t', mk p w'))"
  by (cases t) (simp_all add: wr_step_part del: wr_step.simps split: prod.splits)

lemma call_reading:
  "\<not> rd_over t \<Longrightarrow> call_step c RD WD (Cl_read t, mk p w) =
     (case rd_step (dec_resp c) pipe_reader (t, p) of (t', p') \<Rightarrow> (Cl_read t', mk p' w))"
  by (cases t) (simp_all add: rd_step_part del: rd_step.simps split: prod.splits)

lemma call_sends:
  "\<exists>r w'. write_frame (enc_req c) req (chan w) = (r, chan w') \<and>
     gets (call_step c RD WD) (Cl_write (wr_start (enc_req c) req), mk p w)
       ((case r of Ok _ \<Rightarrow> Cl_read (Rd_len []) | Err e \<Rightarrow> Cl_done (Err e)), mk p w')"
proof -
  let ?F = "call_step c RD WD"
  obtain r w' where wr: "gets ?F (Cl_write (wr_start (enc_req c) req), mk p w) (Cl_write (Wr_done r), mk p w')"
      "write_frame (enc_req c) req (chan w) = (r, chan w')"
    using wr_runs[of ?F "\<lambda>t w. (Cl_write t, mk p w)" "wr_start (enc_req c) req" w, OF call_writing]
      wr_start_outcome[of "enc_req c" req] by auto
  have "gets ?F (Cl_write (Wr_done r), mk p w') ((case r of Ok _ \<Rightarrow> Cl_read (Rd_len []) | Err e \<Rightarrow> Cl_done (Err e)), mk p w')"
    by (cases r) (auto intro: gets_step[OF gets_refl_eq])
  then show ?thesis using gets_trans[OF wr(1)] wr(2) by blast
qed

lemma call_receives:
  "\<exists>t p'. gets (call_step c RD WD) (Cl_read (Rd_len []), mk p w) (t, mk p' w) \<and> call_step c RD WD (t, mk p' w) = (t, mk p' w) \<and>
     (case read_frame (dec_resp c) (ip_closed p) (coming p) of
        Waiting \<Rightarrow> \<exists>rt. t = Cl_read rt \<and> \<not> rd_over rt
      | Failed e rest \<Rightarrow> t = Cl_done (Err e) \<and> coming p' = rest
      | Got m rest \<Rightarrow> t = Cl_done (Ok m) \<and> coming p' = rest)"
proof -
  let ?F = "call_step c RD WD"
  obtain t p1 where rd: "gets ?F (Cl_read (Rd_len []), mk p w) (Cl_read t, mk p1 w)" "ip_closed p1 = ip_closed p"
      "rd_wf t" "rd_outcome (dec_resp c) (ip_closed p) t (coming p1) = read_frame (dec_resp c) (ip_closed p) (coming p)"
      "rd_over t \<or> quiet p1"
    using rd_runs[of ?F "\<lambda>t p. (Cl_read t, mk p w)" "dec_resp c" "Rd_len []" p, OF call_reading] by auto
  show ?thesis
  proof (cases "rd_over t")
    case False
    then have q: "quiet p1" "\<not> ip_closed p" using rd by (auto simp: quiet_def)
    have "read_frame (dec_resp c) (ip_closed p) (coming p) = Waiting"
      using rd_waits[OF rd(3) False q(1), of "dec_resp c"] rd(4) q(2) by simp
    moreover have "?F (Cl_read t, mk p1 w) = (Cl_read t, mk p1 w)"
      using call_reading[OF False, of c p1 w] rd_waits[OF rd(3) False q(1), of "dec_resp c"] by simp
    ultimately show ?thesis using rd(1) False by (intro exI[of _ "Cl_read t"] exI[of _ p1]) simp
  next
    case True
    then obtain r where t: "t = Rd_done r" by (cases t) auto
    have "gets ?F (Cl_read t, mk p1 w) (Cl_done r, mk p1 w)" using t by (intro gets_step[OF gets_refl_eq]) simp
    from gets_trans[OF rd(1) this] have over': "gets ?F (Cl_read (Rd_len []), mk p w) (Cl_done r, mk p1 w)" .
    have "read_frame (dec_resp c) (ip_closed p) (coming p) =
        (case r of Ok m \<Rightarrow> Got m (coming p1) | Err e \<Rightarrow> Failed e (coming p1))"
      using rd(4)[symmetric] t by (cases r) simp_all
    then show ?thesis using over' by (intro exI[of _ "Cl_done r"] exI[of _ p1]) (cases r; simp)
  qed
qed

end


section \<open>The two duplexes\<close>

definition stdio_join :: "'r \<Rightarrow> 'w \<Rightarrow> ('r, 'w) stdio_duplex" where
  "stdio_join r w = \<lparr>sd_r = r, sd_w = w\<rparr>"

definition child_join :: "'r \<Rightarrow> 'w \<Rightarrow> ('r, 'w) child_duplex" where
  "child_join r w = \<lparr>cd_r = r, cd_w = w\<rparr>"

interpretation stdio: duplex R W "stdio_reader R" "stdio_writer W" stdio_join for R W
  by unfold_locales (simp_all add: stdio_reader_def stdio_writer_def stdio_join_def on_part_def split: prod.splits)

interpretation child: duplex R W "child_reader R" "child_writer W" child_join for R W
  by unfold_locales (simp_all add: child_reader_def child_writer_def child_join_def on_part_def split: prod.splits)

interpretation stdio_pipes: piped "stdio_reader pipe_reader" "stdio_writer pipe_writer" stdio_join
  by unfold_locales

interpretation child_pipes: piped "child_reader pipe_reader" "child_writer pipe_writer" child_join
  by unfold_locales


section \<open>A call through the tunnel\<close>

text \<open>
  The agent's end and the host's end of \<^verbatim>\<open>wsl.exe\<close>, which carries the bytes and cuts them in
  any way (\<open>cut1\<close>, \<open>cut2\<close>: what the polls of the reader find): \<open>n\<close> polls of the call on a new
  connection, \<open>n\<close> of the server, \<open>n\<close> more of the call. The plans are how the pipes take bytes.
\<close>

type_synonym cut = "byte list \<Rightarrow> byte list option list"

definition tunnel_call ::
    "codec \<Rightarrow> 's tokimo_vfs \<Rightarrow> cut \<Rightarrow> cut \<Rightarrow> nat option list \<Rightarrow> nat option list \<Rightarrow> nat \<Rightarrow> request \<Rightarrow> 's \<Rightarrow> call_task \<times> 's"
where
  "tunnel_call c V cut1 cut2 plan1 plan2 n req s =
     (let call = call_step c (stdio_reader pipe_reader) (stdio_writer pipe_writer);
          serv = serve_step c V (child_reader pipe_reader) (child_writer pipe_writer)
      in case (call ^^ n) (Cl_write (wr_start (enc_req c) req),
             \<lparr>sd_r = \<lparr>ip_script = [], ip_closed = False\<rparr>, sd_w = \<lparr>op_plan = plan1, op_out = [], op_room = None\<rparr>\<rparr>) of
           (t1, d1) \<Rightarrow>
         (case (serv ^^ n) (Sv_read (Rd_len []),
             \<lparr>cd_r = \<lparr>ip_script = cut1 (op_out (sd_w d1)), ip_closed = False\<rparr>,
              cd_w = \<lparr>op_plan = plan2, op_out = [], op_room = None\<rparr>\<rparr>, s) of
           (t2, d2, s1) \<Rightarrow>
         (case (call ^^ n) (t1, d1\<lparr>sd_r := \<lparr>ip_script = cut2 (op_out (cd_w d2)), ip_closed = (t2 = Sv_end)\<rparr>\<rparr>) of
           (t3, _) \<Rightarrow> (t3, s1))))"


lemma tunnel_calls:
  assumes cuts: "\<And>bs. script_bytes (cut1 bs) = bs" "\<And>bs. script_bytes (cut2 bs) = bs"
  shows "\<exists>n0. \<forall>n \<ge> n0. case client_call c V req (insync s) of
      (Some r, k) \<Rightarrow> tunnel_call c V cut1 cut2 plan1 plan2 n req s = (Cl_done r, cn_state k)
    | (None, k) \<Rightarrow> \<exists>rt. tunnel_call c V cut1 cut2 plan1 plan2 n req s = (Cl_read rt, cn_state k) \<and> \<not> rd_over rt"
proof -
  let ?call = "call_step c (stdio_reader pipe_reader) (stdio_writer pipe_writer)"
  let ?serv = "serve_step c V (child_reader pipe_reader) (child_writer pipe_writer)"
  let ?p0 = "\<lparr>ip_script = [], ip_closed = False\<rparr>"
  let ?w1 = "\<lparr>op_plan = plan1, op_out = [], op_room = None\<rparr>" and ?w2 = "\<lparr>op_plan = plan2, op_out = [], op_room = None\<rparr>"
  have idle: "chan ?w1 = idle" "chan ?w2 = idle" by (simp_all add: chan_def idle_def)
  obtain r w where wr: "write_frame (enc_req c) req idle = (r, chan w)"
    "gets ?call (Cl_write (wr_start (enc_req c) req), stdio_join ?p0 ?w1)
       ((case r of Ok _ \<Rightarrow> Cl_read (Rd_len []) | Err e \<Rightarrow> Cl_done (Err e)), stdio_join ?p0 w)"
    using stdio_pipes.call_sends[of c req ?w1 ?p0] idle by auto
  let ?t1 = "case r of Ok _ \<Rightarrow> Cl_read (Rd_len []) | Err e \<Rightarrow> Cl_done (Err e)"
  let ?p1 = "\<lparr>ip_script = cut1 (op_out w), ip_closed = False\<rparr>"
  have "?call (?t1, stdio_join ?p0 w) = (?t1, stdio_join ?p0 w)"
    using stdio_pipes.call_reading[of "Rd_len []" c ?p0 w] rd_waits[of "Rd_len []" ?p0 "dec_resp c"]
    by (cases r) (simp_all add: quiet_def)
  then obtain n1 where n1: "\<forall>n \<ge> n1. (?call ^^ n) (Cl_write (wr_start (enc_req c) req), stdio_join ?p0 ?w1) = (?t1, stdio_join ?p0 w)"
    using gets_fixed[OF wr(2)] by blast
  obtain x where x: "gets ?serv (Sv_read (Rd_len []), child_join ?p1 ?w2, s) x" "served_as child_join c V ?p1 ?w2 s x"
    using child_pipes.serve_polled[of c V ?p1 ?w2 s] by blast
  obtain n2 where n2: "\<forall>n \<ge> n2. (?serv ^^ n) (Sv_read (Rd_len []), child_join ?p1 ?w2, s) = x"
    using gets_fixed[OF x(1) child_pipes.serve_stays[OF x(2)]] by blast
  obtain t2 p2 w2 s1 running rest where sv: "x = (t2, child_join p2 w2, s1)"
      "serve c V False (op_out w) s idle = (running, rest, s1, chan w2)" "(t2 = Sv_end) = (\<not> running)"
    using x(2) cuts(1) idle by (cases x) (auto simp: served_as_def coming_def split: if_splits)
  let ?p3 = "\<lparr>ip_script = cut2 (op_out w2), ip_closed = (t2 = Sv_end)\<rparr>"
  have coming3: "coming ?p3 = op_out w2" using cuts(2) by (simp add: coming_def)
  obtain t3 p4 where rd: "gets ?call (Cl_read (Rd_len []), stdio_join ?p3 w) (t3, stdio_join p4 w)"
      "?call (t3, stdio_join p4 w) = (t3, stdio_join p4 w)"
      "case read_frame (dec_resp c) (t2 = Sv_end) (op_out w2) of
         Waiting \<Rightarrow> \<exists>rt. t3 = Cl_read rt \<and> \<not> rd_over rt
       | Failed e rest \<Rightarrow> t3 = Cl_done (Err e) \<and> coming p4 = rest
       | Got m rest \<Rightarrow> t3 = Cl_done (Ok m) \<and> coming p4 = rest"
    using stdio_pipes.call_receives[of c ?p3 w] unfolding coming3 by auto
  obtain n3 where n3: "\<forall>n \<ge> n3. (?call ^^ n) (Cl_read (Rd_len []), stdio_join ?p3 w) = (t3, stdio_join p4 w)"
    using gets_fixed[OF rd(1,2)] by blast
  have stuck: "(?call ^^ n) (Cl_done y, d) = (Cl_done y, d)" for n y d
    by (induction n) simp_all
  have joins: "\<lparr>sd_r = a, sd_w = b\<rparr> = stdio_join a b" "\<lparr>cd_r = a, cd_w = b\<rparr> = child_join a b"
    "(stdio_join a b)\<lparr>sd_r := a'\<rparr> = stdio_join a' b" "sd_w (stdio_join a b) = b" "cd_w (child_join a b) = b" for a b a'
    by (simp_all add: stdio_join_def child_join_def)
  have run: "tunnel_call c V cut1 cut2 plan1 plan2 n req s = ((case r of Ok _ \<Rightarrow> t3 | Err e \<Rightarrow> Cl_done (Err e)), s1)"
    if "n1 + n2 + n3 \<le> n" for n
  proof -
    have "n1 \<le> n" "n2 \<le> n" "n3 \<le> n" using that by simp_all
    then show ?thesis using n1 n2 n3 sv(1) stuck
      by (cases r) (simp_all add: tunnel_call_def Let_def joins)
  qed
  show ?thesis
  proof (cases r)
    case (Err e)
    then have "op_out w = []" using wr(1)
      by (auto simp: write_frame_def write_all_def idle_def chan_def split: result.splits if_splits)
    then have "s1 = s" using sv(2) by (simp add: serve.simps read_frame_def)
    then show ?thesis using run Err wr(1) by (intro exI[of _ "n1 + n2 + n3"]) (simp add: client_call_def insync_def)
  next
    case (Ok u)
    let ?k1 = "server_turn c V ((insync s)\<lparr>cn_up := chan w\<rparr>)"
    have "serve c V False (wc_pending (chan w)) s idle = (running, rest, s1, chan w2)" using sv(2) by (simp add: chan_def)
    then have k1: "cn_running ?k1 = running" "cn_state ?k1 = s1" "cn_down ?k1 = chan w2"
      by (simp_all add: server_turn_def insync_def)
    have up: "cn_up (insync s) = idle" and pending: "wc_pending (chan w2) = op_out w2"
      by (simp_all add: insync_def chan_def)
    have call: "client_call c V req (insync s) =
      (case read_frame (dec_resp c) (\<not> running) (op_out w2) of
         Waiting \<Rightarrow> (None, ?k1)
       | Failed e rest \<Rightarrow> (Some (Err e), ?k1\<lparr>cn_down := (cn_down ?k1)\<lparr>wc_pending := rest\<rparr>\<rparr>)
       | Got resp rest \<Rightarrow> (Some (Ok resp), ?k1\<lparr>cn_down := (cn_down ?k1)\<lparr>wc_pending := rest\<rparr>\<rparr>))"
      using wr(1) Ok k1 by (simp add: client_call_def up pending Let_def)
    show ?thesis unfolding call using run Ok rd(3) sv(3) k1(2)
      by (intro exI[of _ "n1 + n2 + n3"]) (auto split: read_outcome.splits)
  qed
qed


section \<open>Properties\<close>

text \<open>C36: A server on the joined streams of a child process, polled often enough, has come to rest,
  and has done what serving the whole bytes does: whatever the polls find and take, and
  wherever they cut the frames, the provider's state and the bytes sent are the same.\<close>

theorem duplex_server_settles:
  "\<exists>n0. \<forall>n \<ge> n0. served_as child_join c V p w s
     ((serve_step c V (child_reader pipe_reader) (child_writer pipe_writer) ^^ n)
        (Sv_read (Rd_len []), child_join p w, s))"
proof -
  obtain x where x: "gets (serve_step c V (child_reader pipe_reader) (child_writer pipe_writer))
      (Sv_read (Rd_len []), child_join p w, s) x" "served_as child_join c V p w s x"
    using child_pipes.serve_polled[of c V p w s] by blast
  from gets_fixed[OF x(1) child_pipes.serve_stays[OF x(2)]] x(2) show ?thesis by metis
qed

theorem duplex_server_settles_witness:
  "\<exists>n0. \<forall>n \<ge> n0. served_as child_join sample_codec memory_vfs
     \<lparr>ip_script = [Some [0, 0], None, Some [0, 5, 1, 0, 9, 47], Some [102]], ip_closed = True\<rparr>
     \<lparr>op_plan = [Some 0, None, Some 2], op_out = [], op_room = Some 30\<rparr> sample_mem
     ((serve_step sample_codec memory_vfs (child_reader pipe_reader) (child_writer pipe_writer) ^^ n)
        (Sv_read (Rd_len []), child_join
           \<lparr>ip_script = [Some [0, 0], None, Some [0, 5, 1, 0, 9, 47], Some [102]], ip_closed = True\<rparr>
           \<lparr>op_plan = [Some 0, None, Some 2], op_out = [], op_room = Some 30\<rparr>, sample_mem))"
  by (rule duplex_server_settles)

text \<open>C8: A call of the agent through \<^verbatim>\<open>wsl.exe\<close> is a call on whole bytes: however the two pipes cut
  the request and the response, and however often a poll finds or takes nothing, the call
  comes to the result of \<^verbatim>\<open>Client::call\<close> on a new connection, and the provider to its state.\<close>

theorem tunnel_is_call:
  assumes "\<And>bs. script_bytes (cut1 bs) = bs" and "\<And>bs. script_bytes (cut2 bs) = bs"
  shows "\<exists>r k n0. client_call c V req (insync s) = (Some r, k) \<and>
    (\<forall>n \<ge> n0. tunnel_call c V cut1 cut2 plan1 plan2 n req s = (Cl_done r, cn_state k))"
proof -
  obtain r k where "client_call c V req (insync s) = (Some r, k)"
    using fresh_call_returns[of c V req s] by (metis prod.collapse)
  then show ?thesis using tunnel_calls[where c = c and V = V and req = req and s = s and ?plan1.0 = plan1 and ?plan2.0 = plan2, OF assms] by auto
qed

lemma script_bytes_single [simp]: "script_bytes (map (\<lambda>b. Some [b]) bs) = bs"
  by (induction bs) simp_all

theorem tunnel_is_call_witness:
  "\<exists>n0. \<forall>n \<ge> n0. tunnel_call sample_codec memory_vfs (\<lambda>bs. [None, Some bs]) (map (\<lambda>b. Some [b])) [Some 0, None] [] n
     (ReqRead ''/f'' 0 9) sample_mem' = (Cl_done (Ok (RespRead (Ok [5, 6, 7]))), sample_mem')"
proof -
  have "carries sample_codec memory_vfs (ReqRead ''/f'' 0 9) sample_mem'"
    using sample_carried by (simp add: sample_write)
  from client_call_insync[OF this]
  have "client_call sample_codec memory_vfs (ReqRead ''/f'' 0 9) (insync sample_mem') =
      (Some (Ok (RespRead (Ok [5, 6, 7]))), insync sample_mem')"
    by (simp add: sample_read)
  then show ?thesis
    using tunnel_is_call[where c = sample_codec and V = memory_vfs and ?cut1.0 = "\<lambda>bs. [None, Some bs]" and
        ?cut2.0 = "map (\<lambda>b. Some [b])" and req = "ReqRead ''/f'' 0 9" and s = sample_mem' and
        ?plan1.0 = "[Some 0, None]" and ?plan2.0 = "[]"]
    by (simp add: insync_def)
qed

end
