(* ===== verification/Facade.thy ===== *)
theory Facade
  imports Backends
begin

text \<open>
  The entry point: the trait \<^verbatim>\<open>Sandbox\<close> as a record of methods over the state of a backend
  (\<^verbatim>\<open>vm-core/src/lib.rs\<close>), the three implementations and the stand-in, and \<^verbatim>\<open>new_default\<close>
  (\<^verbatim>\<open>tokimo-packages-vm/src/lib.rs\<close>), which chooses one by the target. The state of an
  implementation is the sandbox together with its world. \<^verbatim>\<open>id\<close> is left out: a random number
  that nothing changes.
\<close>

section \<open>The trait\<close>

record ('s, 'v) sandbox_trait =
  sb_state :: "'s \<Rightarrow> sandbox_state"
  sb_config :: "'s \<Rightarrow> 'v sandbox_config"
  sb_start :: "'s life_call"
  sb_stop :: "'s life_call"
  sb_add_mount :: "'v mount_spec \<Rightarrow> 's \<Rightarrow> (uid, error) result \<times> 's"
  sb_remove_mount :: "uid \<Rightarrow> 's \<Rightarrow> (unit, error) result \<times> 's"
  sb_exec :: "exec_spec \<Rightarrow> 's \<Rightarrow> (exec_output, error) result \<times> 's"
  sb_wait :: "'s life_call"
  sb_serial_log_path :: "'s \<Rightarrow> path option"
  sb_serial_socket_path :: "'s \<Rightarrow> path option"

text \<open>The two methods with a default.\<close>

definition default_path :: "'s \<Rightarrow> path option" where
  "default_path s = None"

definition linux_trait :: "'j json_api \<Rightarrow> ('v linux, 'v) sandbox_trait" where
  "linux_trait js =
     \<lparr>sb_state = qx_state \<circ> fst, sb_config = qx_config \<circ> fst, sb_start = linux_start js, sb_stop = linux_stop js,
      sb_add_mount = linux_add_mount, sb_remove_mount = linux_remove_mount, sb_exec = linux_exec, sb_wait = linux_wait,
      sb_serial_log_path = linux_serial_log_path \<circ> fst, sb_serial_socket_path = linux_serial_socket_path \<circ> fst\<rparr>"

definition wsl_trait :: "(('h, 'v) wsl, 'v) sandbox_trait" where
  "wsl_trait =
     \<lparr>sb_state = wx_state \<circ> fst, sb_config = wx_config \<circ> fst, sb_start = wsl_start, sb_stop = wsl_stop,
      sb_add_mount = wsl_add_mount, sb_remove_mount = wsl_remove_mount, sb_exec = wsl_exec, sb_wait = wsl_wait,
      sb_serial_log_path = wsl_serial_log_path \<circ> fst, sb_serial_socket_path = default_path\<rparr>"

definition mac_trait :: "'m vz \<Rightarrow> (('m, 'v) mac, 'v) sandbox_trait" where
  "mac_trait z =
     \<lparr>sb_state = mx_state \<circ> fst, sb_config = mx_config \<circ> fst, sb_start = mac_start z, sb_stop = mac_stop z,
      sb_add_mount = mac_add_mount, sb_remove_mount = mac_remove_mount, sb_exec = mac_exec, sb_wait = mac_wait z,
      sb_serial_log_path = mac_serial_log_path \<circ> fst, sb_serial_socket_path = default_path\<rparr>"

definition stub_trait :: "('v sandbox_config \<times> sandbox_state, 'v) sandbox_trait" where
  "stub_trait =
     \<lparr>sb_state = snd, sb_config = fst, sb_start = stub_life, sb_stop = stub_life,
      sb_add_mount = (\<lambda>_. stub_call), sb_remove_mount = (\<lambda>_. stub_call), sb_exec = (\<lambda>_. stub_call), sb_wait = stub_life,
      sb_serial_log_path = default_path, sb_serial_socket_path = default_path\<rparr>"


section \<open>\<^verbatim>\<open>new_default\<close>\<close>

datatype target = Target_linux | Target_macos | Target_windows

text \<open>A \<^verbatim>\<open>Box\<close> of one of them; \<open>sid\<close> is the new id.\<close>

datatype 'v boxed = Qemu_box "'v qemu_sandbox" | Macos_box "'v mac_sandbox" | Wsl_box "'v wsl_sandbox"

fun new_default :: "target \<Rightarrow> string \<Rightarrow> 'v sandbox_config \<Rightarrow> 'v boxed" where
  "new_default Target_linux sid cfg = Qemu_box (qemu_sandbox_new cfg)"
| "new_default Target_macos sid cfg = Macos_box (mac_sandbox_new cfg)"
| "new_default Target_windows sid cfg = Wsl_box (wsl_sandbox_new sid cfg)"


section \<open>Driving a sandbox through its trait\<close>

datatype ('s, 'v) trait_op =
    TStart | TStop | TWait
  | TAdd "'v mount_spec" | TRemove uid | TExec exec_spec
  | TWorld "'s \<Rightarrow> 's"  \<comment> \<open>the world moves\<close>

text \<open>A call: whether it was a start that succeeded or a change of mounts that did, and the state.\<close>

fun trait_step :: "('s, 'v) sandbox_trait \<Rightarrow> ('s, 'v) trait_op \<Rightarrow> 's \<Rightarrow> (bool \<times> bool) \<times> 's" where
  "trait_step T TStart s = (case sb_start T s of (r, s1) \<Rightarrow> ((r = Done (Ok ()), False), s1))"
| "trait_step T TStop s = ((False, False), snd (sb_stop T s))"
| "trait_step T TWait s = ((False, False), snd (sb_wait T s))"
| "trait_step T (TAdd m) s = (case sb_add_mount T m s of (r, s1) \<Rightarrow> ((False, \<exists>i. r = Ok i), s1))"
| "trait_step T (TRemove i) s = (case sb_remove_mount T i s of (r, s1) \<Rightarrow> ((False, r = Ok ()), s1))"
| "trait_step T (TExec e) s = ((False, False), snd (sb_exec T e s))"
| "trait_step T (TWorld g) s = ((False, False), g s)"

fun trait_run :: "('s, 'v) sandbox_trait \<Rightarrow> ('s, 'v) trait_op list \<Rightarrow> 's \<Rightarrow> (bool \<times> bool) list \<times> 's" where
  "trait_run T [] s = ([], s)"
| "trait_run T (op # ops) s =
     (case trait_step T op s of (x, s1) \<Rightarrow> (case trait_run T ops s1 of (xs, s2) \<Rightarrow> (x # xs, s2)))"

text \<open>The world touches neither the state nor the configuration.\<close>

fun world_only :: "('s, 'v) sandbox_trait \<Rightarrow> ('s, 'v) trait_op \<Rightarrow> bool" where
  "world_only T (TWorld g) = (\<forall>s. sb_state T (g s) = sb_state T s \<and> sb_config T (g s) = sb_config T s)"
| "world_only T _ = True"

text \<open>What every implementation promises: its life cycle, one configuration, no change of mounts.\<close>

locale sandbox_object =
  sandbox_life "sb_start T" "sb_stop T" "sb_wait T" "sb_state T" for T :: "('s, 'v) sandbox_trait" +
  assumes config_start: "sb_config T (snd (sb_start T s)) = sb_config T s"
    and config_stop: "sb_config T (snd (sb_stop T s)) = sb_config T s"
    and config_wait: "sb_config T (snd (sb_wait T s)) = sb_config T s"
    and cold_add: "\<exists>e. sb_add_mount T m s = (Err (Unsupported e), s)"
    and cold_remove: "\<exists>e. sb_remove_mount T i s = (Err (Unsupported e), s)"
    and exec_keeps: "sb_state T (snd (sb_exec T e s)) = sb_state T s" "sb_config T (snd (sb_exec T e s)) = sb_config T s"
begin

lemma step_config:
  "world_only T op \<Longrightarrow> sb_config T (snd (trait_step T op s)) = sb_config T s \<and> \<not> snd (fst (trait_step T op s))"
proof (cases op)
  case (TAdd m)
  then show ?thesis using cold_add[of m s] by auto
next
  case (TRemove i)
  then show ?thesis using cold_remove[of i s] by auto
qed (auto simp: config_start config_stop config_wait exec_keeps split: prod.splits, metis config_start snd_conv)

lemma step_state:
  assumes "world_only T op" and "sb_state T s \<noteq> Created"
  shows "sb_state T (snd (trait_step T op s)) \<noteq> Created \<and> \<not> fst (fst (trait_step T op s))"
proof (cases op)
  case TStart
  then show ?thesis using no_restart[OF assms(2)] by (auto split: prod.splits)
next
  case (TAdd m)
  then show ?thesis using cold_add[of m s] assms by auto
next
  case (TRemove i)
  then show ?thesis using cold_remove[of i s] assms by auto
qed (use assms in \<open>auto simp: stop_stays wait_stays exec_keeps\<close>)

lemma step_starts: "fst (fst (trait_step T op s)) \<Longrightarrow> sb_state T (snd (trait_step T op s)) = Running"
  using start_runs[of s] by (cases op) (auto split: prod.splits)

lemma run_config:
  "list_all (world_only T) ops \<Longrightarrow> sb_config T (snd (trait_run T ops s)) = sb_config T s \<and> list_all (Not \<circ> snd) (fst (trait_run T ops s))"
proof (induction ops arbitrary: s)
  case (Cons op ops)
  then show ?case using step_config[of op s] by (auto simp: split_beta)
qed simp

lemma run_used: "list_all (world_only T) ops \<Longrightarrow> sb_state T s \<noteq> Created \<Longrightarrow> list_all (Not \<circ> fst) (fst (trait_run T ops s))"
proof (induction ops arbitrary: s)
  case (Cons op ops)
  then show ?case using step_state[of op s] by (auto simp: split_beta)
qed simp

lemma run_starts: "list_all (world_only T) ops \<Longrightarrow> length (filter fst (fst (trait_run T ops s))) \<le> 1"
proof (induction ops arbitrary: s)
  case (Cons op ops)
  have none: "filter fst xs = []" if "list_all (Not \<circ> fst) xs" for xs :: "(bool \<times> bool) list"
    using that by (induction xs) auto
  show ?case using Cons step_starts[of op s] none[OF run_used[of ops "snd (trait_step T op s)"]]
    by (auto simp: split_beta)
qed simp

end



section \<open>The implementations\<close>

lemma linux_start_config: "qx_config (fst (snd (linux_start js (s, w)))) = qx_config s"
  using linux_start_effect[of js s w] by (cases "qx_state s = Created"; cases "linux_start js (s, w)") (force, simp add: linux_start_def)

lemma linux_stop_config: "qx_config (fst (snd (linux_stop js (s, w)))) = qx_config s"
  by (auto simp: linux_stop_def Let_def split: option.splits prod.splits awaited.splits)

lemma ensure_distro_config: "ensure_distro (s, w) = (r, s2, w2) \<Longrightarrow> wx_config s2 = wx_config s"
  using ensure_distro_world[of s w r s2 w2] by auto

lemma start_agents_config: "start_agents dir d i ms (s, w) = (r, s2, w2) \<Longrightarrow> wx_config s2 = wx_config s"
  using start_agents_effect[of dir d i ms s w r s2 w2] by auto

lemma wsl_start_config: "wx_config (fst (snd (wsl_start (s, w)))) = wx_config s"
  by (auto simp: wsl_start_def Let_def dest!: ensure_distro_config start_agents_config
      split: option.splits prod.splits result.splits)

interpretation linux_object: sandbox_object "linux_trait js" for js
proof -
  have life: "sandbox_life (sb_start (linux_trait js)) (sb_stop (linux_trait js)) (sb_wait (linux_trait js)) (sb_state (linux_trait js))"
    for js :: "'j json_api"
    by (simp add: linux_trait_def linux.sandbox_life_axioms)
  show "sandbox_object (linux_trait js)" for js :: "'j json_api"
  proof (rule sandbox_object.intro[OF life], unfold_locales)
    fix sw :: "'v linux"
    obtain s w where sw: "sw = (s, w)" by (cases sw)
    show "sb_config (linux_trait js) (snd (sb_start (linux_trait js) sw)) = sb_config (linux_trait js) sw"
      by (simp add: linux_trait_def sw linux_start_config)
    show "sb_config (linux_trait js) (snd (sb_stop (linux_trait js) sw)) = sb_config (linux_trait js) sw"
      by (simp add: linux_trait_def sw linux_stop_config)
    show "sb_config (linux_trait js) (snd (sb_wait (linux_trait js) sw)) = sb_config (linux_trait js) sw"
      by (auto simp: linux_trait_def sw linux_wait_def split: option.splits)
  qed (simp_all add: linux_trait_def linux_add_mount_def linux_remove_mount_def linux_exec_def)
qed

interpretation wsl_object: sandbox_object wsl_trait
proof -
  have life: "sandbox_life (sb_start wsl_trait) (sb_stop wsl_trait) (sb_wait wsl_trait)
      (sb_state (wsl_trait :: (('h, 'v) wsl, 'v) sandbox_trait))"
    by (simp add: wsl_trait_def wsl.sandbox_life_axioms)
  show "sandbox_object (wsl_trait :: (('h, 'v) wsl, 'v) sandbox_trait)"
  proof (rule sandbox_object.intro[OF life], unfold_locales)
    fix sw :: "('h, 'v) wsl" and e :: exec_spec
    obtain s w where sw: "sw = (s, w)" by (cases sw)
    show "sb_config wsl_trait (snd (sb_start wsl_trait sw)) = sb_config wsl_trait sw"
      by (simp add: wsl_trait_def sw wsl_start_config)
    show "sb_config wsl_trait (snd (sb_stop wsl_trait sw)) = sb_config wsl_trait sw"
      by (auto simp: wsl_trait_def sw wsl_stop_def Let_def)
    show "sb_config wsl_trait (snd (sb_wait wsl_trait sw)) = sb_config wsl_trait sw"
      by (auto simp: wsl_trait_def sw wsl_wait_def)
    show "sb_state wsl_trait (snd (sb_exec wsl_trait e sw)) = sb_state wsl_trait sw"
      and "sb_config wsl_trait (snd (sb_exec wsl_trait e sw)) = sb_config wsl_trait sw"
      by (auto simp: wsl_trait_def sw wsl_exec_def split: option.splits result.splits prod.splits)
  qed (simp_all add: wsl_trait_def wsl_add_mount_def wsl_remove_mount_def)
qed

interpretation mac_object: sandbox_object "mac_trait z" for z
proof -
  have life: "sandbox_life (sb_start (mac_trait z)) (sb_stop (mac_trait z)) (sb_wait (mac_trait z))
      (sb_state (mac_trait z :: (('m, 'v) mac, 'v) sandbox_trait))" for z :: "'m vz"
    by (simp add: mac_trait_def mac.sandbox_life_axioms)
  show "sandbox_object (mac_trait z :: (('m, 'v) mac, 'v) sandbox_trait)" for z :: "'m vz"
  proof (rule sandbox_object.intro[OF life], unfold_locales)
    fix sw :: "('m, 'v) mac"
    obtain s w where sw: "sw = (s, w)" by (cases sw)
    show "sb_config (mac_trait z) (snd (sb_start (mac_trait z) sw)) = sb_config (mac_trait z) sw"
      by (auto simp: mac_trait_def sw mac_start_def split: result.splits prod.splits)
    show "sb_config (mac_trait z) (snd (sb_stop (mac_trait z) sw)) = sb_config (mac_trait z) sw"
      by (auto simp: mac_trait_def sw mac_stop_def Let_def split: option.splits awaited.splits result.splits prod.splits)
    show "sb_config (mac_trait z) (snd (sb_wait (mac_trait z) sw)) = sb_config (mac_trait z) sw"
      by (auto simp: mac_trait_def sw mac_wait_def split: option.splits awaited.splits result.splits prod.splits)
  qed (simp_all add: mac_trait_def mac_add_mount_def mac_remove_mount_def mac_exec_def)
qed

interpretation stub_object: sandbox_object stub_trait
  by (rule sandbox_object.intro, simp add: stub_trait_def stub.sandbox_life_axioms, unfold_locales)
    (simp_all add: stub_trait_def stub_life_def stub_call_def stub_error_def)


section \<open>Properties\<close>

definition driven :: "('s, 'v) sandbox_trait \<Rightarrow> ('s, 'v) trait_op list \<Rightarrow> 's \<Rightarrow> 'v sandbox_config \<Rightarrow> bool" where
  "driven T ops s cfg \<longleftrightarrow>
     (case trait_run T ops s of
        (xs, s') \<Rightarrow> sb_config T s' = cfg \<and> list_all (Not \<circ> snd) xs \<and> length (filter fst xs) \<le> 1)"

lemma object_driven:
  "sandbox_object T \<Longrightarrow> list_all (world_only T) ops \<Longrightarrow> sb_config T s = cfg \<Longrightarrow> driven T ops s cfg"
  using sandbox_object.run_config[of T ops s] sandbox_object.run_starts[of T ops s]
  by (simp add: driven_def split_beta)

text \<open>C37: What \<^verbatim>\<open>new_default\<close> builds on any target is a new sandbox of the given configuration, and
  keeps that configuration for ever: however it is driven through the trait, whatever the
  world does meanwhile, no call changes its mounts and at most one of its starts succeeds.\<close>

theorem new_default_contract:
  assumes "new_default Target_linux i1 cfg = Qemu_box q" and "list_all (world_only (linux_trait js)) lops"
    and "new_default Target_macos i2 cfg = Macos_box m" and "list_all (world_only (mac_trait z)) mops"
    and "new_default Target_windows i3 cfg = Wsl_box x" and "list_all (world_only wsl_trait) wops"
  shows "qx_state q = Created \<and> driven (linux_trait js) lops (q, lw) cfg \<and>
    mx_state m = Created \<and> driven (mac_trait z) mops (m, mw) cfg \<and>
    wx_state x = Created \<and> driven wsl_trait wops (x, ww) cfg"
proof (intro conjI)
  show "driven (linux_trait js) lops (q, lw) cfg"
    using assms(1) by (intro object_driven[OF linux_object.sandbox_object_axioms assms(2)])
      (auto simp: linux_trait_def qemu_sandbox_new_def)
  show "driven (mac_trait z) mops (m, mw) cfg"
    using assms(3) by (intro object_driven[OF mac_object.sandbox_object_axioms assms(4)])
      (auto simp: mac_trait_def mac_sandbox_new_def)
  show "driven wsl_trait wops (x, ww) cfg"
    using assms(5) by (intro object_driven[OF wsl_object.sandbox_object_axioms assms(6)])
      (auto simp: wsl_trait_def wsl_sandbox_new_def with_wsl_config_def)
qed (use assms(1,3,5) in \<open>auto simp: qemu_sandbox_new_def mac_sandbox_new_def wsl_sandbox_new_def with_wsl_config_def\<close>)

theorem new_default_contract_witness:
  "driven (linux_trait sample_json)
     [TAdd (HostDir ''/mnt'' ''/tmp'' True ''t''), TStart, TWorld (\<lambda>(s, w). (s, w\<lparr>lw_procs := []\<rparr>)), TWait, TStop, TStart]
     (qemu_sandbox_new (sandbox_config_new ''x'' :: nat sandbox_config), sample_world [''hello'', ''return''] False)
     (sandbox_config_new ''x'') \<and>
   driven (mac_trait (sample_vz StopOk)) [TStart, TExec (exec_spec_new ''ls''), TStop, TStart]
     (mac_sandbox_new (sandbox_config_new ''x'' :: nat sandbox_config), sample_mac_world (\<lambda>_. None)) (sandbox_config_new ''x'') \<and>
   driven wsl_trait [TStart, TRemove 3, TStop, TStart]
     (wsl_sandbox_new ''00'' (sandbox_config_new ''x'' :: nat sandbox_config), sample_wsl_world [] True) (sandbox_config_new ''x'')"
proof -
  let ?c = "sandbox_config_new ''x'' :: nat sandbox_config"
  have new: "new_default Target_linux ''00'' ?c = Qemu_box (qemu_sandbox_new ?c)"
    "new_default Target_macos ''00'' ?c = Macos_box (mac_sandbox_new ?c)"
    "new_default Target_windows ''00'' ?c = Wsl_box (wsl_sandbox_new ''00'' ?c)" by simp_all
  have ops: "list_all (world_only (linux_trait sample_json))
      [TAdd (HostDir ''/mnt'' ''/tmp'' True ''t''), TStart, TWorld (\<lambda>(s, w). (s, w\<lparr>lw_procs := []\<rparr>)), TWait, TStop, TStart]"
    "list_all (world_only (mac_trait (sample_vz StopOk))) [TStart, TExec (exec_spec_new ''ls''), TStop, TStart]"
    "list_all (world_only wsl_trait) [TStart, TRemove 3, TStop, TStart]"
    by (auto simp: linux_trait_def)
  from new_default_contract[OF new(1) ops(1) new(2) ops(2) new(3) ops(3)] show ?thesis by blast
qed

end
