(* ===== verification/Guest_Init.thy ===== *)
theory Guest_Init
  imports Linux_Mount
begin

text \<open>
  The init of the guest (\<^verbatim>\<open>tokimo-init\<close>, written by \<^verbatim>\<open>scripts/image/build.sh\<close>) from the kernel
  command line on: it starts the agent of each mount, waits for the mount to appear, and
  then runs the script or a shell. A run is the list of what it did and when. What the
  guest's programs make of it (when a mount is listed in \<^verbatim>\<open>/proc/mounts\<close>, how long a script
  runs) is a parameter. What precedes it (the kernel file systems, modules and the network)
  takes no part in it.
\<close>

section \<open>The waiting loop\<close>

text \<open>
  An unquoted expansion is split at the characters of \<^verbatim>\<open>IFS\<close>: blanks at first, a comma
  in the loop over the mounts.
\<close>

datatype ifs = Blanks | Comma

fun shell_fields :: "ifs \<Rightarrow> string \<Rightarrow> string list" where
  "shell_fields Blanks s = guest_words s"
| "shell_fields Comma s = comma_fields s"

text \<open>\<^verbatim>\<open>$(seq 1 n)\<close>: one number a line, without the newline at the end.\<close>

definition seq_text :: "nat \<Rightarrow> string" where
  "seq_text n = join_with [CHR 0x0A] (map show_nat [1..<n + 1])"

definition wait_rounds :: "ifs \<Rightarrow> string list" where
  "wait_rounds by_ifs = shell_fields by_ifs (seq_text 75)"

record guest_env =
  ge_mounted :: "nat \<Rightarrow> path \<Rightarrow> bool" \<comment> \<open>is the path listed as a \<^verbatim>\<open>fuse\<close> mount at this millisecond\<close>
  ge_late :: "nat \<Rightarrow> nat" \<comment> \<open>what a round begun then takes besides its sleep\<close>
  ge_agent :: bool \<comment> \<open>the agent is there and executable\<close>
  ge_script :: "nat \<Rightarrow> string \<Rightarrow> (nat \<times> nat) option" \<comment> \<open>how long a script runs, and its exit status\<close>

datatype init_event =
    Make_dir path
  | Say_no_agent
  | Launch agent_args
  | Say_mounted string path
  | Nap nat
  | Say_failed string path
  | Run_script string
  | Say_exit nat
  | Drop_to_shell
  | Power_off

type_synonym init_trace = "(nat \<times> init_event) list"

fun init_wait :: "guest_env \<Rightarrow> string \<times> path \<Rightarrow> string list \<Rightarrow> nat \<Rightarrow> init_trace \<times> nat" where
  "init_wait e m [] t = ([], t)"
| "init_wait e m (_ # rounds) t =
     (if ge_mounted e t (snd m) then ([(t, Say_mounted (fst m) (snd m))], t)
      else apfst ((#) (t, Nap 200)) (init_wait e m rounds (t + 200 + ge_late e t)))"


section \<open>The run\<close>

definition init_mount :: "guest_env \<Rightarrow> string \<times> path \<Rightarrow> nat \<Rightarrow> init_trace \<times> nat" where
  "init_mount e m t =
     (let (waited, t1) = init_wait e m (wait_rounds Comma) t
      in ([(t, Make_dir (snd m))] @
          (if ge_agent e then [] else [(t, Say_no_agent)]) @
          [(t, Launch (agent_for m))] @ waited @
          (if ge_mounted e t1 (snd m) then [] else [(t1, Say_failed (fst m) (snd m))]), t1))"

fun init_mounts :: "guest_env \<Rightarrow> (string \<times> path) list \<Rightarrow> nat \<Rightarrow> init_trace \<times> nat" where
  "init_mounts e [] t = ([], t)"
| "init_mounts e (m # ms) t =
     (let (evs, t1) = init_mount e m t
      in apfst ((@) evs) (init_mounts e ms t1))"

definition init_script :: "guest_env \<Rightarrow> bool \<Rightarrow> string \<Rightarrow> nat \<Rightarrow> init_trace" where
  "init_script e shell_mode script t =
     (t, Run_script script) #
     (case ge_script e t script of
        None \<Rightarrow> []
      | Some (d, rc) \<Rightarrow>
          (t + d, Say_exit rc) #
          (if shell_mode then [(t + d, Drop_to_shell)]
           else [(t + d, Nap 500), (t + d + 500, Power_off)]))"

definition tokimo_init :: "guest_env \<Rightarrow> string \<Rightarrow> nat \<Rightarrow> init_trace" where
  "tokimo_init e line t =
     (let (evs, t1) = init_mounts e (guest_mounts line) t
      in evs @
         (case guest_script line of
            Some (c # cs) \<Rightarrow> init_script e (guest_shell line) (c # cs) t1
          | _ \<Rightarrow> [(t1, Drop_to_shell)]))"


section \<open>One round\<close>

text \<open>
  The loop is meant to run 75 times. It stands where \<^verbatim>\<open>IFS\<close> is a comma, so that the lines of
  \<^verbatim>\<open>seq\<close> are one word.
\<close>

lemma seq_text_no_comma: "CHR '','' \<notin> set (seq_text n)"
proof -
  have "set (seq_text n) \<subseteq> \<Union> (set ` set (map show_nat [1..<n + 1])) \<union> {CHR 0x0A}"
    using set_join_with[of "[CHR 0x0A]" "map show_nat [1..<n + 1]"] by (simp add: seq_text_def)
  moreover have "CHR '','' \<notin> set (show_nat i)" for i by (rule show_nat_no_char) simp
  ultimately show ?thesis by auto
qed

lemma wait_rounds_comma: "wait_rounds Comma = [seq_text 75]"
proof -
  have "seq_text 75 \<noteq> []"
    unfolding seq_text_def by (simp add: upt_rec)
  then show ?thesis
    using split_on_no_sep[OF seq_text_no_comma] by (simp add: wait_rounds_def comma_fields_def)
qed

lemma wait_rounds_blanks: "length (wait_rounds Blanks) = 75"
  by code_simp

lemmas one_round = wait_rounds_comma init_mount_def Let_def

fun launches :: "init_trace \<Rightarrow> agent_args list" where
  "launches [] = []"
| "launches ((_, Launch a) # evs) = a # launches evs"
| "launches (_ # evs) = launches evs"

lemma launches_append [simp]: "launches (xs @ ys) = launches xs @ launches ys"
  by (induction xs rule: launches.induct) simp_all

lemma init_mount_launches: "launches (fst (init_mount e m t)) = [agent_for m]"
  by (simp add: one_round)

lemma init_mounts_launches: "launches (fst (init_mounts e ms t)) = map agent_for ms"
proof (induction ms arbitrary: t)
  case (Cons m ms)
  obtain evs t1 where "init_mount e m t = (evs, t1)" by force
  then show ?case using Cons.IH init_mount_launches[of e m t] by simp
qed simp


section \<open>Times\<close>

text \<open>How long a list of mounts takes when no round is later than \<open>d\<close> milliseconds.\<close>

definition prompt :: "guest_env \<Rightarrow> nat \<Rightarrow> bool" where
  "prompt e d \<longleftrightarrow> (\<forall>t. ge_late e t \<le> d)"

lemma init_mount_time: "prompt e d \<Longrightarrow> t \<le> snd (init_mount e m t) \<and> snd (init_mount e m t) \<le> t + (200 + d)"
  by (auto simp: one_round prompt_def)

lemma init_mounts_time:
  "prompt e d \<Longrightarrow> t \<le> snd (init_mounts e ms t) \<and> snd (init_mounts e ms t) \<le> t + (200 + d) * length ms"
proof (induction ms arbitrary: t)
  case (Cons m ms)
  obtain evs t1 where "init_mount e m t = (evs, t1)" by force
  then show ?case using Cons.IH[of t1, OF Cons.prems] init_mount_time[OF Cons.prems, of t m] by simp
qed simp

text \<open>A mount that is not there by the end of its round has failed.\<close>

lemma init_mount_failed:
  assumes "prompt e d" and "\<forall>s. t \<le> s \<longrightarrow> s \<le> t + (200 + d) \<longrightarrow> \<not> ge_mounted e s (snd m)"
  shows "\<exists>s. (s, Say_failed (fst m) (snd m)) \<in> set (fst (init_mount e m t))"
  using assms by (auto simp: one_round prompt_def)

lemma init_mounts_failed:
  assumes "prompt e d" and "m \<in> set ms"
    and "\<forall>s. t \<le> s \<longrightarrow> s \<le> t + (200 + d) * length ms \<longrightarrow> \<not> ge_mounted e s (snd m)"
  shows "\<exists>s. (s, Say_failed (fst m) (snd m)) \<in> set (fst (init_mounts e ms t))"
  using assms(2,3)
proof (induction ms arbitrary: t)
  case (Cons m' ms)
  obtain evs t1 where run: "init_mount e m' t = (evs, t1)" by force
  have t1: "t \<le> t1" "t1 \<le> t + (200 + d)" using init_mount_time[OF assms(1), of t m'] run by simp_all
  show ?case
  proof (cases "m = m'")
    case True
    then have "\<exists>s. (s, Say_failed (fst m) (snd m)) \<in> set evs"
      using init_mount_failed[OF assms(1), of t m] Cons.prems(2) run by simp
    then show ?thesis using run by auto
  next
    case False
    then show ?thesis using Cons.IH[of t1] Cons.prems run t1 by fastforce
  qed
qed simp

lemma init_mounts_silent:
  assumes "\<forall>s. t \<le> s \<longrightarrow> s \<le> t + (200 + d) * length ms \<longrightarrow> \<not> ge_mounted e s p" and "prompt e d"
  shows "(s, Say_mounted tag p) \<notin> set (fst (init_mounts e ms t))"
  using assms(1)
proof (induction ms arbitrary: t)
  case (Cons m ms)
  obtain evs t1 where run: "init_mount e m t = (evs, t1)" by force
  have t1: "t \<le> t1" "t1 \<le> t + (200 + d)" using init_mount_time[OF assms(2), of t m] run by simp_all
  have "(s, Say_mounted tag p) \<notin> set evs"
    using run Cons.prems by (auto simp: one_round split: if_splits)
  moreover have "(s, Say_mounted tag p) \<notin> set (fst (init_mounts e ms t1))"
    using Cons.IH[of t1] Cons.prems t1 by simp
  ultimately show ?case using run by simp
qed simp


section \<open>What was meant\<close>

text \<open>With the 75 rounds that the loop is written for, a mount is waited for up to 15 seconds.\<close>

lemma init_wait_patient:
  assumes "\<forall>s. due \<le> s \<longrightarrow> ge_mounted e s (snd m)" and "due \<le> t + 200 * length rounds"
  shows "ge_mounted e (snd (init_wait e m rounds t)) (snd m)"
  using assms(2)
proof (induction rounds arbitrary: t)
  case Nil
  then show ?case using assms(1) by simp
next
  case (Cons r rounds)
  have "ge_mounted e (snd (init_wait e m rounds (t + 200 + ge_late e t))) (snd m)"
    using Cons.prems by (intro Cons.IH) simp
  then show ?case by simp
qed

lemma meant_wait:
  "\<forall>s. due \<le> s \<longrightarrow> ge_mounted e s (snd m) \<Longrightarrow> due \<le> t + 15000 \<Longrightarrow>
     ge_mounted e (snd (init_wait e m (wait_rounds Blanks) t)) (snd m)"
  by (rule init_wait_patient) (simp_all add: wait_rounds_blanks)


section \<open>Properties\<close>

lemma launches_script: "launches (init_script e shell_mode script t) = []"
  by (simp add: init_script_def split: option.split)

lemma tokimo_init_launches: "launches (tokimo_init e line t) = guest_agents line"
proof -
  obtain evs t1 where run: "init_mounts e (guest_mounts line) t = (evs, t1)" by force
  then show ?thesis
    using init_mounts_launches[of e "guest_mounts line" t]
    by (simp add: tokimo_init_def guest_agents_def launches_script split: option.split list.split)
qed

text \<open>C34: The script does not wait for the mounts: the guest of a Linux sandbox starts the agent of
  every configured mount, in order, but then gives each mount a single round of the waiting
  loop. When none of them has appeared by then (200 milliseconds a mount, and what the rounds
  are late), all of them are reported as failed, none as mounted, and the configured script
  is started without them, however soon they appear afterwards.\<close>

theorem script_before_mounts:
  assumes "list_all plain_mount ms" and "list_all no_mount_words extra"
    and "filter (prefix script_key) extra = [script_key @ c # cs]" and "last_after script_key (c # cs) = None"
    and "prompt e d" and "\<And>m s. m \<in> set ms \<Longrightarrow> s \<le> t + (200 + d) * length ms \<Longrightarrow> \<not> ge_mounted e s (snd m)"
  shows "launches (tokimo_init e (linux_kernel_cmdline extra ms has_rootfs False) t) = map agent_for ms \<and>
    (\<exists>s \<le> t + (200 + d) * length ms.
       (s, Run_script (c # cs)) \<in> set (tokimo_init e (linux_kernel_cmdline extra ms has_rootfs False) t)) \<and>
    (\<forall>m \<in> set ms. \<exists>s. (s, Say_failed (fst m) (snd m)) \<in> set (tokimo_init e (linux_kernel_cmdline extra ms has_rootfs False) t)) \<and>
    (\<forall>m \<in> set ms. \<forall>s tag. (s, Say_mounted tag (snd m)) \<notin> set (tokimo_init e (linux_kernel_cmdline extra ms has_rootfs False) t))"
proof -
  let ?line = "linux_kernel_cmdline extra ms has_rootfs False"
  have mounts: "guest_mounts ?line = ms" using cmdline_mounts_rt[OF assms(1,2)] by blast
  have script: "guest_script ?line = Some (c # cs)" using cmdline_script_rt[OF assms(3,4)] by blast
  obtain evs t1 where run: "init_mounts e ms t = (evs, t1)" by force
  have trace: "tokimo_init e ?line t = evs @ init_script e (guest_shell ?line) (c # cs) t1"
    by (simp add: tokimo_init_def mounts script run)
  have "t1 \<le> t + (200 + d) * length ms" using init_mounts_time[OF assms(5), of t ms] run by simp
  moreover have "\<exists>s. (s, Say_failed (fst m) (snd m)) \<in> set evs" if "m \<in> set ms" for m
    using init_mounts_failed[OF assms(5) that, of t] assms(6)[OF that] run by simp
  moreover have "(s, Say_mounted tag (snd m)) \<notin> set evs" if "m \<in> set ms" for m s tag
    using init_mounts_silent[OF _ assms(5), of t ms "snd m" s tag] assms(6)[OF that] run by simp
  moreover have "(s, Say_mounted tag p) \<notin> set (init_script e b script u)" for s tag p b script u
    by (auto simp: init_script_def split: option.splits)
  ultimately show ?thesis
    using tokimo_init_launches[of e ?line t] unfolding trace
    by (auto simp: guest_agents_def mounts init_script_def)
qed

text \<open>Mounts that appear after half a second; the script is started at once.\<close>

definition slow_guest :: guest_env where
  "slow_guest = \<lparr>ge_mounted = (\<lambda>t p. 500 \<le> t), ge_late = (\<lambda>t. 0), ge_agent = True, ge_script = (\<lambda>t s. Some (10, 2))\<rparr>"

theorem script_before_mounts_witness:
  "\<exists>s \<le> 400. (s, Run_script ''ls /mnt/mem'') \<in> set (tokimo_init slow_guest
      (linux_kernel_cmdline [''tokimo.script=ls /mnt/mem''] [(''mem'', ''/mnt/mem''), (''h'', ''/h'')] True False) 0)"
proof -
  have hyps: "list_all plain_mount [(''mem'', ''/mnt/mem''), (''h'', ''/h'')]"
    "list_all no_mount_words [''tokimo.script=ls /mnt/mem'']"
    "filter (prefix script_key) [''tokimo.script=ls /mnt/mem''] = [script_key @ ''ls /mnt/mem'']"
    "last_after script_key ''ls /mnt/mem'' = None"
    by code_simp+
  have "prompt slow_guest 0" by (simp add: prompt_def slow_guest_def)
  moreover have "\<not> ge_mounted slow_guest s p" if "s \<le> 0 + (200 + 0) * length [(''mem'', ''/mnt/mem''), (''h'', ''/h'')]" for s p
    using that by (simp add: slow_guest_def)
  ultimately show ?thesis using script_before_mounts[OF hyps, of slow_guest 0 0 True] by auto
qed

end
