(* ===== verification/Wsl_Mount.thy ===== *)
theory Wsl_Mount
  imports Wsl_Props Agent_Boot
begin

text \<open>
  A mount of the WSL backend from one end to the other: the command that \<^verbatim>\<open>start\<close> spawns, the
  arguments that reach the agent inside the distribution, the streams it talks over, and the
  provider at their other end. How \<^verbatim>\<open>wsl.exe\<close> passes a command on and how the agent's
  arguments are parsed (by \<^verbatim>\<open>clap\<close>) are parameters. The streams carry frames, and whatever
  else the agent's process writes to its standard output.
\<close>

section \<open>Both ends\<close>

text \<open>
  \<^verbatim>\<open>wsl.exe -d D --exec P ..\<close> is documented to run the program in the distribution with the
  rest as its arguments, on the standard streams of \<^verbatim>\<open>wsl.exe\<close>.
\<close>

definition passes_exec :: "(string list \<Rightarrow> (string \<times> path \<times> string list) option) \<Rightarrow> bool" where
  "passes_exec tunnel \<longleftrightarrow>
     (\<forall>d prog args. tunnel ([''-d'', d, ''--exec'', prog] @ args) = Some (d, prog, args))"

text \<open>
  \<^verbatim>\<open>clap\<close> is documented to read \<^verbatim>\<open>--name value\<close> for an option that takes a value and \<^verbatim>\<open>--name\<close>
  for a flag; a value does not begin with a hyphen.
\<close>

definition plain_value :: "string \<Rightarrow> bool" where
  "plain_value v \<longleftrightarrow> \<not> prefix ''-'' v"

definition parses_args :: "(string list \<Rightarrow> agent_args option) \<Rightarrow> bool" where
  "parses_args parse \<longleftrightarrow> (\<forall>mp tag. plain_value mp \<longrightarrow> plain_value tag \<longrightarrow>
     parse [''--stdio'', ''--mount'', mp, ''--tag'', tag] =
       Some \<lparr>aa_port_name = None, aa_stdio = True, aa_mount = mp, aa_tag = tag\<rparr>)"

text \<open>What the task on the streams of a process serves.\<close>

definition served_by :: "('h, 'v) wsl_world \<Rightarrow> nat \<Rightarrow> 'v served option" where
  "served_by w pid = map_of (map snd (ww_tasks w)) pid"

text \<open>No task talks to a process that is not there yet.\<close>

definition task_ids :: "('h, 'v) wsl_world \<Rightarrow> bool" where
  "task_ids w \<longleftrightarrow> list_all (\<lambda>(_, p, _). p < ww_next w) (ww_tasks w)"


section \<open>What a start leaves for each mount\<close>

lemma start_agents_keeps_served:
  assumes "start_agents dir d i ms (s, w) = (r, s', w')" and "served_by w pid = Some v"
  shows "served_by w' pid = Some v"
proof -
  obtain ts where "ww_tasks w' = ww_tasks w @ ts" using start_agents_effect[OF assms(1)] by blast
  then show ?thesis using assms(2) by (simp add: served_by_def map_add_def)
qed

lemma start_agents_served:
  assumes "start_agents dir d i ms (s, w) = (Ok (), s', w')" and "task_ids w" and "m \<in> set ms"
  shows "\<exists>pid \<in> set (wx_children s'). (pid, agent_command (wc_wsl_bin (wx_wsl s)) d m) \<in> set (ww_procs w') \<and>
    served_by w' pid = Some (mount_provider m)"
  using assms
proof (induction ms arbitrary: i s w)
  case (Cons m' ms)
  let ?cmd = "agent_command (wc_wsl_bin (wx_wsl s)) d m'"
  let ?n = "ww_next w"
  let ?s1 = "s\<lparr>wx_children := wx_children s @ [?n], wx_tasks := wx_tasks s @ [?n + 1]\<rparr>"
  let ?w1 = "w\<lparr>ww_next := ?n + 1 + 1, ww_procs := ww_procs w @ [(?n, ?cmd)],
               ww_tasks := ww_tasks w @ [(?n + 1, ?n, mount_provider m')]\<rparr>"
  have rest: "start_agents dir d (i + 1) ms (?s1, ?w1) = (Ok (), s', w')"
    using Cons.prems(1) by (auto simp: Let_def split: option.splits)
  have ids: "task_ids ?w1" using Cons.prems(2) by (auto simp: task_ids_def list_all_iff)
  show ?case
  proof (cases "m = m'")
    case False
    then show ?thesis using Cons.IH[OF rest ids] Cons.prems(3) by simp
  next
    case True
    have "map_of (map snd (ww_tasks w)) ?n = None"
      using Cons.prems(2) by (force simp: map_of_eq_None_iff task_ids_def list_all_iff)
    then have "served_by ?w1 ?n = Some (mount_provider m')" by (simp add: served_by_def map_add_def)
    then have "served_by w' ?n = Some (mount_provider m')" by (rule start_agents_keeps_served[OF rest])
    moreover have "?n \<in> set (wx_children s')" "(?n, ?cmd) \<in> set (ww_procs w')"
      using start_agents_effect[OF rest] by auto
    ultimately show ?thesis using True by blast
  qed
qed simp

lemma wsl_start_served:
  assumes "wsl_start (s, w) = (Done (Ok u), s', w')" and "task_ids w" and "m \<in> set (sc_mounts (wx_config s))"
  obtains d pid where "wx_distro s' = Some d" "pid \<in> set (wx_children s')"
    "(pid, agent_command (wc_wsl_bin (wx_wsl s)) d m) \<in> set (ww_procs w')"
    "served_by w' pid = Some (mount_provider m)"
proof -
  let ?dir = "case sc_runtime_dir (wx_config s) of Some d \<Rightarrow> d | None \<Rightarrow> default_runtime_dir s w"
  let ?s1 = "s\<lparr>wx_state := Starting, wx_runtime_dir := Some ?dir\<rparr>"
  obtain rd s2 w2 where e: "ensure_distro (?s1, w) = (rd, s2, w2)" by (metis prod_cases3)
  obtain h d0 where w2: "w2 = w\<lparr>ww_host := h\<rparr>" and s2: "s2 = ?s1\<lparr>wx_distro := d0\<rparr>"
      and named: "\<forall>name. rd = Ok name \<longrightarrow> wx_distro s2 = Some name"
    using ensure_distro_world[OF e] by (elim exE conjE) (rule that)
  have ok: "wx_state s = Created" "ww_mkdir_fails w ?dir = None" "\<exists>d. rd = Ok d"
    using assms(1) e by (auto simp: wsl_start_def Let_def split: if_splits option.splits result.splits)
  then obtain d where d: "rd = Ok d" by blast
  obtain s3 where a: "start_agents ?dir d 0 (sc_mounts (wx_config s2)) (s2, w2) = (Ok (), s3, w')"
      and s': "s' = s3\<lparr>wx_state := Running\<rparr>"
    using assms(1) e ok(1,2) d by (auto simp: wsl_start_def Let_def split: result.splits prod.splits)
  have "task_ids w2" using assms(2) w2 by (simp add: task_ids_def)
  moreover have "m \<in> set (sc_mounts (wx_config s2))" using assms(3) s2 by simp
  ultimately obtain pid where "pid \<in> set (wx_children s3)" "served_by w' pid = Some (mount_provider m)"
      "(pid, agent_command (wc_wsl_bin (wx_wsl s2)) d m) \<in> set (ww_procs w')"
    using start_agents_served[OF a] by blast
  moreover have "wx_distro s3 = Some d" using start_agents_effect[OF a] named d by auto
  ultimately show ?thesis using that[of d pid] s' s2 by simp
qed


section \<open>Other output of the agent\<close>

text \<open>
  The agent's standard output is the stream of its requests. \<^verbatim>\<open>run\<close> also installs a
  subscriber for log records, which is documented to write to standard output when it is
  not given another writer: a record is bytes in the stream.
\<close>

definition log_record :: "byte list \<Rightarrow> 's conn \<Rightarrow> 's conn" where
  "log_record line k = k\<lparr>cn_up := snd (write_all line (cn_up k))\<rparr>"

lemma be_bytes_top: "drop_bit 24 (from_be_bytes [a, b, d, e]) = ucast a"
  by (rule bit_word_eqI) (auto simp: from_be_bytes_def bit_simps dest: bit_imp_le_length)

lemma first_byte_large:
  assumes "5 \<le> unat (hd bs)" and "4 \<le> length bs"
  shows "max_frame < unat (from_be_bytes (take 4 bs))"
proof -
  obtain a b d e where bs: "take 4 bs = [a, b, d, e]" "hd bs = a"
    using assms(2) by (auto simp: Suc_le_length_iff numeral_eq_Suc)
  have "unat (from_be_bytes [a, b, d, e]) div 2 ^ 24 = unat (ucast a :: u32)"
    unfolding be_bytes_top[of a b d e, symmetric] by (simp only: unat_drop_bit_eq drop_bit_eq_div[where ?'a = nat])
  also have "\<dots> = unat a"
    using unsigned_less[where 'a = nat, of a] by (simp add: unsigned_ucast_eq take_bit_nat_eq_self_iff)
  finally show ?thesis using assms(1) bs by (simp add: max_frame_def)
qed


text \<open>A connection on which a record is ahead of any later request, or that has ended of it.\<close>

definition spoilt :: "byte list \<Rightarrow> 's \<Rightarrow> 's conn \<Rightarrow> bool" where
  "spoilt line s k \<longleftrightarrow> k = log_record line (insync s) \<or> closed_conn s [] k"

lemma spoilt_call:
  assumes "spoilt line s k" and "5 \<le> unat (hd line)" and "4 \<le> length line"
  shows "\<exists>e k'. client_call c V req k = (Some (Err e), k') \<and> spoilt line s k'"
proof (cases "closed_conn s [] k")
  case True
  from client_call_closed[OF this, of c V req] show ?thesis by (auto simp: spoilt_def)
next
  case False
  let ?w = "\<lparr>wc_pending = line, wc_room = None\<rparr>"
  have k: "k = (insync s)\<lparr>cn_up := ?w\<rparr>"
    using assms(1) False by (simp add: spoilt_def log_record_def insync_def idle_def write_all_def)
  then have same: "spoilt line s k" by (simp add: spoilt_def log_record_def insync_def idle_def write_all_def)
  show ?thesis
  proof (rule write_frame_unbounded[of ?w "enc_req c" req])
    show "wc_room ?w = None" by simp
  next
    fix e assume "write_frame (enc_req c) req ?w = (Err e, ?w)"
    then have "client_call c V req k = (Some (Err e), k)" by (simp add: k client_call_def insync_def)
    then show ?thesis using same by blast
  next
    fix b assume wf: "write_frame (enc_req c) req ?w = (Ok (), \<lparr>wc_pending = wc_pending ?w @ frame_bytes b, wc_room = None\<rparr>)"
    have "\<not> length (line @ frame_bytes b) < 4" "take 4 (line @ frame_bytes b) = take 4 line"
      using assms(3) by simp_all
    then obtain e rest where "read_frame (dec_req c) False (line @ frame_bytes b) = Failed e rest"
      using first_byte_large[OF assms(2,3)] by (auto simp: read_frame_def Let_def)
    then have "serve c V False (line @ frame_bytes b) s idle = (False, rest, s, idle)"
      by (subst serve.simps) simp
    then show ?thesis using wf
      by (auto simp: k client_call_def insync_def server_turn_def Let_def read_frame_def idle_def closed_conn_def spoilt_def)
  qed
qed

lemma spoilt_state: "spoilt line s k \<Longrightarrow> cn_state k = s"
  by (auto simp: spoilt_def log_record_def insync_def closed_conn_def)

lemma spoilt_calls:
  assumes "5 \<le> unat (hd line)" and "4 \<le> length line"
  shows "spoilt line s k \<Longrightarrow>
    list_all call_failed (fst (call_all c V rs k)) \<and> cn_state (snd (call_all c V rs k)) = s"
proof (induction rs arbitrary: k)
  case Nil
  then show ?case by (simp add: spoilt_state)
next
  case (Cons r rs)
  obtain e k' where k': "client_call c V r k = (Some (Err e), k')" "spoilt line s k'"
    using spoilt_call[OF Cons.prems assms] by blast
  show ?case using Cons.IH[OF k'(2)] k'(1) by (simp add: split_beta call_failed_def)
qed


section \<open>Properties\<close>

text \<open>C19: A mount configured for WSL is that mount in the distribution: after a successful start there
  is a process whose command runs the agent in the sandbox's distribution and whose streams
  are served by the provider of the mount; the arguments that reach the agent make it come
  up on the configured path, and any kernel requests then get that provider's own replies.\<close>

theorem wsl_mount_end_to_end:
  assumes "wsl_start (s, w) = (Done (Ok u), s', w')" and "task_ids w" and "m \<in> set (sc_mounts (wx_config s))"
    and "passes_exec tunnel" and "parses_args parse" and "plain_value (ms_guest_path m)" and "plain_value (ms_tag m)"
    and "carries c (vfs_of (mount_provider m)) (ReqHello protocol_version) st"
    and "run_carried (carries c (vfs_of (mount_provider m))) (vfs_of (mount_provider m)) full ops (tokimo_fuse_new, st)"
  shows "\<exists>d pid cmd argv mnt. wx_distro s' = Some d \<and> pid \<in> set (wx_children s') \<and> (pid, cmd) \<in> set (ww_procs w') \<and>
    served_by w' pid = Some (mount_provider m) \<and>
    tunnel (pc_args cmd) = Some (d, ''/sbin/tokimo-agent'', argv) \<and>
    agent_main True parse (rpc_call c (vfs_of (mount_provider m))) (insync st) dial argv = Ran (Some (Ok mnt)) \<and>
    am_point mnt = ms_guest_path m \<and> am_fsname mnt = ''tokimo-'' @ ms_tag m \<and>
    fuse_run (client_vfs (rpc_call c (vfs_of (mount_provider m)))) full ops (am_fuse mnt, am_conn mnt) =
      apsnd (apsnd insync) (fuse_run (vfs_of (mount_provider m)) full ops (tokimo_fuse_new, st))"
proof -
  let ?V = "vfs_of (mount_provider m)"
  let ?a = "\<lparr>aa_port_name = None, aa_stdio = True, aa_mount = ms_guest_path m, aa_tag = ms_tag m\<rparr>"
  obtain d pid where p: "wx_distro s' = Some d" "pid \<in> set (wx_children s')"
    "(pid, agent_command (wc_wsl_bin (wx_wsl s)) d m) \<in> set (ww_procs w')" "served_by w' pid = Some (mount_provider m)"
    by (rule wsl_start_served[OF assms(1-3)])
  let ?argv = "[''--stdio'', ''--mount'', ms_guest_path m, ''--tag'', ms_tag m]"
  have exec: "tunnel (pc_args (agent_command (wc_wsl_bin (wx_wsl s)) d m)) = Some (d, ''/sbin/tokimo-agent'', ?argv)"
    using assms(4)[unfolded passes_exec_def, rule_format, of d "''/sbin/tokimo-agent''" ?argv]
    by (simp add: agent_command_def plain_command_def)
  have parsed: "parse ?argv = Some ?a" using assms(5-7) by (simp add: parses_args_def)
  have up: "agent_main True parse (rpc_call c ?V) (insync st) dial ?argv =
      Ran (Some (Ok \<lparr>am_fuse = tokimo_fuse_new, am_conn = insync st,
        am_point = ms_guest_path m, am_fsname = ''tokimo-'' @ ms_tag m, am_allow_other = True\<rparr>))"
    using frames.hello[OF assms(8)] parsed by (simp add: agent_main_def run_argv_def agent_run_def)
  note run = vfs_transport.fuse_run_client[OF frames.vfs_transport_axioms assms(9)]
  show ?thesis
    by (intro exI conjI, rule p(1), rule p(2), rule p(3), rule p(4), rule exec, rule up)
      (use run in simp_all)
qed

text \<open>A \<^verbatim>\<open>wsl.exe\<close> and a parser that do as documented.\<close>

definition sample_tunnel :: "string list \<Rightarrow> (string \<times> path \<times> string list) option" where
  "sample_tunnel args = Some (args ! 1, args ! 3, drop 4 args)"

definition sample_parse :: "string list \<Rightarrow> agent_args option" where
  "sample_parse args =
     (if length args = 5 \<and> args ! 0 = ''--stdio''
      then Some \<lparr>aa_port_name = None, aa_stdio = True, aa_mount = args ! 2, aa_tag = args ! 4\<rparr> else None)"

theorem wsl_mount_end_to_end_witness:
  "\<exists>s' w' d pid cmd argv mnt. wsl_start (sample_wsl, sample_wsl_world (utf16_bytes (crlf_lines sample_listing)) True) =
       (Done (Ok ()), s', w') \<and> pid \<in> set (wx_children s') \<and> (pid, cmd) \<in> set (ww_procs w') \<and>
     served_by w' pid = Some (ServeVfs 0) \<and>
     sample_tunnel (pc_args cmd) = Some (d, ''/sbin/tokimo-agent'', argv) \<and>
     agent_main True sample_parse (rpc_call boot_codec memory_vfs) (insync sample_mem) (\<lambda>_. None) argv = Ran (Some (Ok mnt)) \<and>
     am_point mnt = ''/mnt/mem''"
proof -
  obtain s' w' where start: "wsl_start (sample_wsl, sample_wsl_world (utf16_bytes (crlf_lines sample_listing)) True) =
      (Done (Ok ()), s', w')"
    using sample_wsl_start by blast
  let ?m = "VfsMount ''/mnt/mem'' 0 False ''mem'' :: nat mount_spec"
  have ids: "task_ids (sample_wsl_world (utf16_bytes (crlf_lines sample_listing)) True)"
    by (simp add: task_ids_def sample_wsl_world_def)
  have m: "?m \<in> set (sc_mounts (wx_config sample_wsl))" by (simp add: sample_wsl_mounts)
  have docs: "passes_exec sample_tunnel" "parses_args sample_parse"
    by (simp_all add: passes_exec_def sample_tunnel_def parses_args_def sample_parse_def)
  have plain: "plain_value (ms_guest_path ?m)" "plain_value (ms_tag ?m)" by (simp_all add: plain_value_def)
  have hello: "carries boot_codec memory_vfs (ReqHello protocol_version) sample_mem"
    by (simp add: carries_def fits_frame_def boot_codec_def max_frame_def protocol_version_def)
  have ops: "run_carried (carries boot_codec memory_vfs) memory_vfs roomy [] (tokimo_fuse_new, sample_mem)"
    by simp
  show ?thesis
    using wsl_mount_end_to_end[OF start ids m docs plain, where vfs_of = "\<lambda>_. memory_vfs" and dial = "\<lambda>_. None", OF hello ops] start
    by simp (elim exE conjE, intro exI conjI, assumption+)
qed

text \<open>C33: One log record ends the mount: bytes that reach the agent's standard output after it has
  come up, at least four and the first not below 5 (as in any text), are taken for the size
  of a frame that is too large. The server closes the connection; every later call fails,
  the provider is never reached again, and the root of the mount answers \<^verbatim>\<open>EIO\<close>.\<close>

theorem stray_output_ends_mount:
  assumes "carries c V (ReqHello protocol_version) st"
    and "5 \<le> unat (hd line)" and "4 \<le> length line"
  shows "\<exists>mnt. agent_run (rpc_call c V) (insync st) dial \<lparr>aa_port_name = port, aa_stdio = True, aa_mount = mp, aa_tag = tag\<rparr> =
       Some (Ok mnt) \<and>
     (\<forall>rs. list_all call_failed (fst (call_all c V rs (log_record line (am_conn mnt)))) \<and>
       cn_state (snd (call_all c V rs (log_record line (am_conn mnt)))) = st) \<and>
     (\<forall>name. fst (fuse_lookup (client_vfs (rpc_call c V)) 1 name (am_fuse mnt, log_record line (am_conn mnt))) = RError EIO)"
proof -
  let ?mnt = "\<lparr>am_fuse = tokimo_fuse_new, am_conn = insync st, am_point = mp, am_fsname = ''tokimo-'' @ tag, am_allow_other = True\<rparr>"
  let ?k = "log_record line (insync st)"
  have up: "agent_run (rpc_call c V) (insync st) dial \<lparr>aa_port_name = port, aa_stdio = True, aa_mount = mp, aa_tag = tag\<rparr> =
      Some (Ok ?mnt)"
    using frames.hello[OF assms(1)] by (simp add: agent_run_def)
  have bad: "spoilt line st ?k" by (simp add: spoilt_def)
  have "\<forall>req. \<exists>e k'. rpc_call c V req ?k = (Err e, k')"
  proof
    fix req
    obtain e k' where "client_call c V req ?k = (Some (Err e), k')" using spoilt_call[OF bad assms(2,3)] by blast
    then show "\<exists>e k'. rpc_call c V req ?k = (Err e, k')" by (simp add: rpc_call_def)
  qed
  then have "\<exists>e k'. client_stat (rpc_call c V) p ?k = (Err (Io e), k')" for p
    unfolding client_stat_def by (elim allE[of _ "ReqStat p"] exE) simp
  then have "fst (fuse_lookup (client_vfs (rpc_call c V)) 1 name (tokimo_fuse_new, ?k)) = RError EIO" for name
  proof -
    obtain e k' where "client_stat (rpc_call c V) (join root_path name) ?k = (Err (Io e), k')"
      using \<open>\<And>p. \<exists>e k'. client_stat (rpc_call c V) p ?k = (Err (Io e), k')\<close> by blast
    then show ?thesis by (simp add: fuse_lookup_def path_for_def Let_def)
  qed
  then show ?thesis using up spoilt_calls[OF assms(2,3) bad] by (intro exI[of _ ?mnt]) simp
qed

text \<open>A record of the level that is on by default, as a subscriber prints it.\<close>

theorem stray_output_ends_mount_witness:
  "\<exists>mnt. agent_run (rpc_call boot_codec memory_vfs) (insync sample_mem) (\<lambda>_. None)
       \<lparr>aa_port_name = None, aa_stdio = True, aa_mount = ''/mnt/mem'', aa_tag = ''mem''\<rparr> = Some (Ok mnt) \<and>
     fst (fuse_lookup (client_vfs (rpc_call boot_codec memory_vfs)) 1 ''f''
       (am_fuse mnt, log_record (string_bytes ''INFO mounted'') (am_conn mnt))) = RError EIO"
proof -
  have hello: "carries boot_codec memory_vfs (ReqHello protocol_version) sample_mem"
    by (simp add: carries_def fits_frame_def boot_codec_def max_frame_def protocol_version_def)
  have "5 \<le> unat (hd (string_bytes ''INFO mounted''))" "4 \<le> length (string_bytes ''INFO mounted'')"
    by (simp_all add: string_bytes_def)
  from stray_output_ends_mount[OF hello this, of "\<lambda>_. None" None "''/mnt/mem''" "''mem''"] show ?thesis by blast
qed

end
