(* ===== verification/Mac_Mount.thy ===== *)
theory Mac_Mount
  imports Mac_Props Linux_Mount
begin

text \<open>
  A mount of the macOS backend from one end to the other: the socket pair that \<^verbatim>\<open>start\<close> made
  for it, the port of the machine, the agent that the guest's init launches for it, and the
  provider at the host end of the pair. Which descriptor a device of the guest is attached
  to is a parameter, as it is for QEMU.
\<close>

section \<open>Both ends\<close>

text \<open>The framework is documented to show a port of a console device in the guest by its
  name, attached to the file handle it was given.\<close>

definition vz_attaches :: "vz_config \<Rightarrow> (nat \<Rightarrow> guest_devs) \<Rightarrow> (path \<Rightarrow> nat option) \<Rightarrow> bool" where
  "vz_attaches c devs wire \<longleftrightarrow>
     (\<forall>port \<in> set (vz_ports c). \<forall>n dev. names_port (devs n) (mp_name port) dev \<longrightarrow> wire dev = Some (mp_fd port))"

text \<open>What serves the host end of a socket pair.\<close>

definition served_pair :: "('m, 'v) mac_world \<Rightarrow> nat \<Rightarrow> 'v served option" where
  "served_pair w fd = map_of (mw_tasks w) fd"

definition pair_ids :: "('m, 'v) mac_world \<Rightarrow> bool" where
  "pair_ids w \<longleftrightarrow> list_all (\<lambda>(fd, _). fd < mw_next w) (mw_tasks w)"

definition open_console :: "('m, 'v) mac_world \<Rightarrow> 's \<Rightarrow> (path \<Rightarrow> nat option) \<Rightarrow> path \<Rightarrow> ('s conn, anyhow) result" where
  "open_console w s wire dev =
     (case Option.bind (wire dev) (served_pair w) of
        None \<Rightarrow> Err ''no such device''
      | Some _ \<Rightarrow> Ok (insync s))"


section \<open>What a start leaves for each mount\<close>

lemma map_of_zip_upt:
  "i < length xs \<Longrightarrow> map_of (zip [n..<n + length xs] xs) (n + i) = Some (xs ! i)"
  using map_of_zip_nth[of "[n..<n + length xs]" xs i] by simp

lemma mac_start_served:
  assumes start: "mac_start z (s, w) = (Done (Ok u), s', w')" and ids: "pair_ids w"
    and i: "i < length (sc_mounts (mx_config s))"
    and plain: "list_all no_mount_words (sc_extra_cmdline (mx_config s))"
      "list_all plain_mount (map (\<lambda>m. (ms_tag m, ms_guest_path m)) (sc_mounts (mx_config s)))"
  obtains inner c th fd where "mx_inner s' = Some inner" "mw_threads w' (mi_thread inner) = Some (c, th)"
    "guest_mounts (vz_cmdline c) = map (\<lambda>m. (ms_tag m, ms_guest_path m)) (sc_mounts (mx_config s))"
    "\<lparr>mp_name = ''tokimo.rpc.'' @ ms_tag (sc_mounts (mx_config s) ! i), mp_fd = fd\<rparr> \<in> set (vz_ports c)"
    "served_pair w' fd = Some (mount_provider (sc_mounts (mx_config s) ! i))"
proof -
  let ?ms = "sc_mounts (mx_config s)" and ?n = "mw_next w"
  let ?ports = "map2 (\<lambda>p m. \<lparr>mp_name = ''tokimo.rpc.'' @ ms_tag m, mp_fd = p\<rparr>) [?n..<?n + length ?ms] ?ms"
  obtain inner img serial m where eff: "mx_inner s' = Some inner"
    "mw_threads w' (mi_thread inner) = Some
       (mac_config (mx_config s) img ?ports (map (\<lambda>m. (ms_tag m, ms_guest_path m)) ?ms) serial,
        \<lparr>vt_vm = m, vt_stopped = False, vt_waiters = []\<rparr>)"
    "mw_tasks w' = mw_tasks w @ zip [?n..<?n + length ?ms] (map mount_provider ?ms)"
    by (rule mac_start_ok[OF start])
  let ?c = "mac_config (mx_config s) img ?ports (map (\<lambda>m. (ms_tag m, ms_guest_path m)) ?ms) serial"
  have "guest_mounts (vz_cmdline ?c) = map (\<lambda>m. (ms_tag m, ms_guest_path m)) ?ms"
    using cmdline_mounts_rt[OF plain(2,1)] by (simp add: mac_config_def)
  moreover have "?ports ! i = \<lparr>mp_name = ''tokimo.rpc.'' @ ms_tag (?ms ! i), mp_fd = ?n + i\<rparr>" using i by simp
  then have "\<lparr>mp_name = ''tokimo.rpc.'' @ ms_tag (?ms ! i), mp_fd = ?n + i\<rparr> \<in> set (vz_ports ?c)"
    using i nth_mem[of i ?ports] by (simp add: mac_config_def)
  moreover have "map_of (mw_tasks w) (?n + i) = None"
    using ids by (force simp: map_of_eq_None_iff pair_ids_def list_all_iff)
  then have "served_pair w' (?n + i) = Some (mount_provider (?ms ! i))"
    using map_of_zip_upt[of i "map mount_provider ?ms" ?n] i by (simp add: served_pair_def eff(3) map_add_def)
  ultimately show ?thesis using that[OF eff(1,2)] by blast
qed


section \<open>Properties\<close>

text \<open>C18: A mount configured for macOS is that mount in the guest: after a successful start the
  guest's init launches one agent per mount, in order, from the command line the machine
  was given; an agent that finds the port of its mount comes up on the configured path,
  connected to the provider of its own mount, whose replies the guest's kernel then gets.\<close>

theorem mac_mount_end_to_end:
  assumes "mac_start z (s, w) = (Done (Ok u), s', w')" and "pair_ids w"
    and "list_all no_mount_words (sc_extra_cmdline (mx_config s))"
    and "list_all plain_mount (map (\<lambda>m. (ms_tag m, ms_guest_path m)) (sc_mounts (mx_config s)))"
    and "\<forall>t vc th. map_option mi_thread (mx_inner s') = Some t \<longrightarrow> mw_threads w' t = Some (vc, th) \<longrightarrow> vz_attaches vc devs wire"
    and "i < length (sc_mounts (mx_config s))" and "m = sc_mounts (mx_config s) ! i"
    and "wait_port fuel devs clock (''tokimo.rpc.'' @ ms_tag m) 0 = Some (Ok dev)"
    and "carries c (vfs_of (mount_provider m)) (ReqHello protocol_version) st"
    and "run_carried (carries c (vfs_of (mount_provider m))) (vfs_of (mount_provider m)) full ops (tokimo_fuse_new, st)"
  shows "\<exists>inner vc th mnt. mx_inner s' = Some inner \<and> mw_threads w' (mi_thread inner) = Some (vc, th) \<and>
    length (guest_agents (vz_cmdline vc)) = length (sc_mounts (mx_config s)) \<and>
    Option.bind (wire dev) (served_pair w') = Some (mount_provider m) \<and>
    agent_run (rpc_call c (vfs_of (mount_provider m))) k
      (dial_port devs clock (open_console w' st wire) fuel) (guest_agents (vz_cmdline vc) ! i) = Some (Ok mnt) \<and>
    am_point mnt = ms_guest_path m \<and> am_fsname mnt = ''tokimo-'' @ ms_tag m \<and>
    fuse_run (client_vfs (rpc_call c (vfs_of (mount_provider m)))) full ops (am_fuse mnt, am_conn mnt) =
      apsnd (apsnd insync) (fuse_run (vfs_of (mount_provider m)) full ops (tokimo_fuse_new, st))"
proof -
  let ?V = "vfs_of (mount_provider m)"
  obtain inner vc th fd where p: "mx_inner s' = Some inner" "mw_threads w' (mi_thread inner) = Some (vc, th)"
    and g: "guest_mounts (vz_cmdline vc) = map (\<lambda>m. (ms_tag m, ms_guest_path m)) (sc_mounts (mx_config s))"
    and port: "\<lparr>mp_name = ''tokimo.rpc.'' @ ms_tag m, mp_fd = fd\<rparr> \<in> set (vz_ports vc)"
      "served_pair w' fd = Some (mount_provider m)"
    by (rule mac_start_served[OF assms(1,2,6,3,4), folded assms(7)])
  let ?a = "guest_agents (vz_cmdline vc) ! i"
  have a: "?a = \<lparr>aa_port_name = Some (''tokimo.rpc.'' @ ms_tag m), aa_stdio = False, aa_mount = ms_guest_path m, aa_tag = ms_tag m\<rparr>"
    and len: "length (guest_agents (vz_cmdline vc)) = length (sc_mounts (mx_config s))"
    using g assms(6,7) by (simp_all add: guest_agents_def agent_for_def)
  obtain n where "names_port (devs n) (''tokimo.rpc.'' @ ms_tag m) dev" using wait_port_names[OF assms(8)] by blast
  then have "wire dev = Some fd"
    using assms(5) p port(1) unfolding vz_attaches_def by fastforce
  then have wired: "Option.bind (wire dev) (served_pair w') = Some (mount_provider m)"
    and opens: "open_console w' st wire dev = Ok (insync st)"
    using port(2) by (simp_all add: open_console_def)
  have up: "agent_run (rpc_call c ?V) k (dial_port devs clock (open_console w' st wire) fuel) ?a =
      Some (Ok \<lparr>am_fuse = tokimo_fuse_new, am_conn = insync st, am_point = ms_guest_path m,
        am_fsname = ''tokimo-'' @ ms_tag m, am_allow_other = True\<rparr>)"
    unfolding a using opens assms(8) frames.hello[OF assms(9)] by (simp add: agent_run_def dial_port_def)
  note run = vfs_transport.fuse_run_client[OF frames.vfs_transport_axioms assms(10)]
  show ?thesis
    by (intro exI conjI, rule p(1), rule p(2), rule len, rule wired, rule up) (use run in simp_all)
qed

theorem mac_mount_end_to_end_witness:
  "\<exists>s' w' inner c th mnt. mac_start (sample_vz StopOk) (sample_mac, sample_mac_world (\<lambda>_. None)) = (Done (Ok ()), s', w') \<and>
     mx_inner s' = Some inner \<and> mw_threads w' (mi_thread inner) = Some (c, th) \<and>
     agent_run (rpc_call boot_codec memory_vfs) (insync sample_mem)
       (dial_port mem_devs (\<lambda>k. 200 * k) (open_console w' sample_mem (\<lambda>_. Some 6)) 1) (guest_agents (vz_cmdline c) ! 1) = Some (Ok mnt) \<and>
     am_point mnt = ''/mnt/mem''"
proof -
  obtain s' w' where start: "mac_start (sample_vz StopOk) (sample_mac, sample_mac_world (\<lambda>_. None)) = (Done (Ok ()), s', w')"
    using sample_mac_start by blast
  have plain: "list_all no_mount_words (sc_extra_cmdline (mx_config sample_mac))"
    "list_all plain_mount (map (\<lambda>m. (ms_tag m, ms_guest_path m)) (sc_mounts (mx_config sample_mac)))"
    unfolding sample_mac_config by code_simp+
  have ids: "pair_ids (sample_mac_world (\<lambda>_. None))" by (simp add: pair_ids_def sample_mac_world_def)
  have att1: "vz_attaches c mem_devs (\<lambda>_. Some 6)"
    if "mw_threads w' t = Some (c, th)" "map_option mi_thread (mx_inner s') = Some t" for t c th
  proof -
    have "vz_ports c = map2 (\<lambda>p m. \<lparr>mp_name = ''tokimo.rpc.'' @ ms_tag m, mp_fd = p\<rparr>)
        [mw_next (sample_mac_world (\<lambda>_. None))..<mw_next (sample_mac_world (\<lambda>_. None)) + length (sc_mounts (mx_config sample_mac))]
        (sc_mounts (mx_config sample_mac))"
      by (rule mac_start_ok[OF start]) (use that in \<open>auto simp: mac_config_def\<close>)
    moreover have "[5..<7] = [5, 6 :: nat]" by (simp add: upt_rec)
    ultimately have "vz_ports c = [\<lparr>mp_name = ''tokimo.rpc.h'', mp_fd = 5\<rparr>, \<lparr>mp_name = ''tokimo.rpc.mem'', mp_fd = 6\<rparr>]"
      by (simp add: sample_mac_config sample_mac_world_def)
    then show ?thesis using mem_devs_names[of _ "''h''"] by (simp add: vz_attaches_def)
  qed
  have att: "\<forall>t c th. map_option mi_thread (mx_inner s') = Some t \<longrightarrow> mw_threads w' t = Some (c, th) \<longrightarrow>
      vz_attaches c mem_devs (\<lambda>_. Some 6)"
    using att1 by blast
  let ?m = "VfsMount ''/mnt/mem'' 0 False ''mem'' :: nat mount_spec"
  have m: "1 < length (sc_mounts (mx_config sample_mac))" "?m = sc_mounts (mx_config sample_mac) ! 1"
    by (simp_all add: sample_mac_config)
  have found: "wait_port 1 mem_devs (\<lambda>k. 200 * k) (''tokimo.rpc.'' @ ms_tag ?m) 0 = Some (Ok ''/dev/virtio-ports/tokimo.rpc.mem'')"
    by (simp add: resolve_virtio_port_def mem_devs_def Let_def)
  have hello: "carries boot_codec memory_vfs (ReqHello protocol_version) sample_mem"
    by (simp add: carries_def fits_frame_def boot_codec_def max_frame_def protocol_version_def)
  have ops: "run_carried (carries boot_codec memory_vfs) memory_vfs roomy [] (tokimo_fuse_new, sample_mem)" by simp
  obtain inner c th mnt where "mx_inner s' = Some inner" "mw_threads w' (mi_thread inner) = Some (c, th)"
     "agent_run (rpc_call boot_codec memory_vfs) (insync sample_mem)
       (dial_port mem_devs (\<lambda>k. 200 * k) (open_console w' sample_mem (\<lambda>_. Some 6)) 1) (guest_agents (vz_cmdline c) ! 1) = Some (Ok mnt)"
     "am_point mnt = ms_guest_path ?m"
    using mac_mount_end_to_end[where vfs_of = "\<lambda>_. memory_vfs", OF start ids plain att m found hello ops] by blast
  then show ?thesis using start by (intro exI conjI) (assumption+, simp)
qed

end
