(* ===== verification/Spec2Isabelle.thy ===== *)
theory Spec2Isabelle
  imports Demo_Files Serve_Many Host_Conc_Props Duplex_Props Facade Guest_Init Wsl_Mount Mac_Mount
begin

text \<open>
  A verification library for \<^verbatim>\<open>tokimo-kvm\<close>: sandboxes in small virtual machines whose
  guests see host directories, or file systems written by the user, as FUSE mounts.


  The program's parts.

  A provider implements the trait \<^verbatim>\<open>TokimoVfs\<close> (\<^verbatim>\<open>vm-core/src/lib.rs\<close>): \<^verbatim>\<open>HostFs\<close> over a host
  directory, or a user's own, of which the example \<^verbatim>\<open>MemoryVfs\<close> is one. On the host a
  server (\<^verbatim>\<open>vm-rpc/src/server.rs\<close>) runs the requests of one connection on a provider. In the
  guest an agent (\<^verbatim>\<open>vm-agent/src/imp.rs\<close>) finds its virtio-serial port or uses its standard
  streams, shakes hands (\<^verbatim>\<open>client.rs\<close>), mounts a FUSE file system and turns each kernel request
  into RPC calls. A backend (\<^verbatim>\<open>vm-linux\<close>, \<^verbatim>\<open>vm-macos\<close>, \<^verbatim>\<open>vm-wsl\<close>) starts the machine with one
  connection per mount and tells the guest of the mounts on the kernel command line.


  Theories and what they model.

  \<open>Prelude\<close>: integers by width, \<open>result\<close>, splitting, decimal numbers, big-endian bytes.
  \<open>Paths\<close>: \<^verbatim>\<open>std::path\<close> (components, join, parent, \<^verbatim>\<open>starts_with\<close>) on Unix.
  \<open>Rust_Text\<close>: lossy UTF-16 and UTF-8, \<^verbatim>\<open>lines\<close>, \<^verbatim>\<open>trim\<close>.

  \<open>Vfs\<close>: the vocabulary of \<^verbatim>\<open>TokimoVfs\<close>, the trait as a record of methods, and the two
  interfaces \<open>vfs_provider\<close> (an invariant every method keeps) and \<open>readonly_provider\<close>.
  \<open>Host_Os\<close>, \<open>Host_Os_Laws\<close>: the system calls \<^verbatim>\<open>HostFs\<close> uses, on a tree of nodes with symbolic
  links, and what each changes. \<open>Host_Fs\<close>, \<open>Host_Fs_Laws\<close>, \<open>Host_Fs_Props\<close>: \<^verbatim>\<open>HostFs\<close> with its
  \<^verbatim>\<open>resolve\<close>, and the facts about each method. \<open>Memory_Vfs\<close>, \<open>Memory_Lock\<close>:
  \<^verbatim>\<open>examples/vfs_memory_demo.rs\<close>, its methods and the same methods cut at their changes, with
  the mutex they hold and the ways in which they panic.

  \<open>Rpc_Wire\<close>: frames and messages (\<^verbatim>\<open>frame.rs\<close>, \<^verbatim>\<open>proto.rs\<close>) over byte channels. \<open>Rpc\<close>: \<^verbatim>\<open>handle\<close>
  and \<^verbatim>\<open>serve_stream\<close>, \<^verbatim>\<open>Client::call\<close> and the client's methods. \<open>Rpc_Laws\<close>: one call on a
  connection in step, the interface \<open>vfs_transport\<close> of a caller that carries requests to a
  provider, interpreted on the frames (\<open>frames\<close>). \<open>Rpc_Props\<close>: transparency, chunking, sizes.
  \<open>Host_Share\<close>: a shared directory behind the server.

  \<open>Agent\<close>: \<^verbatim>\<open>TokimoFuse\<close>, its tables and its fifteen handlers. \<open>Agent_Laws\<close>, \<open>Agent_Props\<close>: the
  inode and handle tables, replies, directory reads. \<open>End_To_End\<close>: agent, RPC, server and
  provider together. \<open>Agent_Boot\<close>: the port search, the wait for it, and \<^verbatim>\<open>run\<close>,
  and \<^verbatim>\<open>main\<close>.

  Concurrency. \<open>Serve_Many\<close>: the servers of many connections on one \<^verbatim>\<open>MemoryVfs\<close>, one step at a
  time: reading a request, taking the mutex, each step of the method, writing the response. \<open>Host_Conc\<close>, \<open>Host_Conc_Laws\<close>, \<open>Host_Conc_Props\<close>: the methods of \<^verbatim>\<open>HostFs\<close> taken
  apart at each system call that takes a path, and their interleavings.

  Polled streams. \<open>Duplex\<close>, \<open>Duplex_Laws\<close>, \<open>Duplex_Props\<close>: \<^verbatim>\<open>StdioDuplex\<close> and \<^verbatim>\<open>ChildDuplex\<close>, and
  frames, server and client call as tasks that are polled on them; the interface \<open>duplex\<close>
  (two directions that do not touch each other) is interpreted on both.

  \<open>Config\<close>: errors, states, the image search, \<^verbatim>\<open>SandboxConfig\<close> and its builder. \<open>Cmdline\<close>: the
  kernel command line and its parsing by the guest's init. \<open>Sandbox\<close>: the life cycle of the
  trait \<^verbatim>\<open>Sandbox\<close> as the interfaces \<open>sandbox_life\<close> and \<open>sandbox_backend\<close>, and what a mount is
  served by. \<open>Qmp\<close>, \<open>Qemu\<close>: the control connection and the command of QEMU. \<open>Linux_Backend\<close>,
  \<open>Linux_Laws\<close>, \<open>Linux_Props\<close>: \<^verbatim>\<open>QemuSandbox\<close>. \<open>Wsl_Text\<close>, \<open>Wsl_Backend\<close>, \<open>Wsl_Props\<close>:
  \<^verbatim>\<open>WslSandbox\<close>. \<open>Mac_Vm\<close>: building the machine and the worker thread that owns it. \<open>Mac_Backend\<close>,
  \<open>Mac_Props\<close>: \<^verbatim>\<open>Inner\<close>, \<^verbatim>\<open>MacosSandbox\<close> and its stand-in. \<open>Backends\<close>: what they share.
  \<open>Linux_Mount\<close>, \<open>Mac_Mount\<close>, \<open>Wsl_Mount\<close>: a mount of each backend from the configuration to the
  replies of the agent. \<open>Guest_Init\<close>: the guest's init (\<^verbatim>\<open>tokimo-init\<close> in \<^verbatim>\<open>scripts/image/build.sh\<close>)
  from the command line to the script or shell, as a list of what it does and when. \<open>Repl\<close>, \<open>Demos\<close>, \<open>Demo_Files\<close>: the example programs, over any backend. \<open>Facade\<close>: the
  trait \<^verbatim>\<open>Sandbox\<close> as a record of methods, the interface \<open>sandbox_object\<close> of its implementations,
  and \<^verbatim>\<open>new_default\<close>.


  How the models correspond to the code.

  A method is a function of its arguments and of the state it works on, and returns its
  \<^verbatim>\<open>Result\<close> with the state after it; every early return and \<^verbatim>\<open>?\<close> is a branch. A struct is a
  record, an enum a datatype, \<^verbatim>\<open>u8\<close> to \<^verbatim>\<open>u64\<close> and \<^verbatim>\<open>i64\<close> are words. A \<^verbatim>\<open>String\<close> is its bytes in
  UTF-8. The host of \<^verbatim>\<open>HostFs\<close> is a tree of files, directories and symbolic links whose reads
  may be short. A connection is the bytes under way in both directions; a client call runs
  the server on what it sent, which is how the mutex of the client orders them. A backend
  works on a world: files, tasks, processes or threads, and for every call that can fail
  its outcome, so that a theorem holds for each way the calls can turn out. A call that may
  not return has the outcome \<open>Pending\<close>, or \<open>None\<close> for a client call.

  What is not under \<^verbatim>\<open>src/\<close> is a parameter: \<^verbatim>\<open>postcard\<close> (\<open>codec\<close>: encoders and decoders of
  messages; round trips are assumed only of the messages that are sent), \<^verbatim>\<open>serde_json\<close>
  (\<open>json_api\<close>), the FUSE reply buffer (\<open>buffer\<close>), \<^verbatim>\<open>wsl.exe\<close> (\<open>ww_run\<close>), Apple's framework (\<open>vz\<close>),
  the clock and the guest's devices (\<open>Agent_Boot\<close>), which socket QEMU attaches to a port
  (\<open>qemu_attaches\<close>, as it documents) and which descriptor Apple's framework does
  (\<open>vz_attaches\<close>), how \<^verbatim>\<open>wsl.exe\<close> passes a command on (\<open>passes_exec\<close>), the parsing of arguments
  by \<^verbatim>\<open>clap\<close> (\<open>parses_args\<close>), when a mount appears in the guest (\<open>guest_env\<close>), how much of a write \<^verbatim>\<open>tokio\<close> leaves under way (\<open>late\<close>), what
  each poll of a pipe finds or takes (\<open>in_pipe\<close>, \<open>out_pipe\<close>), the terminal, the socket and the
  log of the examples.


  What the lemmas show.

  Confinement: whatever bytes a guest sends, the server of a shared directory changes
  nothing outside its root as long as no symbolic link lies below it, and a read-only share
  is never changed; with links, and for a final \<^verbatim>\<open>..\<close>, \<^verbatim>\<open>resolve\<close> lets a path out, which the
  theorems on \<^verbatim>\<open>HostFs\<close> exhibit. Transparency: calls over frames, and FUSE requests through the
  agent, do what they would do on the provider itself, as long as each message fits a
  frame; what happens to larger ones is shown too. The agent: inode numbers and paths stay
  in bijection, a directory read in pieces loses nothing, errors change no table, and a
  rename leaves the kernel with a stale number. The backends: what a successful start has
  wired (per mount: a provider, a channel, a port or process of the mount's tag, and the
  guest's parse of the command line), that stop undoes a start however far it got, that a
  sandbox starts at most once, and where stop, wait or a failed start leave something behind
  or never return. A mount of a backend, followed from the configuration to the replies of
  the agent, is served by its own provider. Two things come between: the guest's init gives
  a mount one round of its waiting loop instead of 75 before it starts the script, and over
  standard streams any other output of the agent ends the connection.

  Concurrency: the connections to one \<^verbatim>\<open>MemoryVfs\<close> behave, under its mutex, as one sequence of
  requests that respects the order observed, until a request too large for the memory
  panics with the mutex held and ends the provider for all of them; with the methods of \<^verbatim>\<open>HostFs\<close> taken apart, a connection alone is served as by the whole
  methods, and many stay inside the share as long as no path has a \<^verbatim>\<open>..\<close> component, which
  two connections can otherwise use to get out. Polled tasks do what the models on whole
  bytes say. The examples: what a session passes on and leaves behind, and that a
  demonstration reports what the log shows.


  Bounds and fuel.

  A frame holds at most \<^verbatim>\<open>64 * 1024 * 1024\<close> bytes (\<open>max_frame\<close>). Following symbolic links is
  bounded by the kernel's limit (\<open>symlink_limit\<close>). Waiting for a port has fuel: 151 attempts
  are enough, since each sleeps 200 milliseconds and the deadline is 30 seconds; a
  demonstration looks at its log at most 120 times, at 500 milliseconds in a minute, so 121
  is enough. Connecting to QEMU takes at most 126 attempts, 80 milliseconds apart within ten
  seconds (\<open>qmp_dial\<close>). A request to \<^verbatim>\<open>HostFs\<close> takes at most nine steps. A polled task is run for any
  number of polls, and the theorems give a number from which on it is at rest. The other
  loops are total, the read loop by the bytes missing and the server by the bytes unread.


  Not modelled.

  Logging, tracing and printing (but for what a record does to the agent's stream), ids as
  random numbers (they are fresh numbers), the shell scripts except the guest's init from the
  command line on, Windows builds of \<^verbatim>\<open>HostFs\<close>, file times beyond seconds, connections an
  accept task has already handed over (they end with the process at their other end), and
  the timing of the three-second grace periods of \<^verbatim>\<open>stop\<close>, whose results the code ignores.
  A call of the client that never returns counts as an error where the agent uses it
  (\<open>rpc_call\<close>); on the connections of the model there is none. The keys of the interactive
  example count as sent when they enter its channel. Dropping a machine of Apple's framework
  closes the descriptors given to it, as \<^verbatim>\<open>closeOnDealloc\<close> asks for.
  In \<open>Host_Fs\<close> a method is one step whose writes are finished before the next; in \<open>Host_Conc\<close>
  the calls on one open descriptor are one step, the writes that come late are not. In
  \<open>Duplex\<close> a method of a provider is one step, and in \<open>Serve_Many\<close> so are the reads and the
  changes of \<^verbatim>\<open>MemoryVfs\<close>, but not its methods. The frames over virtio-serial
  devices and sockets are those of \<open>Rpc_Wire\<close>, without polls.
\<close>

end
